(* ===== verification/Prelude.thy ===== *)
theory Prelude
  imports Main "HOL-Library.Sublist" "HOL-Library.Word" "HOL-Library.Multiset"
begin

text \<open>
  Shared vocabulary of the development: the lemma collections, and generic facts about
  lists, options and sums that several components use.  Nothing in here speaks about the
  actions themselves.
\<close>

named_theorems go_simps \<open>evaluation rules for the models of the Go library functions\<close>
named_theorems act_simps \<open>unfolding rules for the action combinators\<close>
named_theorems emits_intros \<open>rules that bound which system calls an action may issue\<close>

subsection \<open>Lists\<close>

text \<open>
  The position of an element is the list before it: \<open>before xs a b\<close> says that some
  occurrence of \<open>a\<close> stands before some occurrence of \<open>b\<close>.
\<close>

definition before :: "'a list \<Rightarrow> 'a \<Rightarrow> 'a \<Rightarrow> bool" where
  "before xs a b \<longleftrightarrow> (\<exists>us vs ws. xs = us @ a # vs @ b # ws)"

lemma beforeI: "xs = us @ a # vs @ b # ws \<Longrightarrow> before xs a b"
  by (auto simp: before_def)

lemma before_memD: "before xs a b \<Longrightarrow> a \<in> set xs \<and> b \<in> set xs"
  by (auto simp: before_def)

text \<open>
  In a list sorted by a key, an element with a strictly smaller key stands before an
  element with a larger one.
\<close>

lemma sorted_key_before:
  fixes k :: "'a \<Rightarrow> 'b::linorder"
  assumes "sorted (map k xs)" and "a \<in> set xs" and "b \<in> set xs" and "k a < k b"
  shows "before xs a b"
proof -
  from assms(2) obtain us vs where xs: "xs = us @ a # vs"
    by (auto dest: split_list)
  have "b \<notin> set us"
  proof
    assume "b \<in> set us"
    with assms(1) have "k b \<le> k a" by (auto simp: xs sorted_append)
    with assms(4) show False by simp
  qed
  moreover from assms(4) have "a \<noteq> b" by auto
  ultimately have "b \<in> set vs" using assms(3) by (auto simp: xs)
  then obtain vs1 ws where "vs = vs1 @ b # ws" by (auto dest: split_list)
  with xs show ?thesis by (auto intro: beforeI)
qed

lemma unique_cut:
  assumes "pre @ c # suf = us @ d # vs" and "d \<notin> set pre" and "d \<notin> set suf"
  shows "us = pre \<and> d = c \<and> vs = suf"
  using assms by (auto simp: append_eq_append_conv2 append_eq_Cons_conv Cons_eq_append_conv)

text \<open>
  A cut through the concatenation of blocks goes through one block; the blocks before it
  lie in front of the cut.
\<close>

lemma concat_map_split:
  "concat (map h xs) = us @ c # rest \<Longrightarrow>
   \<exists>ys y zs vs. xs = ys @ y # zs \<and> c \<in> set (h y) \<and> us = concat (map h ys) @ vs"
proof (induction xs arbitrary: us)
  case Nil
  then show ?case by simp
next
  case (Cons x xs)
  from Cons.prems have "h x @ concat (map h xs) = us @ c # rest" by simp
  then consider (inside) vs where "h x = us @ c # vs"
    | (behind) us' where "us = h x @ us'" "concat (map h xs) = us' @ c # rest"
    by (auto simp: append_eq_append_conv2 append_eq_Cons_conv)
  then show ?case
  proof cases
    case inside
    then show ?thesis
      by (intro exI [of _ "[]"] exI [of _ x] exI [of _ xs] exI [of _ us]) simp
  next
    case behind
    from Cons.IH [OF behind(2)] obtain ys y zs vs where
      "xs = ys @ y # zs" "c \<in> set (h y)" "us' = concat (map h ys) @ vs" by blast
    with behind(1) show ?thesis
      by (intro exI [of _ "x # ys"] exI [of _ y] exI [of _ zs] exI [of _ vs]) simp
  qed
qed

lemma prefix_before:
  assumes "us @ c # vs = xs @ ys" and "c \<notin> set xs"
  shows "prefix xs us"
  using assms
proof (induction xs arbitrary: us)
  case (Cons x xs)
  then show ?case by (cases us) auto
qed simp

subsection \<open>Options and sums\<close>

lemma option_cases_None [simp]: "(case m of None \<Rightarrow> None | Some x \<Rightarrow> Some x) = m"
  by (cases m) auto

lemma case_first_None [simp]: "(case m of None \<Rightarrow> y | Some x \<Rightarrow> Some x) = None \<longleftrightarrow> m = None \<and> y = None"
  by (cases m) auto

definition is_Inl :: "'a + 'b \<Rightarrow> bool" where
  "is_Inl s = (case s of Inl _ \<Rightarrow> True | Inr _ \<Rightarrow> False)"

lemma is_Inl_simps [simp]: "is_Inl (Inl e)" "\<not> is_Inl (Inr x)"
  by (simp_all add: is_Inl_def)

subsection \<open>Interleavings\<close>

text \<open>All orders in which several lists can be merged, each of them kept in its own order.\<close>

fun interleavings :: "'a list list \<Rightarrow> 'a list set" where
  "interleavings [] = {[]}"
| "interleavings (xs # xss) = (\<Union>ys\<in>interleavings xss. shuffles xs ys)"

lemma interleavings_filter:
  "zs \<in> interleavings xss \<Longrightarrow> filter P zs \<in> interleavings (map (filter P) xss)"
proof (induction xss arbitrary: zs)
  case (Cons xs xss)
  then obtain ys where ys: "ys \<in> interleavings xss" "zs \<in> shuffles xs ys" by auto
  then have "filter P zs \<in> shuffles (filter P xs) (filter P ys)" using filter_shuffles by fastforce
  with Cons.IH [OF ys(1)] show ?case by auto
qed simp

lemma interleavings_empties: "list_all (\<lambda>xs. xs = []) xss \<Longrightarrow> interleavings xss = {[]}"
  by (induction xss) auto

text \<open>What an interleaving keeps of one list, when no other list has elements of its kind.\<close>

lemma interleavings_project:
  assumes "zs \<in> interleavings (map f rs)" and "r \<in> set rs" and "distinct rs"
    and own: "filter P (f r) = f r" and others: "\<And>s. s \<in> set rs \<Longrightarrow> s \<noteq> r \<Longrightarrow> filter P (f s) = []"
  shows "filter P zs = f r"
proof -
  have "interleavings (map (\<lambda>s. filter P (f s)) rs) = {f r}"
    using assms(2,3) others
  proof (induction rs)
    case (Cons s rs)
    show ?case
    proof (cases "s = r")
      case True
      with Cons.prems have "list_all (\<lambda>xs. xs = []) (map (\<lambda>s. filter P (f s)) rs)"
        by (auto simp: list_all_iff)
      with True own show ?thesis by (simp add: interleavings_empties)
    next
      case False
      with Cons show ?thesis by simp
    qed
  qed simp
  with interleavings_filter [OF assms(1), of P] show ?thesis by (simp add: comp_def)
qed

end
