(* ===== verification/GoStrings.thy ===== *)
theory GoStrings
  imports Prelude
begin

text \<open>
  The functions of Go's packages \<open>strings\<close> and \<open>strconv\<close> that the actions call, over
  Isabelle's \<^typ>\<open>string\<close>.  A Go string is a sequence of bytes and \<^typ>\<open>char\<close> has exactly
  256 values, so one \<^typ>\<open>char\<close> is one byte.  Separators, cut sets and replaced
  substrings are non-empty at every call site of the program; that is assumed here.
\<close>

abbreviation NL :: string where
  "NL \<equiv> [CHR 0x0A]"

subsection \<open>Prefixes and suffixes\<close>

definition HasPrefix :: "string \<Rightarrow> string \<Rightarrow> bool" where
  "HasPrefix s p \<longleftrightarrow> take (length p) s = p"

definition HasSuffix :: "string \<Rightarrow> string \<Rightarrow> bool" where
  "HasSuffix s p \<longleftrightarrow> length p \<le> length s \<and> drop (length s - length p) s = p"

definition TrimPrefix :: "string \<Rightarrow> string \<Rightarrow> string" where
  "TrimPrefix s p = (if HasPrefix s p then drop (length p) s else s)"

definition TrimSuffix :: "string \<Rightarrow> string \<Rightarrow> string" where
  "TrimSuffix s p = (if HasSuffix s p then take (length s - length p) s else s)"

lemma HasPrefix_Nil [simp]: "HasPrefix s []"
  by (simp add: HasPrefix_def)

lemma HasPrefix_Nil_left [simp]: "HasPrefix [] p \<longleftrightarrow> p = []"
  by (auto simp: HasPrefix_def)

lemma HasPrefix_Cons [simp]: "HasPrefix (c # s) (d # p) \<longleftrightarrow> c = d \<and> HasPrefix s p"
  by (auto simp: HasPrefix_def)

lemma HasPrefix_iff: "HasPrefix s p \<longleftrightarrow> (\<exists>t. s = p @ t)"
  by (auto simp: HasPrefix_def) (metis append_take_drop_id)

lemma HasPrefix_append [simp]: "HasPrefix (p @ s) p"
  by (simp add: HasPrefix_def)

lemma HasPrefix_drop: "HasPrefix s p \<Longrightarrow> s = p @ drop (length p) s"
  by (metis HasPrefix_def append_take_drop_id)

lemma HasSuffix_iff: "HasSuffix s p \<longleftrightarrow> (\<exists>t. s = t @ p)"
  by (auto simp: HasSuffix_def) (metis append_take_drop_id)

lemma TrimSuffix_append [simp]: "TrimSuffix (s @ p) p = s"
  by (simp add: TrimSuffix_def HasSuffix_def)

fun Contains :: "string \<Rightarrow> string \<Rightarrow> bool" where
  "Contains [] sub = (sub = [])"
| "Contains (c # cs) sub = (HasPrefix (c # cs) sub \<or> Contains cs sub)"

lemma Contains_iff: "Contains s sub \<longleftrightarrow> (\<exists>us vs. s = us @ sub @ vs)"
proof (induction s)
  case Nil
  then show ?case by auto
next
  case (Cons c cs)
  show ?case
  proof
    assume "Contains (c # cs) sub"
    then consider "HasPrefix (c # cs) sub" | "Contains cs sub" by auto
    then show "\<exists>us vs. c # cs = us @ sub @ vs"
    proof cases
      case 1
      then show ?thesis by (metis HasPrefix_iff append_Nil)
    next
      case 2
      with Cons.IH obtain us vs where "cs = us @ sub @ vs" by blast
      then have "c # cs = (c # us) @ sub @ vs" by simp
      then show ?thesis by blast
    qed
  next
    assume "\<exists>us vs. c # cs = us @ sub @ vs"
    then obtain us vs where eq: "c # cs = us @ sub @ vs" by blast
    show "Contains (c # cs) sub"
    proof (cases us)
      case Nil
      with eq have "HasPrefix (c # cs) sub" by simp
      then show ?thesis by simp
    next
      case (Cons u us')
      with eq have "cs = us' @ sub @ vs" by simp
      with Cons.IH show ?thesis by auto
    qed
  qed
qed

text \<open>\<open>Cut\<close>: the parts before and behind the first occurrence of a separator.\<close>

fun Cut :: "string \<Rightarrow> string \<Rightarrow> (string \<times> string) option" where
  "Cut [] sep = (if sep = [] then Some ([], []) else None)"
| "Cut (c # s) sep =
     (if HasPrefix (c # s) sep then Some ([], drop (length sep) (c # s))
      else (case Cut s sep of None \<Rightarrow> None | Some (a, b) \<Rightarrow> Some (c # a, b)))"

lemma Cut_parts: "Cut s sep = Some (a, b) \<Longrightarrow> s = a @ sep @ b"
  by (induction s arbitrary: a) (auto simp: HasPrefix_drop split: if_splits option.splits)

lemma Cut_shorter: "Cut s sep = Some (a, b) \<Longrightarrow> sep \<noteq> [] \<Longrightarrow> length b < length s"
  by (auto dest: Cut_parts)

text \<open>A separator whose first byte does not occur in the rest of it does not overlap with itself.\<close>

lemma Cut_first:
  assumes "\<not> Contains a (c # w)" and "c \<notin> set w"
  shows "Cut (a @ (c # w) @ r) (c # w) = Some (a, r)"
  using assms(1)
proof (induction a)
  case (Cons x a)
  have "\<not> HasPrefix ((x # a) @ (c # w) @ r) (c # w)"
  proof
    assume "HasPrefix ((x # a) @ (c # w) @ r) (c # w)"
    then obtain t where x: "x = c" and t: "a @ (c # w) @ r = w @ t" by (auto simp: HasPrefix_iff)
    show False
    proof (cases "length w \<le> length a")
      case True
      with t have "a = w @ drop (length w) a" by (metis append_eq_append_conv_if append_take_drop_id)
      with x have "HasPrefix (x # a) (c # w)" by (metis HasPrefix_append append_Cons)
      with Cons.prems show False by simp
    next
      case False
      with t have "take (length a) w = a" "drop (length a) w \<noteq> []"
        by (auto simp: append_eq_append_conv_if)
      then have "w = a @ drop (length a) w" by (metis append_take_drop_id)
      with t have "(c # w) @ r = drop (length a) w @ t" by (metis append.assoc same_append_eq)
      with \<open>drop (length a) w \<noteq> []\<close> have "hd (drop (length a) w) = c" by (cases "drop (length a) w") auto
      with \<open>drop (length a) w \<noteq> []\<close> have "c \<in> set w" by (metis hd_in_set in_set_dropD)
      with assms(2) show False ..
    qed
  qed
  with Cons show ?case by simp
qed simp

lemma Cut_absent_head: "c \<notin> set a \<Longrightarrow> c \<notin> set w \<Longrightarrow> Cut (a @ (c # w) @ r) (c # w) = Some (a, r)"
  by (rule Cut_first) (auto simp: Contains_iff)

subsection \<open>Split, Join, ReplaceAll, Count\<close>

text \<open>
  \<open>Split s sep\<close> cuts at the leftmost occurrence of \<open>sep\<close> and goes on behind it.  The
  result is never empty.
\<close>

function Split :: "string \<Rightarrow> string \<Rightarrow> string list" where
  "Split [] sep = [[]]"
| "Split (c # cs) sep =
     (if sep \<noteq> [] \<and> HasPrefix (c # cs) sep
      then [] # Split (drop (length sep) (c # cs)) sep
      else (case Split cs sep of
              [] \<Rightarrow> [[c]]
            | x # xs \<Rightarrow> (c # x) # xs))"
  by pat_completeness auto
termination
  by (relation "measure (\<lambda>(s, sep). length s)") (auto simp: neq_Nil_conv)

fun Join :: "string list \<Rightarrow> string \<Rightarrow> string" where
  "Join [] sep = []"
| "Join [x] sep = x"
| "Join (x # y # ys) sep = x @ sep @ Join (y # ys) sep"

definition ReplaceAll :: "string \<Rightarrow> string \<Rightarrow> string \<Rightarrow> string" where
  "ReplaceAll s old new = Join (Split s old) new"

definition Count :: "string \<Rightarrow> string \<Rightarrow> nat" where
  "Count s sub = length (Split s sub) - 1"

lemma Split_not_Nil [simp]: "Split s sep \<noteq> []"
  by (induction s sep rule: Split.induct) (auto split: list.splits)

lemma Join_Cons: "xs \<noteq> [] \<Longrightarrow> Join (x # xs) sep = x @ sep @ Join xs sep"
  by (cases xs) auto

lemma Join_Cons_head: "Join ((c # x) # xs) sep = c # Join (x # xs) sep"
  by (cases xs) auto

theorem Join_Split: "Join (Split s sep) sep = s"
proof (induction s sep rule: Split.induct)
  case (1 sep)
  then show ?case by simp
next
  case (2 c cs sep)
  show ?case
  proof (cases "sep \<noteq> [] \<and> HasPrefix (c # cs) sep")
    case True
    with 2(1) have "Join (Split (c # cs) sep) sep = sep @ drop (length sep) (c # cs)"
      by (simp add: Join_Cons)
    with True show ?thesis by (metis HasPrefix_drop)
  next
    case False
    with 2(2) show ?thesis
      by (auto split: list.splits simp: Join_Cons_head)
  qed
qed

text \<open>Splitting at a one-byte separator: no piece holds the separator.\<close>

lemma Split_char_simps [simp]:
  "Split (c # cs) [d] =
     (if c = d then [] # Split cs [d]
      else (case Split cs [d] of [] \<Rightarrow> [[c]] | x # xs \<Rightarrow> (c # x) # xs))"
  by auto

lemma Split_char_pieces: "p \<in> set (Split s [d]) \<Longrightarrow> d \<notin> set p"
proof (induction s arbitrary: p)
  case Nil
  then show ?case by simp
next
  case (Cons c cs)
  then show ?case by (cases "Split cs [d]") (auto split: if_splits)
qed

lemma Split_char_free: "d \<notin> set s \<Longrightarrow> Split s [d] = [s]"
  by (induction s) auto

lemma Split_char_append: "Split (u @ d # v) [d] =
    butlast (Split u [d]) @ last (Split u [d]) # Split v [d]"
proof (induction u)
  case Nil
  then show ?case by simp
next
  case (Cons c u)
  then show ?case
    by (cases "Split u [d]"; cases "tl (Split u [d])") (auto split: if_splits)
qed

lemma Split_last_append: "d \<notin> set v \<Longrightarrow> last (Split (u @ v) [d]) = last (Split u [d]) @ v"
proof (induction u)
  case Nil
  then show ?case by (simp add: Split_char_free)
next
  case (Cons c u)
  obtain x xs where u: "Split u [d] = x # xs" by (cases "Split u [d]") simp_all
  obtain y ys where uv: "Split (u @ v) [d] = y # ys" by (cases "Split (u @ v) [d]") simp_all
  have "xs = [] \<longleftrightarrow> ys = []"
  proof -
    have "Split w [d] = [z] \<Longrightarrow> d \<notin> set w" for w z
      using Split_char_pieces [of z w d] Join_Split [of w "[d]"] by simp
    moreover have "d \<notin> set w \<Longrightarrow> Split w [d] = [w]" for w by (rule Split_char_free)
    ultimately show ?thesis using u uv Cons.prems
      by (metis Un_iff list.inject set_append)
  qed
  with Cons u uv show ?case by (auto simp: Split_char_simps split: if_splits)
qed

lemma Split_char_concat: "Split (u @ d # v) [d] = Split u [d] @ Split v [d]"
proof -
  have "Split (u @ d # v) [d] = (butlast (Split u [d]) @ [last (Split u [d])]) @ Split v [d]"
    by (simp add: Split_char_append del: append_butlast_last_id)
  then show ?thesis by (simp only: append_butlast_last_id [OF Split_not_Nil])
qed

lemma Split_not_Contains: "\<not> Contains s sep \<Longrightarrow> Split s sep = [s]"
  by (induction s) auto

lemma ReplaceAll_absent: "\<not> Contains s old \<Longrightarrow> ReplaceAll s old new = s"
  by (simp add: ReplaceAll_def Split_not_Contains)

lemma Contains_subset: "Contains s sub \<Longrightarrow> set sub \<subseteq> set s"
  by (auto simp: Contains_iff)

theorem Split_Join_char:
  "xs \<noteq> [] \<Longrightarrow> (\<forall>x\<in>set xs. d \<notin> set x) \<Longrightarrow> Split (Join xs [d]) [d] = xs"
proof (induction xs rule: induct_list012)
  case (3 x y zs)
  then show ?case by (simp add: Split_char_append Split_char_free)
qed (auto simp: Split_char_free)

lemma Count_char: "Count s [d] = count_list s d"
proof -
  have "length (Split s [d]) = Suc (count_list s d)"
    by (induction s) (auto split: list.splits)
  then show ?thesis by (simp add: Count_def)
qed

subsection \<open>Trimming and white space\<close>

definition TrimLeft :: "string \<Rightarrow> string \<Rightarrow> string" where
  "TrimLeft s cutset = dropWhile (\<lambda>c. c \<in> set cutset) s"

definition TrimRight :: "string \<Rightarrow> string \<Rightarrow> string" where
  "TrimRight s cutset = rev (dropWhile (\<lambda>c. c \<in> set cutset) (rev s))"

definition Trim :: "string \<Rightarrow> string \<Rightarrow> string" where
  "Trim s cutset = TrimRight (TrimLeft s cutset) cutset"

text \<open>
  \<open>strings.Fields\<close> splits around runs of \<open>unicode.IsSpace\<close>.  \<open>space_len s\<close> is the
  number of bytes of the white-space rune that \<open>s\<close> starts with, and 0 if it starts with
  none: the six ASCII ones, U+0085, U+00A0, U+1680, U+2000 to U+200A, U+2028, U+2029,
  U+202F, U+205F and U+3000 in their UTF-8 encodings.  A lead byte never occurs inside
  another encoding, so scanning byte by byte finds exactly the runes Go decodes.
\<close>

definition space_len :: "string \<Rightarrow> nat" where
  "space_len s = (case map of_char s :: nat list of
       [] \<Rightarrow> 0
     | a # as \<Rightarrow>
         if a = 32 \<or> (9 \<le> a \<and> a \<le> 13) then 1
         else (case as of
             [] \<Rightarrow> 0
           | b # bs \<Rightarrow>
               if a = 194 \<and> (b = 133 \<or> b = 160) then 2
               else (case bs of
                   [] \<Rightarrow> 0
                 | c # _ \<Rightarrow>
                     if (a = 225 \<and> b = 154 \<and> c = 128)
                      \<or> (a = 226 \<and> b = 128
                          \<and> ((128 \<le> c \<and> c \<le> 138) \<or> c = 168 \<or> c = 169 \<or> c = 175))
                      \<or> (a = 226 \<and> b = 129 \<and> c = 159)
                      \<or> (a = 227 \<and> b = 128 \<and> c = 128)
                     then 3 else 0)))"

function fields_from :: "string \<Rightarrow> string \<Rightarrow> string list" where
  "fields_from acc [] = (if acc = [] then [] else [acc])"
| "fields_from acc (c # cs) =
     (let n = space_len (c # cs) in
      if n = 0 then fields_from (acc @ [c]) cs
      else (if acc = [] then [] else [acc]) @ fields_from [] (drop (n - 1) cs))"
  by pat_completeness auto
termination
  by (relation "measure (\<lambda>(acc, s). length s)") auto

definition Fields :: "string \<Rightarrow> string list" where
  "Fields s = fields_from [] s"

lemma Fields_Nil [simp]: "Fields [] = []"
  by (simp add: Fields_def)

lemma fields_from_nonempty: "w \<in> set (fields_from acc s) \<Longrightarrow> w \<noteq> []"
  by (induction acc s rule: fields_from.induct) (auto simp: Let_def split: if_splits)

text \<open>Words of visible ASCII characters, and how \<open>Fields\<close> reads them.\<close>

definition graphic :: "char \<Rightarrow> bool" where
  "graphic c = (let n = of_char c :: nat in 33 \<le> n \<and> n \<le> 126)"

lemma space_len_graphic: "graphic c \<Longrightarrow> space_len (c # cs) = 0"
  by (auto simp: graphic_def space_len_def Let_def split: list.splits)

lemma fields_from_word: "list_all graphic w \<Longrightarrow> fields_from acc (w @ s) = fields_from (acc @ w) s"
  by (induction w arbitrary: acc) (simp_all add: space_len_graphic)

lemma fields_from_blank:
  "fields_from acc (CHR '' '' # s) = (if acc = [] then [] else [acc]) @ fields_from [] s"
  by (simp add: space_len_def Let_def)

definition field_word :: "string \<Rightarrow> bool" where
  "field_word w \<longleftrightarrow> w \<noteq> [] \<and> list_all graphic w"

lemma Fields_blank: "Fields (CHR '' '' # s) = Fields s"
  by (simp add: Fields_def fields_from_blank del: fields_from.simps)

lemma Fields_TrimLeft: "Fields (TrimLeft s '' '') = Fields s"
  by (induction s) (simp_all add: TrimLeft_def Fields_blank)

lemma Fields_word: "list_all graphic w \<Longrightarrow> w \<noteq> [] \<Longrightarrow> Fields w = [w]"
  using fields_from_word [of w "[]" "[]"] by (simp add: Fields_def)

lemma Fields_word_blank: "list_all graphic w \<Longrightarrow> w \<noteq> [] \<Longrightarrow> Fields (w @ CHR '' '' # s) = w # Fields s"
  by (simp add: Fields_def fields_from_word fields_from_blank del: fields_from.simps)

lemma Fields_Join: "\<forall>w\<in>set ws. list_all graphic w \<and> w \<noteq> [] \<Longrightarrow> Fields (Join ws '' '') = ws"
  by (induction ws rule: induct_list012) (simp_all add: Fields_word Fields_word_blank)

lemma graphic_not_NL: "list_all graphic w \<Longrightarrow> CHR 0x0A \<notin> set w"
  by (auto simp: list_all_iff graphic_def Let_def)

text \<open>
  \<open>strings.ToLower\<close> on ASCII letters.  The bytes above 127 are left alone; for the
  comparisons the program makes with the result this decides the same way as Go's
  Unicode mapping on every input free of the runes U+0130 and U+212A.
\<close>

definition lower_char :: "char \<Rightarrow> char" where
  "lower_char c = (let n = of_char c :: nat in if 65 \<le> n \<and> n \<le> 90 then char_of (n + 32) else c)"

definition ToLower :: "string \<Rightarrow> string" where
  "ToLower s = map lower_char s"

subsection \<open>ASCII classes\<close>

definition is_letter :: "char \<Rightarrow> bool" where
  "is_letter c = (let n = of_char c :: nat in (65 \<le> n \<and> n \<le> 90) \<or> (97 \<le> n \<and> n \<le> 122))"

definition is_digit :: "char \<Rightarrow> bool" where
  "is_digit c = (let n = of_char c :: nat in 48 \<le> n \<and> n \<le> 57)"

subsection \<open>Decimal output\<close>

definition digit_char :: "nat \<Rightarrow> char" where
  "digit_char n = char_of (48 + n)"

fun FormatUint :: "nat \<Rightarrow> string" where
  "FormatUint n = (if n < 10 then [digit_char n] else FormatUint (n div 10) @ [digit_char (n mod 10)])"

declare FormatUint.simps [simp del]

lemma digit_char_values:
  "digit_char 0 = CHR ''0''" "digit_char (Suc 0) = CHR ''1''" "digit_char 1 = CHR ''1''" "digit_char 2 = CHR ''2''"
  "digit_char 3 = CHR ''3''" "digit_char 4 = CHR ''4''" "digit_char 5 = CHR ''5''" "digit_char 6 = CHR ''6''"
  "digit_char 7 = CHR ''7''" "digit_char 8 = CHR ''8''" "digit_char 9 = CHR ''9''"
  by code_simp+

lemma FormatUint_rec [go_simps]:
  "FormatUint n = (if n < 10 then [digit_char n] else FormatUint (n div 10) @ [digit_char (n mod 10)])"
  by (rule FormatUint.simps)

text \<open>
  \<open>strconv.Quote\<close>: double quotes around the text, with escapes for the quote, the backslash and
  the control characters.  Bytes beyond ASCII are taken to be those of printable characters.
\<close>

definition hex_digit :: "nat \<Rightarrow> char" where
  "hex_digit n = (if n < 10 then digit_char n else char_of (87 + n))"

definition quote_char :: "char \<Rightarrow> string" where
  "quote_char c =
     (let n = (of_char c :: nat) in
      if c = CHR 0x22 \<or> c = CHR 0x5C then [CHR 0x5C, c]
      else if n = 7 then [CHR 0x5C, CHR ''a'']
      else if n = 8 then [CHR 0x5C, CHR ''b'']
      else if n = 9 then [CHR 0x5C, CHR ''t'']
      else if n = 10 then [CHR 0x5C, CHR ''n'']
      else if n = 11 then [CHR 0x5C, CHR ''v'']
      else if n = 12 then [CHR 0x5C, CHR ''f'']
      else if n = 13 then [CHR 0x5C, CHR ''r'']
      else if n < 32 \<or> n = 127 then [CHR 0x5C, CHR ''x'', hex_digit (n div 16), hex_digit (n mod 16)]
      else [c])"

definition Quote :: "string \<Rightarrow> string" where
  "Quote s = CHR 0x22 # concat (map quote_char s) @ [CHR 0x22]"

definition Itoa :: "int \<Rightarrow> string" where
  "Itoa i = (if i < 0 then CHR ''-'' # FormatUint (nat (- i)) else FormatUint (nat i))"

subsection \<open>Numeric input\<close>

text \<open>
  \<open>strconv.ParseUint s base bits\<close> with a base between 2 and 36: \<^const>\<open>None\<close> stands for
  the syntax and range errors, whose texts only reach the log.
\<close>

definition digit_val :: "char \<Rightarrow> nat option" where
  "digit_val c = (let n = of_char c :: nat in
     if 48 \<le> n \<and> n \<le> 57 then Some (n - 48)
     else if 97 \<le> n \<and> n \<le> 122 then Some (n - 87)
     else if 65 \<le> n \<and> n \<le> 90 then Some (n - 55)
     else None)"

fun parse_digits :: "nat \<Rightarrow> nat \<Rightarrow> string \<Rightarrow> nat option" where
  "parse_digits base acc [] = Some acc"
| "parse_digits base acc (c # cs) =
     (case digit_val c of
        None \<Rightarrow> None
      | Some d \<Rightarrow> if d < base then parse_digits base (acc * base + d) cs else None)"

definition ParseUint :: "string \<Rightarrow> nat \<Rightarrow> nat \<Rightarrow> nat option" where
  "ParseUint s base bits =
     (if s = [] then None
      else (case parse_digits base 0 s of
              None \<Rightarrow> None
            | Some n \<Rightarrow> if n < 2 ^ bits then Some n else None))"

text \<open>\<open>strconv.ParseInt s base 0\<close>: an optional sign, then a 64-bit signed value.\<close>

definition ParseInt64 :: "string \<Rightarrow> nat \<Rightarrow> int option" where
  "ParseInt64 s base =
     (let neg = HasPrefix s ''-'';
          body = (if HasPrefix s ''-'' \<or> HasPrefix s ''+'' then drop 1 s else s)
      in case ParseUint body base 64 of
           None \<Rightarrow> None
         | Some n \<Rightarrow>
             if \<not> neg \<and> n < 2 ^ 63 then Some (int n)
             else if neg \<and> n \<le> 2 ^ 63 then Some (- int n)
             else None)"

definition Atoi :: "string \<Rightarrow> int option" where
  "Atoi s = ParseInt64 s 10"

definition ParseBool :: "string \<Rightarrow> bool option" where
  "ParseBool s =
     (if s \<in> {''1'', ''t'', ''T'', ''true'', ''TRUE'', ''True''} then Some True
      else if s \<in> {''0'', ''f'', ''F'', ''false'', ''FALSE'', ''False''} then Some False
      else None)"

lemma digit_val_digit_char: "n < 10 \<Longrightarrow> digit_val (digit_char n) = Some n"
  by (simp add: digit_val_def digit_char_def Let_def)

lemma parse_digits_append:
  "parse_digits base acc (xs @ ys) =
     (case parse_digits base acc xs of None \<Rightarrow> None | Some a \<Rightarrow> parse_digits base a ys)"
  by (induction xs arbitrary: acc) (auto split: option.splits)

lemma parse_digits_FormatUint: "parse_digits 10 0 (FormatUint n) = Some n"
proof (induction n rule: FormatUint.induct)
  case (1 n)
  then show ?case
    by (subst FormatUint.simps) (auto simp: parse_digits_append digit_val_digit_char)
qed

lemma FormatUint_not_Nil [simp]: "FormatUint n \<noteq> []"
  by (subst FormatUint.simps) auto

lemma FormatUint_digits: "c \<in> set (FormatUint n) \<Longrightarrow> \<exists>d<10. c = digit_char d"
proof (induction n rule: FormatUint.induct)
  case (1 n)
  show ?case
  proof (cases "n < 10")
    case True
    with "1.prems" show ?thesis by (subst (asm) FormatUint.simps) auto
  next
    case False
    with "1.prems" consider "c \<in> set (FormatUint (n div 10))" | "c = digit_char (n mod 10)"
      by (subst (asm) FormatUint.simps) auto
    then show ?thesis
    proof cases
      case 1
      with "1.IH" False show ?thesis by blast
    next
      case 2
      then show ?thesis by (intro exI [of _ "n mod 10"]) simp
    qed
  qed
qed

lemma FormatUint_is_digit: "c \<in> set (FormatUint n) \<Longrightarrow> is_digit c"
proof -
  assume "c \<in> set (FormatUint n)"
  then obtain d where "d < 10" "c = digit_char d" using FormatUint_digits by blast
  then show ?thesis by (simp add: is_digit_def digit_char_def)
qed

lemma digit_char_not_sign: "d < 10 \<Longrightarrow> digit_char d \<noteq> CHR ''-'' \<and> digit_char d \<noteq> CHR ''+''"
proof -
  assume "d < 10"
  then have "of_char (digit_char d) = 48 + d" by (simp add: digit_char_def)
  then show ?thesis by auto
qed

text \<open>Decimal output reads back: \<open>Atoi\<close> inverts \<open>Itoa\<close> on non-negative 64-bit values.\<close>

theorem Atoi_FormatUint: "n < 2 ^ 63 \<Longrightarrow> Atoi (FormatUint n) = Some (int n)"
proof -
  assume n: "n < 2 ^ 63"
  obtain c cs where fu: "FormatUint n = c # cs" by (cases "FormatUint n") auto
  then have "\<exists>d<10. c = digit_char d" using FormatUint_digits [of c n] by simp
  then have "c \<noteq> CHR ''-''" "c \<noteq> CHR ''+''" using digit_char_not_sign by auto
  then have "Atoi (FormatUint n) = (case ParseUint (FormatUint n) 10 64 of None \<Rightarrow> None
      | Some m \<Rightarrow> if m < 2 ^ 63 then Some (int m) else None)"
    by (simp add: Atoi_def ParseInt64_def fu Let_def split: option.splits)
  with n show ?thesis by (simp add: ParseUint_def parse_digits_FormatUint)
qed

end
