(* ===== verification/GoPath.thy ===== *)
theory GoPath
  imports GoStrings
begin

text \<open>
  The functions of Go's package \<open>path/filepath\<close> on Unix that the actions call: \<open>Clean\<close>,
  \<open>Join\<close>, \<open>Split\<close>, \<open>Base\<close>, \<open>Dir\<close>, \<open>Ext\<close> and \<open>IsAbs\<close>.  \<open>Clean\<close> works on the
  list of path elements: it drops empty elements and \<open>.\<close>, and lets \<open>..\<close> remove the
  element before it, as Go's documentation of \<open>Clean\<close> describes.
\<close>

definition IsAbs :: "string \<Rightarrow> bool" where
  "IsAbs path \<longleftrightarrow> HasPrefix path ''/''"

text \<open>
  One step of the element scan; the kept elements are a stack with the last one on top.
  In a rooted path a \<open>..\<close> at the root disappears, in a relative one it is kept.
\<close>

definition clean_elem :: "bool \<Rightarrow> string list \<Rightarrow> string \<Rightarrow> string list" where
  "clean_elem rooted st e =
     (if e = [] \<or> e = ''.'' then st
      else if e = ''..'' then
        (case st of
           [] \<Rightarrow> if rooted then [] else [e]
         | t # ts \<Rightarrow> if t = ''..'' then e # st else ts)
      else e # st)"

definition clean_elems :: "bool \<Rightarrow> string list \<Rightarrow> string list" where
  "clean_elems rooted es = rev (foldl (clean_elem rooted) [] es)"

definition path_elems :: "string \<Rightarrow> string list" where
  "path_elems path = clean_elems (IsAbs path) (Split path ''/'')"

definition Clean :: "string \<Rightarrow> string" where
  "Clean path =
     (if path = [] then ''.''
      else if IsAbs path then ''/'' @ Join (path_elems path) ''/''
      else if path_elems path = [] then ''.''
      else Join (path_elems path) ''/'')"

text \<open>\<open>filepath.Join\<close> skips leading empty elements and cleans the rest joined by \<open>/\<close>.\<close>

definition PathJoin :: "string list \<Rightarrow> string" where
  "PathJoin elems =
     (case dropWhile (\<lambda>e. e = []) elems of
        [] \<Rightarrow> []
      | es \<Rightarrow> Clean (Join es ''/''))"

definition file_part :: "string \<Rightarrow> string" where
  "file_part path = last (Split path ''/'')"

definition PathSplit :: "string \<Rightarrow> string \<times> string" where
  "PathSplit path = (take (length path - length (file_part path)) path, file_part path)"

definition Dir :: "string \<Rightarrow> string" where
  "Dir path = Clean (fst (PathSplit path))"

definition Base :: "string \<Rightarrow> string" where
  "Base path =
     (if path = [] then ''.''
      else (let p = TrimRight path ''/'' in if p = [] then ''/'' else file_part p))"

definition Ext :: "string \<Rightarrow> string" where
  "Ext path =
     (let f = file_part path
      in if CHR ''.'' \<in> set f then CHR ''.'' # last (Split f ''.'') else [])"

subsection \<open>The elements of a clean path\<close>

text \<open>A cleaned rooted path has ordinary elements only: not empty, not \<open>.\<close>, not \<open>..\<close>.\<close>

definition ordinary :: "string \<Rightarrow> bool" where
  "ordinary e \<longleftrightarrow> e \<noteq> [] \<and> e \<noteq> ''.'' \<and> e \<noteq> ''..'' \<and> CHR ''/'' \<notin> set e"

lemma clean_elem_ordinary_stack:
  "\<forall>x\<in>set st. ordinary x \<Longrightarrow> CHR ''/'' \<notin> set e \<Longrightarrow> \<forall>x\<in>set (clean_elem True st e). ordinary x"
  by (cases st) (simp_all add: clean_elem_def ordinary_def)

lemma foldl_clean_ordinary:
  "\<forall>x\<in>set st. ordinary x \<Longrightarrow> \<forall>e\<in>set es. CHR ''/'' \<notin> set e \<Longrightarrow>
     \<forall>x\<in>set (foldl (clean_elem True) st es). ordinary x"
proof (induction es arbitrary: st)
  case (Cons e es)
  have "\<forall>x\<in>set (clean_elem True st e). ordinary x"
    by (rule clean_elem_ordinary_stack) (use Cons.prems in auto)
  moreover have "\<forall>e\<in>set es. CHR ''/'' \<notin> set e" using Cons.prems(2) by simp
  ultimately show ?case by (simp only: foldl_Cons) (rule Cons.IH)
qed simp

lemma foldl_clean_id: "\<forall>e\<in>set es. ordinary e \<Longrightarrow> foldl (clean_elem r) st es = rev es @ st"
  by (induction es arbitrary: st) (auto simp: clean_elem_def ordinary_def)

lemma clean_elems_id: "\<forall>e\<in>set es. ordinary e \<Longrightarrow> clean_elems r es = es"
  by (simp add: clean_elems_def foldl_clean_id)

lemma path_elems_ordinary: "IsAbs p \<Longrightarrow> e \<in> set (path_elems p) \<Longrightarrow> ordinary e"
proof -
  assume abs: "IsAbs p" and e: "e \<in> set (path_elems p)"
  have "\<forall>x\<in>set (foldl (clean_elem True) [] (Split p ''/'')). ordinary x"
    by (rule foldl_clean_ordinary) (auto dest: Split_char_pieces)
  with abs e show ?thesis by (simp add: path_elems_def clean_elems_def)
qed

lemma Split_rooted: "\<forall>e\<in>set es. CHR ''/'' \<notin> set e \<Longrightarrow>
   Split (CHR ''/'' # Join es ''/'') ''/'' = (if es = [] then [[], []] else [] # es)"
  using Split_Join_char [of es "CHR ''/''"] by auto

lemma path_elems_rooted_Join:
  "\<forall>e\<in>set es. ordinary e \<Longrightarrow> path_elems (CHR ''/'' # Join es ''/'') = es"
proof -
  assume es: "\<forall>e\<in>set es. ordinary e"
  then have "\<forall>e\<in>set es. CHR ''/'' \<notin> set e" by (auto simp: ordinary_def)
  then have "clean_elems True (Split (CHR ''/'' # Join es ''/'') ''/'') = clean_elems True es"
    by (simp only: Split_rooted) (simp add: clean_elems_def clean_elem_def)
  with es show ?thesis
    by (simp add: path_elems_def IsAbs_def HasPrefix_def clean_elems_id)
qed

lemma Clean_abs: "IsAbs p \<Longrightarrow> Clean p = CHR ''/'' # Join (path_elems p) ''/''"
  by (auto simp: Clean_def IsAbs_def)

lemma IsAbs_Clean: "IsAbs p \<Longrightarrow> IsAbs (Clean p)"
  by (simp add: Clean_abs) (simp add: IsAbs_def)

lemma path_elems_Clean: "IsAbs p \<Longrightarrow> path_elems (Clean p) = path_elems p"
  by (simp add: Clean_abs path_elems_rooted_Join path_elems_ordinary)

text \<open>\<open>Clean\<close> is idempotent on absolute paths.\<close>

theorem Clean_idem: "IsAbs p \<Longrightarrow> Clean (Clean p) = Clean p"
  by (simp add: Clean_abs [of "Clean p"] IsAbs_Clean path_elems_Clean) (simp add: Clean_abs)

lemma file_part_no_slash: "CHR ''/'' \<notin> set (file_part p)"
  unfolding file_part_def by (rule Split_char_pieces [OF last_in_set]) simp

lemma Join_last: "xs \<noteq> [] \<Longrightarrow> \<exists>pre. Join xs sep = pre @ last xs"
proof (induction xs sep rule: Join.induct)
  case (3 x y ys sep)
  then obtain pre where "Join (y # ys) sep = pre @ last (y # ys)" by blast
  then have "Join (x # y # ys) sep = (x @ sep @ pre) @ last (x # y # ys)" by simp
  then show ?case by blast
qed auto

text \<open>\<open>filepath.Split\<close> loses nothing: directory part and file part make up the path.\<close>

theorem PathSplit_append: "fst (PathSplit p) @ snd (PathSplit p) = p"
proof -
  have "\<exists>pre. p = pre @ file_part p"
    using Join_last [of "Split p ''/''" "''/''"] by (simp add: Join_Split file_part_def)
  then obtain pre where "p = pre @ file_part p" ..
  then have "take (length p - length (file_part p)) p = pre"
    by (metis append_eq_conv_conj diff_add_inverse2 length_append)
  with \<open>p = pre @ file_part p\<close> show ?thesis by (simp add: PathSplit_def)
qed

subsection \<open>Joining names to a rooted path\<close>

text \<open>The elements that name something, and names that do not climb.\<close>

definition named_elems :: "string \<Rightarrow> string list" where
  "named_elems name = filter (\<lambda>e. e \<noteq> [] \<and> e \<noteq> ''.'') (Split name ''/'')"

definition stays_inside :: "string \<Rightarrow> bool" where
  "stays_inside name \<longleftrightarrow> ''..'' \<notin> set (Split name ''/'')"

lemma foldl_clean_inside:
  "''..'' \<notin> set es \<Longrightarrow> foldl (clean_elem r) st es = rev (filter (\<lambda>e. e \<noteq> [] \<and> e \<noteq> ''.'') es) @ st"
  by (induction es arbitrary: st) (auto simp: clean_elem_def)

lemma IsAbs_append: "IsAbs p \<Longrightarrow> IsAbs (p @ q)"
  by (auto simp: IsAbs_def HasPrefix_iff)

lemma path_elems_append:
  "IsAbs p \<Longrightarrow> path_elems (p @ CHR ''/'' # q) = rev (foldl (clean_elem True) (rev (path_elems p)) (Split q ''/''))"
  by (simp add: path_elems_def clean_elems_def IsAbs_append Split_char_concat)

lemma PathJoin_rooted: "IsAbs root \<Longrightarrow> PathJoin [root, name] = Clean (root @ CHR ''/'' # name)"
  by (cases root) (simp_all add: PathJoin_def IsAbs_def)

lemma IsAbs_PathJoin: "IsAbs root \<Longrightarrow> IsAbs (PathJoin [root, name])"
  by (simp add: PathJoin_rooted IsAbs_Clean IsAbs_append)

lemma path_elems_PathJoin:
  "IsAbs root \<Longrightarrow> path_elems (PathJoin [root, name]) =
     rev (foldl (clean_elem True) (rev (path_elems root)) (Split name ''/''))"
  by (simp add: PathJoin_rooted path_elems_Clean IsAbs_append path_elems_append)

lemma path_elems_inside:
  "IsAbs root \<Longrightarrow> stays_inside name \<Longrightarrow> path_elems (PathJoin [root, name]) = path_elems root @ named_elems name"
  by (simp add: path_elems_PathJoin foldl_clean_inside stays_inside_def named_elems_def)

text \<open>\<open>filepath.Dir\<close> drops the last element of a clean path.\<close>

lemma PathSplit_dir: "fst (PathSplit p) = Join (butlast (Split p ''/'') @ [[]]) ''/''"
proof -
  have Join_snoc: "Join (xs @ [x]) sep = Join (xs @ [[]]) sep @ x" for xs sep and x :: string
    by (induction xs sep rule: Join.induct) simp_all
  have "p = Join (butlast (Split p ''/'') @ [last (Split p ''/'')]) ''/''"
    by (simp only: append_butlast_last_id [OF Split_not_Nil] Join_Split)
  then have "p = Join (butlast (Split p ''/'') @ [[]]) ''/'' @ file_part p"
    by (simp only: Join_snoc [of _ "last (Split p ''/'')"] file_part_def)
  with PathSplit_append [of p] show ?thesis by (metis append_same_eq PathSplit_def snd_conv)
qed

lemma Dir_Clean:
  assumes "IsAbs p"
  shows "path_elems (Dir (Clean p)) = butlast (path_elems p)" and "IsAbs (Dir (Clean p))"
proof -
  let ?es = "path_elems p"
  have ord: "\<forall>e\<in>set ?es. ordinary e" using path_elems_ordinary [OF assms] by blast
  then have noslash: "\<forall>e\<in>set ?es. CHR ''/'' \<notin> set e" by (auto simp: ordinary_def)
  have dir: "fst (PathSplit (Clean p)) = CHR ''/'' # Join (butlast ?es @ [[]]) ''/''"
  proof (cases "?es = []")
    case True
    then show ?thesis by (simp add: Clean_abs [OF assms] PathSplit_dir Split_rooted)
  next
    case False
    have "Split (Clean p) ''/'' = [] # ?es"
      using Split_rooted [OF noslash] False by (simp add: Clean_abs [OF assms])
    then show ?thesis using False by (cases "butlast ?es @ [[]]") (simp_all add: PathSplit_dir)
  qed
  then have abs: "IsAbs (fst (PathSplit (Clean p)))" by (simp add: IsAbs_def)
  then show "IsAbs (Dir (Clean p))" by (simp add: Dir_def IsAbs_Clean)
  have "Split (fst (PathSplit (Clean p))) ''/'' = [] # butlast ?es @ [[]]"
    using noslash unfolding dir by (subst Split_rooted) (auto dest: in_set_butlastD)
  then have "path_elems (fst (PathSplit (Clean p))) = clean_elems True ([] # butlast ?es @ [[]])"
    by (simp only: path_elems_def abs)
  also have "\<dots> = clean_elems True (butlast ?es)" by (simp add: clean_elems_def clean_elem_def)
  also have "\<dots> = butlast ?es" using ord by (intro clean_elems_id) (auto dest: in_set_butlastD)
  finally show "path_elems (Dir (Clean p)) = butlast ?es" using abs by (simp add: Dir_def path_elems_Clean)
qed

lemmas path_eval = PathJoin_def Clean_def IsAbs_def path_elems_def clean_elems_def
  clean_elem_def file_part_def PathSplit_def Dir_def Base_def Ext_def

end
