(* ===== verification/GoOS.thy ===== *)
theory GoOS
  imports GoPath
begin

unbundle bit_operations_syntax

text \<open>
  The effects of the actions.  An action is a Go process that talks to the kernel: it
  issues calls and reacts to the answers.  The kernel, the programs it starts and the
  services it reaches are not part of the repository; they are the parameter
  \<open>kernel\<close>, whose answers may depend on the whole history of calls and about which
  nothing is assumed.  An action maps a kernel and the calls issued so far to its
  result and the longer call list.  Log output and \<open>fmt.Print\<close> are not modelled.
\<close>

subsection \<open>Errors\<close>

text \<open>
  A Go \<open>error\<close>.  \<open>NotExist\<close> and \<open>Exist\<close> are the errors \<open>os.IsNotExist\<close> and
  \<open>os.IsExist\<close> recognise, with their texts; \<open>ExitStatus n\<close> is the \<open>*exec.ExitError\<close> of a
  program that ended with status \<open>n\<close>; \<open>SysErr\<close> is any other error from below.  \<open>Errorf\<close>
  and \<open>Wrapf\<close> are the errors the program makes with \<open>fmt.Errorf\<close>: the format string of
  the source, the arguments, and the error behind \<open>%w\<close>.
\<close>

datatype goerr =
    NotExist string
  | Exist string
  | ExitStatus nat
  | SysErr string
  | EOF
  | UnexpectedEOF
  | Errorf string "string list"
  | Wrapf string "string list" goerr

definition IsNotExist :: "goerr \<Rightarrow> bool" where
  "IsNotExist e = (case e of NotExist _ \<Rightarrow> True | _ \<Rightarrow> False)"

definition IsExist :: "goerr \<Rightarrow> bool" where
  "IsExist e = (case e of Exist _ \<Rightarrow> True | _ \<Rightarrow> False)"

text \<open>The idiom \<open>_, err := os.Stat(p); os.IsNotExist(err)\<close> on the answer of \<open>stat\<close>.\<close>

definition missing :: "goerr + 'a \<Rightarrow> bool" where
  "missing st = (case st of Inl err \<Rightarrow> IsNotExist err | Inr _ \<Rightarrow> False)"

text \<open>
  \<open>fmt.Sprintf\<close> for the verbs the program uses, the arguments already rendered.  For
  \<open>%q\<close> the argument is quoted.
\<close>

fun Sprintf :: "string \<Rightarrow> string list \<Rightarrow> string" where
  "Sprintf [] as = []"
| "Sprintf [c] as = [c]"
| "Sprintf (c # v # f) [] = c # Sprintf (v # f) []"
| "Sprintf (c # v # f) (a # as) =
     (if c = CHR ''%''
      then (if v = CHR ''q'' then Quote a else a) @ Sprintf f as
      else c # Sprintf (v # f) (a # as))"

fun ErrorText :: "goerr \<Rightarrow> string" where
  "ErrorText (NotExist s) = s"
| "ErrorText (Exist s) = s"
| "ErrorText (ExitStatus n) = ''exit status '' @ FormatUint n"
| "ErrorText (SysErr s) = s"
| "ErrorText EOF = ''EOF''"
| "ErrorText UnexpectedEOF = ''unexpected EOF''"
| "ErrorText (Errorf f as) = Sprintf f as"
| "ErrorText (Wrapf f as e) = Sprintf f (as @ [ErrorText e])"

subsection \<open>Values that cross the boundary\<close>

text \<open>The partition tables the program hands to the \<open>go-diskfs\<close> library.\<close>

datatype gpt_type = LinuxSwap | BIOSBoot | EFISystemPartition | LinuxFilesystem

record gpt_partition =
  gpt_Name :: string
  gpt_Start :: "64 word"
  gpt_End :: "64 word"
  gpt_Type :: gpt_type

datatype mbr_type = MbrLinux | MbrFat32LBA | MbrType nat

record mbr_partition =
  mbr_Bootable :: bool
  mbr_Type :: mbr_type
  mbr_Start :: "32 word"
  mbr_Size :: "32 word"

datatype part_table =
    GPT (gpt_protective: bool) (gpt_sector: nat) (gpt_parts: "gpt_partition list")
  | MBR (mbr_sector: nat) (mbr_parts: "mbr_partition list")

text \<open>Flag and mode constants of the packages \<open>syscall\<close> and \<open>os\<close>.\<close>

definition MS_BIND :: "64 word" where "MS_BIND = 4096"
definition MS_RDONLY :: "64 word" where "MS_RDONLY = 1"
definition MNT_FORCE :: "64 word" where "MNT_FORCE = 1"
definition MNT_DETACH :: "64 word" where "MNT_DETACH = 2"
definition ModeDir :: "32 word" where "ModeDir = 0x80000000"
definition S_IFMT :: "32 word" where "S_IFMT = 0xF000"
definition S_IFBLK :: "32 word" where "S_IFBLK = 0x6000"
definition S_IFDIR :: "32 word" where "S_IFDIR = 0x4000"

definition mode_0755 :: "32 word" where "mode_0755 = 0x1ED"
definition mode_0700 :: "32 word" where "mode_0700 = 0x1C0"
definition mode_0644 :: "32 word" where "mode_0644 = 0x1A4"
definition mode_0600 :: "32 word" where "mode_0600 = 0x180"

text \<open>
  An HTTP answer: status code and line, the bytes the body delivers and the error that
  ends it, which is \<open>EOF\<close> for a body read to its end.
\<close>

record http_response =
  StatusCode :: nat
  Status :: string
  Body :: string
  BodyEnd :: goerr

datatype open_flag = O_CREATE | O_TRUNC | O_WRONLY | O_RDONLY

subsection \<open>Calls\<close>

text \<open>
  What an action asks of the world, with the arguments it passes.  Open files are named
  by their path.  \<open>Start\<close> and \<open>Wait\<close> are the two halves of running a program that the
  source tests separately; \<open>Run\<close> is \<open>exec.Cmd.Run\<close>, with the data put on standard
  input, if any.
\<close>

datatype call =
    Stat string
  | ReadFile string
  | WriteFile string string "32 word"
  | Mkdir string "32 word"
  | MkdirAll string "32 word"
  | Rename string string
  | Create string
  | Chown string int int
  | Chmod string "32 word"
  | Link string string
  | Symlink string string
  | Mount string string string "64 word"
  | Unmount string "64 word"
  | Chroot string
  | Chdir string
  | Fchdir string
  | Getwd
  | OpenFile string "open_flag list" "32 word"
  | WriteZeros string nat
  | WriteBytes string string
  | Sync string
  | Close string
  | BlkRRPart string
  | Start string "string list"
  | Wait string "string list"
  | Run string "string list" "string option"
  | HttpGet string
  | DiskOpen string
  | DiskGetTable string
  | DiskPartition string part_table
  | KexecFileLoad string string string
  | Reboot

text \<open>
  The kernel: the environment variables, and its answers after a history of calls.
  \<open>k_err\<close> answers the calls that only succeed or fail; the other fields answer the
  calls that bring a value back: the mode word of \<open>stat\<close>, the contents of a file, the
  working directory, an HTTP answer, the size of a disk.  \<open>k_badurl\<close> is the verdict of
  \<open>http.NewRequest\<close> on a URL.
\<close>

record kernel =
  k_env :: "string \<Rightarrow> string option"
  k_err :: "call list \<Rightarrow> call \<Rightarrow> goerr option"
  k_stat :: "call list \<Rightarrow> string \<Rightarrow> goerr + 32 word"
  k_read :: "call list \<Rightarrow> string \<Rightarrow> goerr + string"
  k_cwd :: "call list \<Rightarrow> goerr + string"
  k_badurl :: "string \<Rightarrow> goerr option"
  k_http :: "call list \<Rightarrow> string \<Rightarrow> goerr + http_response"
  k_disk :: "call list \<Rightarrow> string \<Rightarrow> goerr + 64 word"

subsection \<open>Actions\<close>

text \<open>
  How a piece of the program ends: it returns a value, or the process ends inside it by
  \<open>os.Exit\<close> or \<open>log.Fatal\<close> (status 1), or by a run-time panic.
\<close>

datatype 'a res = Ret 'a | Exit nat | Panic string

type_synonym 'a act = "kernel \<Rightarrow> call list \<Rightarrow> 'a res \<times> call list"

definition ret :: "'a \<Rightarrow> 'a act" where
  "ret x = (\<lambda>k t. (Ret x, t))"

definition bind :: "'a act \<Rightarrow> ('a \<Rightarrow> 'b act) \<Rightarrow> 'b act" where
  "bind m f = (\<lambda>k t. case m k t of
       (Ret x, t') \<Rightarrow> f x k t'
     | (Exit n, t') \<Rightarrow> (Exit n, t')
     | (Panic p, t') \<Rightarrow> (Panic p, t'))"

definition os_exit :: "nat \<Rightarrow> 'a act" where
  "os_exit n = (\<lambda>k t. (Exit n, t))"

definition log_fatal :: "'a act" where
  "log_fatal = os_exit 1"

definition panic :: "string \<Rightarrow> 'a act" where
  "panic p = (\<lambda>k t. (Panic p, t))"

definition sys :: "call \<Rightarrow> goerr option act" where
  "sys c = (\<lambda>k t. (Ret (k_err k t c), t @ [c]))"

definition sys_stat :: "string \<Rightarrow> (goerr + 32 word) act" where
  "sys_stat p = (\<lambda>k t. (Ret (k_stat k t p), t @ [Stat p]))"

definition sys_read :: "string \<Rightarrow> (goerr + string) act" where
  "sys_read p = (\<lambda>k t. (Ret (k_read k t p), t @ [ReadFile p]))"

definition sys_getwd :: "(goerr + string) act" where
  "sys_getwd = (\<lambda>k t. (Ret (k_cwd k t), t @ [Getwd]))"

definition new_request :: "string \<Rightarrow> goerr option act" where
  "new_request url = (\<lambda>k t. (Ret (k_badurl k url), t))"

definition sys_http :: "string \<Rightarrow> (goerr + http_response) act" where
  "sys_http url = (\<lambda>k t. (Ret (k_http k t url), t @ [HttpGet url]))"

definition sys_disk :: "string \<Rightarrow> (goerr + 64 word) act" where
  "sys_disk dev = (\<lambda>k t. (Ret (k_disk k t dev), t @ [DiskOpen dev]))"

text \<open>\<open>os.LookupEnv\<close> and \<open>os.Getenv\<close>: an unset variable reads as the empty string.\<close>

definition lookup_env :: "string \<Rightarrow> string option act" where
  "lookup_env v = (\<lambda>k t. (Ret (k_env k v), t))"

definition getenv :: "string \<Rightarrow> string act" where
  "getenv v = (\<lambda>k t. (Ret (case k_env k v of None \<Rightarrow> [] | Some s \<Rightarrow> s), t))"

text \<open>
  \<open>check m wrap c\<close> is the idiom \<open>if err := m; err != nil { return wrap(err) }\<close> followed
  by \<open>c\<close>; \<open>ignore\<close> drops the error, as \<open>_ = m\<close> or a mere log line does;
  \<open>must m\<close> ends the process on an error.
\<close>

definition check :: "goerr option act \<Rightarrow> (goerr \<Rightarrow> goerr) \<Rightarrow> goerr option act \<Rightarrow> goerr option act" where
  "check m wrap c = bind m (\<lambda>e. case e of Some err \<Rightarrow> ret (Some (wrap err)) | None \<Rightarrow> c)"

definition ignore :: "goerr option act \<Rightarrow> unit act" where
  "ignore m = bind m (\<lambda>_. ret ())"

definition must_ok :: "goerr option act \<Rightarrow> unit act" where
  "must_ok m = bind m (\<lambda>e. case e of Some err \<Rightarrow> log_fatal | None \<Rightarrow> ret ())"

definition andThen :: "unit act \<Rightarrow> 'a act \<Rightarrow> 'a act" where
  "andThen m c = bind m (\<lambda>_. c)"

text \<open>Loops over a slice: \<open>for_each\<close> runs through, \<open>for_err\<close> returns the first error.\<close>

fun for_each :: "'a list \<Rightarrow> ('a \<Rightarrow> unit act) \<Rightarrow> unit act" where
  "for_each [] f = ret ()"
| "for_each (x # xs) f = andThen (f x) (for_each xs f)"

fun for_err :: "'a list \<Rightarrow> ('a \<Rightarrow> goerr option act) \<Rightarrow> goerr option act" where
  "for_err [] f = ret None"
| "for_err (x # xs) f = check (f x) (\<lambda>e. e) (for_err xs f)"

text \<open>A validation loop: the first error found in a slice.\<close>

fun first_err :: "('a \<Rightarrow> goerr option) \<Rightarrow> 'a list \<Rightarrow> goerr option" where
  "first_err f [] = None"
| "first_err f (x # xs) = (case f x of Some err \<Rightarrow> Some err | None \<Rightarrow> first_err f xs)"

lemma first_err_None: "first_err f xs = None \<longleftrightarrow> (\<forall>x\<in>set xs. f x = None)"
  by (induction xs) (auto split: option.splits)

text \<open>
  \<open>with_defer d m\<close> is \<open>defer d()\<close> before the rest \<open>m\<close> of a function: \<open>d\<close> runs when \<open>m\<close>
  returns or panics, and does not run when the process exits in \<open>m\<close>.
\<close>

definition with_defer :: "unit act \<Rightarrow> 'a act \<Rightarrow> 'a act" where
  "with_defer d m = (\<lambda>k t. case m k t of
       (Exit n, t') \<Rightarrow> (Exit n, t')
     | (r, t') \<Rightarrow> (case d k t' of
           (Ret _, t'') \<Rightarrow> (r, t'')
         | (Exit n, t'') \<Rightarrow> (Exit n, t'')
         | (Panic p, t'') \<Rightarrow> (Panic p, t'')))"

lemmas act_defs = ret_def bind_def os_exit_def log_fatal_def panic_def sys_def sys_stat_def
  sys_read_def sys_getwd_def new_request_def sys_http_def sys_disk_def lookup_env_def getenv_def check_def
  ignore_def must_ok_def andThen_def with_defer_def

lemma ret_apply: "ret x k t = (Ret x, t)"
  by (simp add: ret_def)

lemma bind_ret [simp]: "bind (ret x) f = f x"
  by (simp add: ret_def bind_def)

lemma bind_assoc: "bind (bind m f) g = bind m (\<lambda>x. bind (f x) g)"
  by (auto simp: bind_def fun_eq_iff split: prod.splits res.splits)

end
