(* ===== verification/Actions.thy ===== *)
theory Actions
  imports GoOS
begin

text \<open>
  The reasoning library for actions.  \<open>emits P m\<close>: whatever the kernel answers, \<open>m\<close> only
  appends calls that satisfy \<open>P\<close> to the history.  \<open>phases Ps m\<close>: these calls come in
  consecutive blocks, one for each predicate of the list.  \<open>returns m\<close>: \<open>m\<close> neither
  exits nor panics.  Two contracts are shared by many operations of the program and are
  stated as locales: \<open>fail_fast\<close>, a fixed list of calls that stops at the first error,
  and \<open>best_effort\<close>, a fixed list of calls that is always issued in full.
\<close>

subsection \<open>Which calls an action issues\<close>

definition emits :: "(call \<Rightarrow> bool) \<Rightarrow> 'a act \<Rightarrow> bool" where
  "emits P m \<longleftrightarrow> (\<forall>k t. \<exists>ext. snd (m k t) = t @ ext \<and> (\<forall>c\<in>set ext. P c))"

lemma emitsI: "(\<And>k t. \<exists>ext. snd (m k t) = t @ ext \<and> (\<forall>c\<in>set ext. P c)) \<Longrightarrow> emits P m"
  by (simp add: emits_def)

lemma emitsE:
  assumes "emits P m"
  obtains ext where "snd (m k t) = t @ ext" and "\<forall>c\<in>set ext. P c"
  using assms unfolding emits_def by blast

lemma emits_weaken: "emits P m \<Longrightarrow> (\<And>c. P c \<Longrightarrow> Q c) \<Longrightarrow> emits Q m"
  by (fastforce simp: emits_def)

lemma emits_ret [emits_intros]: "emits P (ret x)"
  by (simp add: emits_def ret_def)

lemma emits_exit [emits_intros]: "emits P (os_exit n)"
  by (simp add: emits_def os_exit_def)

lemma emits_fatal [emits_intros]: "emits P log_fatal"
  by (simp add: log_fatal_def emits_exit)

lemma emits_panic [emits_intros]: "emits P (panic p)"
  by (simp add: emits_def panic_def)

lemma emits_getenv [emits_intros]: "emits P (getenv v)"
  by (simp add: emits_def getenv_def)

lemma emits_lookup_env [emits_intros]: "emits P (lookup_env v)"
  by (simp add: emits_def lookup_env_def)

lemma emits_new_request [emits_intros]: "emits P (new_request u)"
  by (simp add: emits_def new_request_def)

lemma emits_sys [emits_intros]: "P c \<Longrightarrow> emits P (sys c)"
  by (simp add: emits_def sys_def)

lemma emits_stat [emits_intros]: "P (Stat p) \<Longrightarrow> emits P (sys_stat p)"
  by (simp add: emits_def sys_stat_def)

lemma emits_read [emits_intros]: "P (ReadFile p) \<Longrightarrow> emits P (sys_read p)"
  by (simp add: emits_def sys_read_def)

lemma emits_getwd [emits_intros]: "P Getwd \<Longrightarrow> emits P sys_getwd"
  by (simp add: emits_def sys_getwd_def)

lemma emits_http [emits_intros]: "P (HttpGet u) \<Longrightarrow> emits P (sys_http u)"
  by (simp add: emits_def sys_http_def)

lemma emits_disk [emits_intros]: "P (DiskOpen d) \<Longrightarrow> emits P (sys_disk d)"
  by (simp add: emits_def sys_disk_def)

lemma emits_bind [emits_intros]:
  assumes "emits P m" and "\<And>x. emits P (f x)"
  shows "emits P (bind m f)"
proof (rule emitsI)
  fix k t
  from assms(1) obtain e1 where e1: "snd (m k t) = t @ e1" "\<forall>c\<in>set e1. P c" by (rule emitsE)
  show "\<exists>ext. snd (bind m f k t) = t @ ext \<and> (\<forall>c\<in>set ext. P c)"
  proof (cases "fst (m k t)")
    case (Ret x)
    from assms(2) obtain e2 where e2: "snd (f x k (t @ e1)) = (t @ e1) @ e2" "\<forall>c\<in>set e2. P c"
      by (rule emitsE)
    from Ret e1 have "bind m f k t = f x k (t @ e1)"
      by (auto simp: bind_def split: prod.splits)
    with e1 e2 show ?thesis by (intro exI [of _ "e1 @ e2"]) auto
  qed (use e1 in \<open>auto simp: bind_def split: prod.splits\<close>)
qed

lemma emits_check [emits_intros]:
  "emits P m \<Longrightarrow> emits P c \<Longrightarrow> emits P (check m w c)"
  unfolding check_def by (intro emits_bind) (auto intro: emits_ret split: option.splits)

lemma emits_ignore [emits_intros]: "emits P m \<Longrightarrow> emits P (ignore m)"
  unfolding ignore_def by (intro emits_bind emits_ret)

lemma emits_must_ok [emits_intros]: "emits P m \<Longrightarrow> emits P (must_ok m)"
  unfolding must_ok_def
  by (intro emits_bind) (auto intro: emits_ret emits_fatal split: option.splits)

lemma emits_andThen [emits_intros]: "emits P m \<Longrightarrow> emits P c \<Longrightarrow> emits P (andThen m c)"
  unfolding andThen_def by (intro emits_bind)

lemma emits_if [emits_intros]: "emits P m \<Longrightarrow> emits P n \<Longrightarrow> emits P (if b then m else n)"
  by simp

lemma emits_case_option [emits_intros]:
  "emits P m \<Longrightarrow> (\<And>x. emits P (f x)) \<Longrightarrow> emits P (case v of None \<Rightarrow> m | Some x \<Rightarrow> f x)"
  by (cases v) auto

lemma emits_case_sum [emits_intros]:
  "(\<And>x. emits P (f x)) \<Longrightarrow> (\<And>y. emits P (g y)) \<Longrightarrow> emits P (case v of Inl x \<Rightarrow> f x | Inr y \<Rightarrow> g y)"
  by (cases v) auto

lemma emits_for_each [emits_intros]:
  "(\<And>x. x \<in> set xs \<Longrightarrow> emits P (f x)) \<Longrightarrow> emits P (for_each xs f)"
  by (induction xs) (auto intro!: emits_intros)

lemma emits_for_err [emits_intros]:
  "(\<And>x. x \<in> set xs \<Longrightarrow> emits P (f x)) \<Longrightarrow> emits P (for_err xs f)"
  by (induction xs) (auto intro!: emits_intros)

lemma emits_with_defer [emits_intros]:
  assumes "emits P d" and "emits P m"
  shows "emits P (with_defer d m)"
proof (rule emitsI)
  fix k t
  from assms(2) obtain e1 where e1: "snd (m k t) = t @ e1" "\<forall>c\<in>set e1. P c" by (rule emitsE)
  from assms(1) obtain e2 where e2: "snd (d k (t @ e1)) = (t @ e1) @ e2" "\<forall>c\<in>set e2. P c"
    by (rule emitsE)
  have "snd (with_defer d m k t) = t @ e1 \<or> snd (with_defer d m k t) = (t @ e1) @ e2"
    using e1(1) e2(1) by (auto simp: with_defer_def split: prod.splits res.splits)
  then show "\<exists>ext. snd (with_defer d m k t) = t @ ext \<and> (\<forall>c\<in>set ext. P c)"
  proof
    assume "snd (with_defer d m k t) = t @ e1"
    with e1(2) show ?thesis by blast
  next
    assume "snd (with_defer d m k t) = (t @ e1) @ e2"
    with e1(2) e2(2) show ?thesis by (intro exI [of _ "e1 @ e2"]) auto
  qed
qed

subsection \<open>Blocks of calls in order\<close>

definition block_of :: "(call \<Rightarrow> bool) \<Rightarrow> call list \<Rightarrow> bool" where
  "block_of P e \<longleftrightarrow> (\<forall>c\<in>set e. P c)"

definition phases :: "(call \<Rightarrow> bool) list \<Rightarrow> 'a act \<Rightarrow> bool" where
  "phases Ps m \<longleftrightarrow> (\<forall>k t. \<exists>es. snd (m k t) = t @ concat es \<and> list_all2 block_of Ps es)"

lemma phases_emits: "emits P m \<Longrightarrow> phases [P] m"
  unfolding phases_def
proof (intro allI)
  fix k t
  assume "emits P m"
  then obtain ext where "snd (m k t) = t @ ext" "\<forall>c\<in>set ext. P c" by (rule emitsE)
  then show "\<exists>es. snd (m k t) = t @ concat es \<and> list_all2 block_of [P] es"
    by (intro exI [of _ "[ext]"]) (simp add: block_of_def)
qed

lemma block_of_empties: "list_all2 block_of Ps (replicate (length Ps) [])"
  by (induction Ps) (auto simp: block_of_def)

lemma phases_bind:
  assumes "phases Ps m" and "\<And>x. phases Qs (f x)"
  shows "phases (Ps @ Qs) (bind m f)"
  unfolding phases_def
proof (intro allI)
  fix k t
  from assms(1) obtain es where es: "snd (m k t) = t @ concat es" "list_all2 block_of Ps es"
    by (auto simp: phases_def)
  have stop: "list_all2 block_of (Ps @ Qs) (es @ replicate (length Qs) [])"
    by (rule list_all2_appendI [OF es(2) block_of_empties])
  show "\<exists>es. snd (bind m f k t) = t @ concat es \<and> list_all2 block_of (Ps @ Qs) es"
  proof (cases "fst (m k t)")
    case (Ret x)
    from assms(2) obtain fs where fs: "snd (f x k (t @ concat es)) = (t @ concat es) @ concat fs"
        "list_all2 block_of Qs fs"
      unfolding phases_def by blast
    from Ret es have "bind m f k t = f x k (t @ concat es)"
      by (auto simp: bind_def split: prod.splits)
    with fs es(2) show ?thesis
      by (intro exI [of _ "es @ fs"]) (auto intro: list_all2_appendI)
  qed (use es stop in \<open>auto simp: bind_def split: prod.splits
          intro!: exI [of _ "es @ replicate (length Qs) []"]\<close>)
qed

lemma phases_andThen:
  "phases Ps m \<Longrightarrow> phases Qs c \<Longrightarrow> phases (Ps @ Qs) (andThen m c)"
  unfolding andThen_def by (rule phases_bind)

lemma phases_emits_andThen: "emits P m \<Longrightarrow> phases Qs c \<Longrightarrow> phases (P # Qs) (andThen m c)"
  using phases_andThen [OF phases_emits] by fastforce

lemma phases_emits_bind: "emits P m \<Longrightarrow> (\<And>x. phases Qs (f x)) \<Longrightarrow> phases (P # Qs) (bind m f)"
  using phases_bind [OF phases_emits] by fastforce

lemma phases_getenv: "(\<And>x. phases Ps (f x)) \<Longrightarrow> phases Ps (bind (getenv v) f)"
  by (simp add: phases_def bind_def getenv_def)

text \<open>The first block may be spread over several parts; a deferred part is a block at the end.\<close>

lemma phases_merge_bind:
  assumes "emits P m" and "\<And>x. phases (P # Ps) (f x)"
  shows "phases (P # Ps) (bind m f)"
  unfolding phases_def
proof (intro allI)
  fix k t
  have "phases ([P] @ P # Ps) (bind m f)" by (rule phases_bind [OF phases_emits [OF assms(1)] assms(2)])
  then obtain e1 e2 es where "snd (bind m f k t) = t @ e1 @ e2 @ concat es" "block_of P e1" "block_of P e2"
      "list_all2 block_of Ps es"
    by (auto simp: phases_def list_all2_Cons1 dest!: spec [of _ k] spec [of _ t])
  then show "\<exists>es. snd (bind m f k t) = t @ concat es \<and> list_all2 block_of (P # Ps) es"
    by (intro exI [of _ "(e1 @ e2) # es"]) (auto simp: block_of_def)
qed

lemma phases_merge: "emits P m \<Longrightarrow> phases (P # Ps) c \<Longrightarrow> phases (P # Ps) (andThen m c)"
  unfolding andThen_def by (rule phases_merge_bind)

lemma phases_with_defer:
  assumes "phases Ps m" and "emits Q d"
  shows "phases (Ps @ [Q]) (with_defer d m)"
  unfolding phases_def
proof (intro allI)
  fix k t
  from assms(1) obtain es where es: "snd (m k t) = t @ concat es" "list_all2 block_of Ps es"
    unfolding phases_def by blast
  from assms(2) obtain e where e: "snd (d k (t @ concat es)) = (t @ concat es) @ e" "\<forall>c\<in>set e. Q c" by (rule emitsE)
  have "snd (with_defer d m k t) = t @ concat es \<or> snd (with_defer d m k t) = t @ concat es @ e"
    using es(1) e(1) by (auto simp: with_defer_def split: prod.splits res.splits)
  then show "\<exists>es. snd (with_defer d m k t) = t @ concat es \<and> list_all2 block_of (Ps @ [Q]) es"
  proof
    assume "snd (with_defer d m k t) = t @ concat es"
    with es(2) show ?thesis
      by (intro exI [of _ "es @ [[]]"]) (auto intro!: list_all2_appendI simp: block_of_def)
  next
    assume "snd (with_defer d m k t) = t @ concat es @ e"
    with es(2) e(2) show ?thesis
      by (intro exI [of _ "es @ [e]"]) (auto intro!: list_all2_appendI simp: block_of_def)
  qed
qed

lemma phases_exit: "phases Ps (os_exit n)"
  using block_of_empties [of Ps]
  unfolding phases_def os_exit_def by (auto intro!: exI [of _ "replicate (length Ps) []"])

lemma phases_ret: "phases Ps (ret x)"
  using block_of_empties [of Ps]
  unfolding phases_def ret_def by (auto intro!: exI [of _ "replicate (length Ps) []"])

lemma phases_fatal: "phases Ps log_fatal"
  by (simp add: log_fatal_def phases_exit)

text \<open>In a phased history no call of a later phase comes before one of an earlier phase.\<close>

lemma phases_order:
  assumes "phases [P, Q] m" and "snd (m k []) = us @ a # vs @ b # ws"
    and "\<not> P b" and "\<not> Q a"
  shows "P a \<and> Q b"
proof -
  from assms(1) obtain e1 e2 where "snd (m k []) = e1 @ e2"
      and b: "\<forall>c\<in>set e1. P c" "\<forall>c\<in>set e2. Q c"
    by (auto simp: phases_def block_of_def list_all2_Cons1 dest!: spec [of _ k] spec [of _ "[]"])
  with assms(2) have "a \<in> set e1 \<union> set e2" "b \<in> set e1 \<union> set e2"
    by (metis Un_iff in_set_conv_decomp set_append append.assoc append_Cons)+
  with b assms(3,4) show ?thesis by auto
qed

subsection \<open>Actions that return\<close>

definition returns :: "'a act \<Rightarrow> bool" where
  "returns m \<longleftrightarrow> (\<forall>k t. \<exists>x. fst (m k t) = Ret x)"

lemma returnsD: "returns m \<Longrightarrow> \<exists>x t'. m k t = (Ret x, t')"
  by (metis returns_def prod.collapse)

named_theorems returns_intros \<open>rules that show that an action returns\<close>

lemma returns_basic [returns_intros]:
  "returns (ret x)" "returns (sys c)" "returns (sys_stat p)" "returns (sys_read p)"
  "returns sys_getwd" "returns (sys_http u)" "returns (sys_disk d)" "returns (getenv v)"
  "returns (lookup_env v)" "returns (new_request u)"
  by (simp_all add: returns_def act_defs)

lemma returns_bind [returns_intros]:
  assumes "returns m" and "\<And>x. returns (f x)"
  shows "returns (bind m f)"
  unfolding returns_def
proof (intro allI)
  fix k t
  from assms(1) obtain x t' where "m k t = (Ret x, t')" by (blast dest: returnsD)
  then show "\<exists>y. fst (bind m f k t) = Ret y"
    using assms(2) [of x] by (simp add: bind_def returns_def)
qed

lemma returns_check [returns_intros]: "returns m \<Longrightarrow> returns c \<Longrightarrow> returns (check m w c)"
  unfolding check_def by (intro returns_bind) (auto intro: returns_intros split: option.splits)

lemma returns_ignore [returns_intros]: "returns m \<Longrightarrow> returns (ignore m)"
  unfolding ignore_def by (intro returns_intros)

lemma returns_andThen [returns_intros]: "returns m \<Longrightarrow> returns c \<Longrightarrow> returns (andThen m c)"
  unfolding andThen_def by (intro returns_intros)

lemma returns_if [returns_intros]: "returns m \<Longrightarrow> returns n \<Longrightarrow> returns (if b then m else n)"
  by simp

lemma returns_case_option [returns_intros]:
  "returns m \<Longrightarrow> (\<And>x. returns (f x)) \<Longrightarrow> returns (case v of None \<Rightarrow> m | Some x \<Rightarrow> f x)"
  by (cases v) auto

lemma returns_case_sum [returns_intros]:
  "(\<And>x. returns (f x)) \<Longrightarrow> (\<And>y. returns (g y)) \<Longrightarrow> returns (case v of Inl x \<Rightarrow> f x | Inr y \<Rightarrow> g y)"
  by (cases v) auto

lemma returns_for_each [returns_intros]:
  "(\<And>x. x \<in> set xs \<Longrightarrow> returns (f x)) \<Longrightarrow> returns (for_each xs f)"
  by (induction xs) (auto intro!: returns_intros)

lemma returns_for_err [returns_intros]:
  "(\<And>x. x \<in> set xs \<Longrightarrow> returns (f x)) \<Longrightarrow> returns (for_err xs f)"
  by (induction xs) (auto intro!: returns_intros)

lemma returns_with_defer [returns_intros]:
  assumes "returns d" and "returns m"
  shows "returns (with_defer d m)"
  unfolding returns_def
proof (intro allI)
  fix k t
  from assms(2) obtain x t' where m: "m k t = (Ret x, t')" by (blast dest: returnsD)
  from assms(1) obtain y t'' where "d k t' = (Ret y, t'')" by (blast dest: returnsD)
  with m show "\<exists>z. fst (with_defer d m k t) = Ret z" by (simp add: with_defer_def)
qed

text \<open>Running the parts of an action whose runs are known.\<close>

lemma with_defer_run: "m k t = (Ret x, t1) \<Longrightarrow> d k t1 = (Ret y, t2) \<Longrightarrow> with_defer d m k t = (Ret x, t2)"
  by (simp add: with_defer_def)

lemma check_run: "m k t = (Ret None, t1) \<Longrightarrow> check m w c k t = c k t1"
  by (simp add: check_def bind_def)

lemma ignore_run: "m k t = (Ret x, t1) \<Longrightarrow> ignore m k t = (Ret (), t1)"
  by (simp add: ignore_def bind_def ret_def)

lemma bind_run: "m k t = (Ret x, t1) \<Longrightarrow> bind m f k t = f x k t1"
  by (simp add: bind_def)

lemma ignore_sys: "ignore (sys c) k t = (Ret (), t @ [c])"
  by (simp add: ignore_def bind_def sys_def ret_def)

lemma sys_bind: "bind (sys c) f k t = f (k_err k t c) k (t @ [c])"
  by (simp add: bind_def sys_def)

lemma ignore_step: "andThen (ignore (sys c)) m k t = m k (t @ [c])"
  by (simp add: andThen_def bind_def ignore_sys)

lemma check_step:
  "check (sys c) w m k t = (case k_err k t c of Some err \<Rightarrow> (Ret (Some (w err)), t @ [c]) | None \<Rightarrow> m k (t @ [c]))"
  by (simp add: check_def bind_def sys_def ret_def split: option.split)

lemma sys_run: "k_err k t c = None \<Longrightarrow> sys c k t = (Ret None, t @ [c])"
  by (simp add: sys_def)

lemma returns_emitsE:
  assumes "returns m" and "emits P m"
  obtains x ext where "m k t = (Ret x, t @ ext)" and "\<forall>c\<in>set ext. P c"
proof -
  from assms(1) obtain x t' where m: "m k t = (Ret x, t')" by (blast dest: returnsD)
  from assms(2) obtain ext where "snd (m k t) = t @ ext" "\<forall>c\<in>set ext. P c" by (rule emitsE)
  with m that show thesis by simp
qed

text \<open>A deferred call is the last call of a function that returns.\<close>

lemma with_defer_last:
  assumes "returns m" and "emits (\<lambda>_. True) m"
  shows "\<exists>x mid. m k t = (Ret x, t @ mid) \<and> with_defer (ignore (sys c)) m k t = (Ret x, t @ mid @ [c])"
proof -
  from assms(1) obtain x t' where m: "m k t = (Ret x, t')" by (blast dest: returnsD)
  from assms(2) obtain ext where "snd (m k t) = t @ ext" by (rule emitsE)
  with m show ?thesis by (simp add: with_defer_def ignore_def bind_def sys_def ret_def)
qed

text \<open>\<open>panics_if R m\<close>: \<open>m\<close> never exits the process, and panics only under a kernel with \<open>R\<close>.\<close>

definition panics_if :: "(kernel \<Rightarrow> bool) \<Rightarrow> 'a act \<Rightarrow> bool" where
  "panics_if R m \<longleftrightarrow> (\<forall>k t. case fst (m k t) of Ret x \<Rightarrow> True | Exit n \<Rightarrow> False | Panic p \<Rightarrow> R k)"

lemma panics_returns: "returns m \<Longrightarrow> panics_if R m"
  unfolding panics_if_def
proof (intro allI)
  fix k t
  assume "returns m"
  then obtain x where "fst (m k t) = Ret x" unfolding returns_def by blast
  then show "case fst (m k t) of Ret x \<Rightarrow> True | Exit n \<Rightarrow> False | Panic p \<Rightarrow> R k" by simp
qed

lemma panics_bind:
  assumes "panics_if R m" and "\<And>x. panics_if R (f x)"
  shows "panics_if R (bind m f)"
  unfolding panics_if_def
proof (intro allI)
  fix k t
  obtain r t1 where mt: "m k t = (r, t1)" by (cases "m k t")
  have 1: "case fst (m k t) of Ret x \<Rightarrow> True | Exit n \<Rightarrow> False | Panic p \<Rightarrow> R k"
    using assms(1) unfolding panics_if_def by blast
  have 2: "case fst (f x k t1) of Ret x \<Rightarrow> True | Exit n \<Rightarrow> False | Panic p \<Rightarrow> R k" for x
    using assms(2) unfolding panics_if_def by blast
  show "case fst (bind m f k t) of Ret x \<Rightarrow> True | Exit n \<Rightarrow> False | Panic p \<Rightarrow> R k"
    using 1 2 mt by (cases r) (simp_all add: bind_def)
qed

lemma panics_andThen: "panics_if R m \<Longrightarrow> panics_if R c \<Longrightarrow> panics_if R (andThen m c)"
  unfolding andThen_def by (rule panics_bind)

lemma panics_ignore: "panics_if R m \<Longrightarrow> panics_if R (ignore m)"
  unfolding ignore_def by (rule panics_bind) (auto intro: panics_returns returns_intros)

lemma panics_for_each: "(\<And>x. x \<in> set xs \<Longrightarrow> panics_if R (f x)) \<Longrightarrow> panics_if R (for_each xs f)"
  by (induction xs) (auto intro: panics_andThen panics_returns returns_intros)

subsection \<open>Calls an action is sure to make\<close>

text \<open>
  \<open>tries C m\<close>: whenever \<open>m\<close> returns, all calls of \<open>C\<close> have been made, whatever the
  kernel answered to them and to the others.
\<close>

definition tries :: "call set \<Rightarrow> 'a act \<Rightarrow> bool" where
  "tries C m \<longleftrightarrow> (\<forall>k t x. fst (m k t) = Ret x \<longrightarrow> (\<exists>ext. snd (m k t) = t @ ext \<and> C \<subseteq> set ext))"

lemma triesD: "tries C m \<Longrightarrow> fst (m k t) = Ret x \<Longrightarrow> C \<subseteq> set (snd (m k t))"
  unfolding tries_def by (metis le_supI2 set_append)

definition grows :: "'a act \<Rightarrow> bool" where
  "grows m \<longleftrightarrow> emits (\<lambda>_. True) m"

lemma growsI: "emits P m \<Longrightarrow> grows m"
  unfolding grows_def by (erule emits_weaken) simp

lemma grows_ignore: "grows m \<Longrightarrow> grows (ignore m)"
  unfolding grows_def by (rule emits_ignore)

lemma tries_empty: "grows m \<Longrightarrow> tries {} m"
  by (auto simp: tries_def grows_def emits_def)

lemma tries_sys: "tries {c} (sys c)" "tries {Stat p} (sys_stat p)" "tries {DiskOpen p} (sys_disk p)"
  by (auto simp: tries_def act_defs)

lemma tries_bind:
  assumes m: "tries C m" and f: "\<And>x. tries D (f x)"
  shows "tries (C \<union> D) (bind m f)"
  unfolding tries_def
proof (intro allI impI)
  fix k t y
  assume y: "fst (bind m f k t) = Ret y"
  obtain r t1 where mt: "m k t = (r, t1)" by (cases "m k t")
  with y obtain x where x: "r = Ret x" by (cases r) (auto simp: bind_def)
  then have "fst (m k t) = Ret x" using mt by simp
  with m obtain e1 where "snd (m k t) = t @ e1" and C: "C \<subseteq> set e1" unfolding tries_def by blast
  then have e1: "t1 = t @ e1" using mt by simp
  from y mt x have "fst (f x k t1) = Ret y" by (simp add: bind_def)
  with f obtain e2 where e2: "snd (f x k t1) = t1 @ e2" "D \<subseteq> set e2" unfolding tries_def by blast
  show "\<exists>ext. snd (bind m f k t) = t @ ext \<and> C \<union> D \<subseteq> set ext"
    using mt x e1 C e2 by (intro exI [of _ "e1 @ e2"]) (auto simp: bind_def)
qed

lemma tries_bind_left: "tries C m \<Longrightarrow> (\<And>x. grows (f x)) \<Longrightarrow> tries C (bind m f)"
  using tries_bind [of C m "{}" f] by (simp add: tries_empty)

lemma tries_bind_right: "grows m \<Longrightarrow> (\<And>x. tries C (f x)) \<Longrightarrow> tries C (bind m f)"
  using tries_bind [of "{}" m C f] by (simp add: tries_empty)

lemma tries_ignore: "tries C m \<Longrightarrow> tries C (ignore m)"
  unfolding ignore_def by (rule tries_bind_left) (auto simp: grows_def intro: emits_ret)

lemma tries_check: "tries C m \<Longrightarrow> grows c \<Longrightarrow> tries C (check m w c)"
  unfolding check_def
  by (rule tries_bind_left) (auto simp: grows_def intro: emits_ret split: option.splits)

lemma tries_andThen: "tries C m \<Longrightarrow> tries D c \<Longrightarrow> tries (C \<union> D) (andThen m c)"
  unfolding andThen_def by (rule tries_bind)

lemma tries_for_each:
  "(\<And>x. x \<in> set xs \<Longrightarrow> tries (C x) (f x)) \<Longrightarrow> tries (\<Union>x\<in>set xs. C x) (for_each xs f)"
proof (induction xs)
  case Nil
  then show ?case by (simp add: tries_empty grows_def emits_ret)
next
  case (Cons x xs)
  then show ?case by (simp add: tries_andThen)
qed

subsection \<open>Fail-fast sequences of calls\<close>

text \<open>
  A step is a call together with the wrapping its error gets.  \<open>script\<close> runs steps in
  order and stops at the first error; \<open>all_ok\<close> says that the kernel lets every call of a
  list succeed when they are issued in this order.
\<close>

type_synonym step = "call \<times> (goerr \<Rightarrow> goerr)"

fun script :: "step list \<Rightarrow> goerr option act" where
  "script [] = ret None"
| "script (s # ss) = check (sys (fst s)) (snd s) (script ss)"

fun all_ok :: "kernel \<Rightarrow> call list \<Rightarrow> call list \<Rightarrow> bool" where
  "all_ok k t [] = True"
| "all_ok k t (c # cs) = (k_err k t c = None \<and> all_ok k (t @ [c]) cs)"

lemma all_ok_append: "all_ok k t (as @ bs) \<longleftrightarrow> all_ok k t as \<and> all_ok k (t @ as) bs"
  by (induction as arbitrary: t) simp_all

lemma all_ok_take: "all_ok k t cs \<Longrightarrow> all_ok k t (take n cs)"
  by (metis all_ok_append append_take_drop_id)

lemma check_ret_None [simp]: "check (ret None) w c = c"
  by (simp add: check_def)

lemma check_id [simp]: "check m (\<lambda>e. e) (ret None) = m"
  by (auto simp: act_defs fun_eq_iff split: prod.splits res.splits option.splits)

lemma check_assoc: "check (check m w c) (\<lambda>e. e) d = check m w (check c (\<lambda>e. e) d)"
  by (auto simp: act_defs fun_eq_iff split: prod.splits res.splits option.splits)

lemma script_append: "script (as @ bs) = check (script as) (\<lambda>e. e) (script bs)"
  by (induction as) (simp_all add: check_assoc)

lemma script_concat: "for_err xs (\<lambda>x. script (f x)) = script (concat (map f xs))"
  by (induction xs) (simp_all add: script_append)

lemma script_ok: "all_ok k t (map fst ss) \<Longrightarrow> script ss k t = (Ret None, t @ map fst ss)"
  by (induction ss arbitrary: t) (auto simp: act_defs)

lemma script_fail:
  "\<not> all_ok k t (map fst ss) \<Longrightarrow>
   \<exists>n e. n < length ss \<and> all_ok k t (take n (map fst ss))
     \<and> k_err k (t @ take n (map fst ss)) (fst (ss ! n)) = Some e
     \<and> script ss k t = (Ret (Some (snd (ss ! n) e)), t @ take (Suc n) (map fst ss))"
proof (induction ss arbitrary: t)
  case Nil
  then show ?case by simp
next
  case (Cons s ss)
  show ?case
  proof (cases "k_err k t (fst s)")
    case None
    with Cons.prems have "\<not> all_ok k (t @ [fst s]) (map fst ss)" by simp
    from Cons.IH [OF this] obtain n e where n: "n < length ss"
      "all_ok k (t @ [fst s]) (take n (map fst ss))"
      "k_err k ((t @ [fst s]) @ take n (map fst ss)) (fst (ss ! n)) = Some e"
      "script ss k (t @ [fst s]) = (Ret (Some (snd (ss ! n) e)),
         (t @ [fst s]) @ take (Suc n) (map fst ss))" by blast
    then show ?thesis using None
      by (intro exI [of _ "Suc n"] exI [of _ e]) (simp add: act_defs)
  next
    case (Some e)
    then show ?thesis
      by (intro exI [of _ 0] exI [of _ e]) (simp add: act_defs)
  qed
qed

locale fail_fast =
  fixes oper :: "'a \<Rightarrow> goerr option act" and plan :: "'a \<Rightarrow> step list"
  assumes oper_script: "oper x = script (plan x)"
begin

lemma success_iff: "fst (oper x k t) = Ret None \<longleftrightarrow> all_ok k t (map fst (plan x))"
  using script_ok [of k t "plan x"] script_fail [of k t "plan x"]
  by (cases "all_ok k t (map fst (plan x))") (auto simp: oper_script)

lemma success_trace: "fst (oper x k t) = Ret None \<Longrightarrow> snd (oper x k t) = t @ map fst (plan x)"
  by (simp add: success_iff) (simp add: oper_script script_ok)

lemma failure:
  assumes "fst (oper x k t) = Ret (Some err)"
  shows "\<exists>n e. n < length (plan x) \<and> all_ok k t (take n (map fst (plan x)))
     \<and> k_err k (t @ take n (map fst (plan x))) (fst (plan x ! n)) = Some e
     \<and> err = snd (plan x ! n) e
     \<and> snd (oper x k t) = t @ take (Suc n) (map fst (plan x))"
proof -
  have "\<not> all_ok k t (map fst (plan x))"
    using assms script_ok [of k t "plan x"] by (auto simp: oper_script)
  from script_fail [OF this] assms show ?thesis by (auto simp: oper_script)
qed

lemma trace_prefix: "\<exists>n\<le>length (plan x). snd (oper x k t) = t @ take n (map fst (plan x))"
proof (cases "all_ok k t (map fst (plan x))")
  case True
  then show ?thesis by (intro exI [of _ "length (plan x)"]) (simp add: oper_script script_ok)
next
  case False
  from script_fail [OF this] show ?thesis by (auto simp: oper_script intro: Suc_leI)
qed

text \<open>Whatever comes before some call of the history has succeeded.\<close>

lemma before_ok:
  assumes "snd (oper x k t) = t @ us @ c # rest"
  shows "all_ok k t us" and "\<exists>vs. map fst (plan x) = us @ c # vs"
proof -
  have "\<exists>n. us @ c # rest = take n (map fst (plan x))" using trace_prefix [of x k t] assms by auto
  then show cut: "\<exists>vs. map fst (plan x) = us @ c # vs"
    by (metis append.assoc append_Cons append_take_drop_id)
  show "all_ok k t us"
  proof (cases "all_ok k t (map fst (plan x))")
    case True
    with cut show ?thesis by (auto simp: all_ok_append)
  next
    case False
    from script_fail [OF this] obtain n where ok: "all_ok k t (take n (map fst (plan x)))"
      and "snd (oper x k t) = t @ take (Suc n) (map fst (plan x))" by (auto simp: oper_script)
    with assms have cut': "us @ c # rest = take (Suc n) (map fst (plan x))" by simp
    have "length us \<le> n" using arg_cong [OF cut', of length] by simp
    moreover have "us = take (length us) (us @ c # rest)" by simp
    ultimately have "us = take (length us) (take n (map fst (plan x)))"
      by (simp add: cut' min_def)
    with ok show ?thesis by (metis all_ok_take)
  qed
qed

lemma oper_emits: "(\<And>c. c \<in> fst ` set (plan x) \<Longrightarrow> P c) \<Longrightarrow> emits P (oper x)"
proof (rule emitsI)
  fix k t
  assume P: "\<And>c. c \<in> fst ` set (plan x) \<Longrightarrow> P c"
  from trace_prefix obtain n where "snd (oper x k t) = t @ take n (map fst (plan x))" by blast
  moreover have "\<forall>c\<in>set (take n (map fst (plan x))). P c"
    using P by (auto dest: in_set_takeD)
  ultimately show "\<exists>ext. snd (oper x k t) = t @ ext \<and> (\<forall>c\<in>set ext. P c)" by blast
qed

lemma oper_returns: "returns (oper x)"
  unfolding returns_def oper_script
  by (metis (no_types) fst_conv script_fail script_ok)

end

subsection \<open>Best-effort sequences of calls\<close>

fun every :: "call list \<Rightarrow> unit act" where
  "every [] = ret ()"
| "every (c # cs) = andThen (ignore (sys c)) (every cs)"

lemma every_run: "every cs k t = (Ret (), t @ cs)"
  by (induction cs arbitrary: t) (simp_all add: act_defs)

lemma every_append: "every (as @ bs) = andThen (every as) (every bs)"
  by (simp add: fun_eq_iff andThen_def bind_def every_run)

lemma every_concat: "for_each xs (\<lambda>x. every (f x)) = every (concat (map f xs))"
  by (induction xs) (simp_all add: every_append)

lemma every_single: "ignore (sys c) = every [c]"
  by (simp add: fun_eq_iff act_defs)

locale best_effort =
  fixes oper :: "'a \<Rightarrow> unit act" and calls :: "'a \<Rightarrow> call list"
  assumes oper_every: "oper x = every (calls x)"
begin

lemma run: "oper x k t = (Ret (), t @ calls x)"
  by (simp add: oper_every every_run)

lemma oper_emits: "(\<And>c. c \<in> set (calls x) \<Longrightarrow> P c) \<Longrightarrow> emits P (oper x)"
  by (auto simp: emits_def run)

lemma oper_returns: "returns (oper x)"
  by (simp add: returns_def run)

end

subsection \<open>Sequences of calls that end the process\<close>

text \<open>The main programs' idiom: every call of a list must succeed, or the process exits with status 1.\<close>

fun must_all :: "call list \<Rightarrow> unit act" where
  "must_all [] = ret ()"
| "must_all (c # cs) = andThen (must_ok (sys c)) (must_all cs)"

lemma andThen_assoc: "andThen (andThen a b) c = andThen a (andThen b c)"
  by (simp add: andThen_def bind_assoc)

lemma andThen_ret [simp]: "andThen (ret ()) c = c"
  by (simp add: andThen_def)

lemma andThen_ret_right: "andThen m (ret ()) = m"
  by (auto simp: andThen_def bind_def ret_def fun_eq_iff split: prod.splits res.splits)

lemma must_run:
  "m k t = (Ret r, t') \<Longrightarrow>
   andThen (must_ok m) c k t = (case r of None \<Rightarrow> c k t' | Some e \<Rightarrow> (Exit 1, t'))"
  by (cases r) (simp_all add: act_defs)

lemma must_step:
  "andThen (must_ok (sys d)) c k t = (case k_err k t d of None \<Rightarrow> c k (t @ [d]) | Some e \<Rightarrow> (Exit 1, t @ [d]))"
  by (rule must_run) (simp add: sys_def)

lemma must_end: "must_ok (sys d) k t = (case k_err k t d of None \<Rightarrow> Ret () | Some e \<Rightarrow> Exit 1, t @ [d])"
  by (cases "k_err k t d") (simp_all add: act_defs)

lemma must_all_append: "must_all (as @ bs) = andThen (must_all as) (must_all bs)"
  by (induction as) (simp_all add: andThen_assoc)

lemma must_all_concat: "for_each xs (\<lambda>x. must_all (f x)) = must_all (concat (map f xs))"
  by (induction xs) (simp_all add: must_all_append)

lemma must_all_single: "must_ok (sys c) = must_all [c]"
  by (simp add: andThen_ret_right)

lemma must_all_ok: "all_ok k t cs \<Longrightarrow> must_all cs k t = (Ret (), t @ cs)"
  by (induction cs arbitrary: t) (auto simp: act_defs)

lemma must_all_fail:
  "\<not> all_ok k t cs \<Longrightarrow>
   \<exists>n. n < length cs \<and> all_ok k t (take n cs) \<and> must_all cs k t = (Exit 1, t @ take (Suc n) cs)"
proof (induction cs arbitrary: t)
  case (Cons c cs)
  show ?case
  proof (cases "k_err k t c")
    case None
    with Cons.prems have "\<not> all_ok k (t @ [c]) cs" by simp
    from Cons.IH [OF this] obtain n where "n < length cs" "all_ok k (t @ [c]) (take n cs)"
      "must_all cs k (t @ [c]) = (Exit 1, (t @ [c]) @ take (Suc n) cs)" by blast
    with None show ?thesis by (intro exI [of _ "Suc n"]) (simp add: act_defs)
  next
    case (Some e)
    then show ?thesis by (intro exI [of _ 0]) (simp add: act_defs)
  qed
qed simp

lemma must_all_then:
  "if all_ok k t cs then andThen (must_all cs) m k t = m k (t @ cs)
   else \<exists>h. andThen (must_all cs) m k t = (Exit 1, t @ h) \<and> prefix h cs"
proof (cases "all_ok k t cs")
  case True
  then show ?thesis by (simp add: andThen_def bind_def must_all_ok)
next
  case False
  from must_all_fail [OF this] obtain n where "must_all cs k t = (Exit 1, t @ take (Suc n) cs)" by blast
  then have "andThen (must_all cs) m k t = (Exit 1, t @ take (Suc n) cs) \<and> prefix (take (Suc n) cs) cs"
    by (simp add: andThen_def bind_def take_is_prefix)
  with False show ?thesis by (simp only: if_False) blast
qed

lemma must_ok_script: "must_ok (script ss) = must_all (map fst ss)"
proof (intro ext)
  fix k t
  show "must_ok (script ss) k t = must_all (map fst ss) k t"
  proof (induction ss arbitrary: t)
    case (Cons s ss)
    then show ?case by (cases "k_err k t (fst s)") (simp_all add: act_defs)
  qed (simp add: act_defs)
qed

subsection \<open>The mount point and the environment\<close>

text \<open>The constant \<open>mountAction\<close>, which several main programs declare.\<close>

definition mountAction :: string where "mountAction = ''/mountAction''"

definition env :: "kernel \<Rightarrow> string \<Rightarrow> string" where
  "env k v = (case k_env k v of None \<Rightarrow> [] | Some s \<Rightarrow> s)"

lemma getenv_bind: "bind (getenv v) f k t = f (env k v) k t"
  by (simp add: bind_def getenv_def env_def)

subsection \<open>A kernel for concrete runs\<close>

text \<open>
  The kernel that lets everything succeed: an empty environment, block devices
  everywhere, empty files.  Concrete runs start from it and change the answers they
  are about.
\<close>

definition quiet :: kernel where
  "quiet = \<lparr>k_env = (\<lambda>_. None), k_err = (\<lambda>_ _. None), k_stat = (\<lambda>_ _. Inr S_IFBLK),
     k_read = (\<lambda>_ _. Inr []), k_cwd = (\<lambda>_. Inr ''/''), k_badurl = (\<lambda>_. None),
     k_http = (\<lambda>_ _. Inl (SysErr ''no route'')), k_disk = (\<lambda>_ _. Inr 1000000000)\<rparr>"

lemma quiet_sel [simp]:
  "k_env quiet v = None" "k_err quiet t c = None" "k_stat quiet t p = Inr S_IFBLK"
  "k_read quiet t p = Inr []" "k_badurl quiet u = None" "k_disk quiet t d = Inr 1000000000"
  "k_cwd quiet t = Inr ''/''" "k_http quiet t u = Inl (SysErr ''no route'')"
  by (simp_all add: quiet_def)

lemma all_ok_quiet [simp]: "all_ok quiet t cs"
  by (induction cs arbitrary: t) simp_all

end
