(* ===== verification/Metadata.thy ===== *)
theory Metadata
  imports Actions
begin

text \<open>
  The package \<open>pkg/metadata\<close>: the typed metadata every action reads, with one record per
  Go struct, and the client that fetches it.  Field names carry a prefix for their struct
  where Go tells them apart by the struct.  A nil slice is the empty list, a nil pointer
  \<^const>\<open>None\<close>.  Decoding JSON text is an argument of the fetching operations.
\<close>

subsection \<open>The data\<close>

record Mount =
  m_Options :: "string list"
  m_Device :: string
  m_Format :: string
  m_Point :: string

record Filesystem =
  fs_Mount :: Mount

record LogicalVolume =
  lv_Name :: string
  lv_Size :: "64 word"
  lv_Tags :: "string list"
  lv_Opts :: "string list"

record VolumeGroup =
  vg_Name :: string
  vg_PhysicalVolumes :: "string list"
  vg_LogicalVolumes :: "LogicalVolume list"
  vg_Tags :: "string list"

record RAID =
  raid_Name :: string
  raid_Level :: string
  raid_Devices :: "string list"
  raid_Spare :: "string list"

record Partition =
  part_Label :: string
  part_Number :: int
  part_Size :: "64 word"

record Disk =
  disk_Device :: string
  disk_Partitions :: "Partition list"
  disk_WipeTable :: bool

record Storage =
  Disks :: "Disk list"
  RAIDs :: "RAID list"
  VolumeGroups :: "VolumeGroup list"
  Filesystems :: "Filesystem list"

record Console =
  con_TTY :: string
  con_Baud :: int

record SSHD =
  PermitRootLogin :: string
  PasswordAuthentication :: "bool option"

record User =
  user_Username :: string
  user_CryptedPassword :: string
  user_SSHAuthorizedKeys :: "string list"
  user_Sudo :: bool
  user_Shell :: string

record OperatingSystem =
  os_Distro :: string
  os_OsCodename :: string
  os_OsSlug :: string
  os_Version :: string

record Facility =
  FacilityCode :: string
  PlanSlug :: string

record Instance =
  inst_Hostname :: string
  inst_CryptedRootPassword :: string
  inst_SSHKeys :: "string list"
  inst_Users :: "User list"
  inst_SSHD :: "SSHD option"
  inst_Console :: "Console option"
  inst_Storage :: Storage
  inst_OS :: OperatingSystem

record Metadata =
  md_Instance :: Instance
  md_Facility :: Facility

subsection \<open>The client\<close>

text \<open>The client: its base URL and the timeout of its HTTP client in seconds.\<close>

record Client =
  BaseURL :: string
  Timeout :: nat

definition New :: "(goerr + Client) act" where
  "New =
     bind (getenv ''MIRROR_HOST'') (\<lambda>host.
     if host = [] then ret (Inl (Errorf ''metadata: MIRROR_HOST env var is required'' []))
     else
       bind (getenv ''METADATA_SERVICE_PORT'') (\<lambda>p.
       let port = (if p = [] then ''50061'' else p)
       in ret (Inr \<lparr>BaseURL = Sprintf ''http://%s:%s'' [host, port], Timeout = 60\<rparr>)))"

text \<open>
  \<open>Fetch\<close>, with \<open>decode\<close> for \<open>json.NewDecoder(res.Body).Decode\<close> into the wrapper struct.
\<close>

type_synonym decoder = "http_response \<Rightarrow> goerr + Metadata"

definition Fetch :: "decoder \<Rightarrow> Client \<Rightarrow> (goerr + Metadata) act" where
  "Fetch decode c =
     (let url = BaseURL c @ ''/metadata'' in
      bind (new_request url) (\<lambda>bad.
      case bad of
        Some err \<Rightarrow> ret (Inl (Wrapf ''metadata: build request: %w'' [] err))
      | None \<Rightarrow>
          bind (sys_http url) (\<lambda>res.
          case res of
            Inl err \<Rightarrow> ret (Inl (Wrapf ''metadata: GET %s: %w'' [url] err))
          | Inr r \<Rightarrow>
              if StatusCode r \<noteq> 200
              then ret (Inl (Errorf ''metadata: GET %s returned %s'' [url, Status r]))
              else ret (case decode r of
                    Inl err \<Rightarrow> Inl (Wrapf ''metadata: decode body: %w'' [] err)
                  | Inr md \<Rightarrow> Inr md))))"

text \<open>\<open>storage.RetrieveData\<close>: make a client, then fetch.\<close>

definition RetrieveData :: "decoder \<Rightarrow> (goerr + Metadata) act" where
  "RetrieveData decode =
     bind New (\<lambda>c. case c of Inl err \<Rightarrow> ret (Inl err) | Inr cl \<Rightarrow> Fetch decode cl)"

text \<open>The beginning of several main programs: any error of the two steps ends the process.\<close>

definition must_metadata :: "decoder \<Rightarrow> Metadata act" where
  "must_metadata decode =
     bind New (\<lambda>c.
     case c of
       Inl err \<Rightarrow> log_fatal
     | Inr cl \<Rightarrow>
         bind (Fetch decode cl) (\<lambda>m.
         case m of Inl err \<Rightarrow> log_fatal | Inr md \<Rightarrow> ret md))"

text \<open>
  The two forms of \<open>fetchSiblings\<close>: that of \<open>cexec\<close> hands the error to its caller, that of
  \<open>archive2disk\<close> and \<open>grub2disk\<close> asks only when a mirror host is set and goes on without
  siblings after an error.
\<close>

definition cexec_fetchSiblings :: "decoder \<Rightarrow> (goerr + Filesystem list) act" where
  "cexec_fetchSiblings decode =
     bind New (\<lambda>c.
     case c of
       Inl err \<Rightarrow> ret (Inl err)
     | Inr cl \<Rightarrow>
         bind (Fetch decode cl) (\<lambda>m.
         case m of
           Inl err \<Rightarrow> ret (Inl err)
         | Inr md \<Rightarrow> ret (Inr (Filesystems (inst_Storage (md_Instance md))))))"

definition fetchSiblings :: "decoder \<Rightarrow> Filesystem list act" where
  "fetchSiblings decode =
     bind (getenv ''MIRROR_HOST'') (\<lambda>host.
     if host = [] then ret []
     else
       bind New (\<lambda>c.
       case c of
         Inl err \<Rightarrow> ret []
       | Inr cl \<Rightarrow>
           bind (Fetch decode cl) (\<lambda>m.
           case m of
             Inl err \<Rightarrow> ret []
           | Inr md \<Rightarrow> ret (Filesystems (inst_Storage (md_Instance md))))))"

lemma New_returns [returns_intros]: "returns New"
  by (auto simp: New_def Let_def intro!: returns_intros)

lemma Fetch_returns [returns_intros]: "returns (Fetch d c)"
  by (auto simp: Fetch_def Let_def intro!: returns_intros)

lemma RetrieveData_returns [returns_intros]: "returns (RetrieveData d)"
  by (auto simp: RetrieveData_def intro!: returns_intros)

definition is_http :: "call \<Rightarrow> bool" where
  "is_http c = (case c of HttpGet _ \<Rightarrow> True | _ \<Rightarrow> False)"

lemma New_emits [emits_intros]: "emits P New"
  by (auto simp: New_def Let_def intro!: emits_intros)

lemma Fetch_emits: "P (HttpGet (BaseURL c @ ''/metadata'')) \<Longrightarrow> emits P (Fetch d c)"
  by (auto simp: Fetch_def Let_def intro!: emits_intros)

lemma RetrieveData_emits [emits_intros]: "(\<And>u. P (HttpGet u)) \<Longrightarrow> emits P (RetrieveData d)"
  by (auto simp: RetrieveData_def intro!: emits_intros Fetch_emits)

lemma fetchSiblings_returns [returns_intros]: "returns (cexec_fetchSiblings d)" "returns (fetchSiblings d)"
  by (auto simp: cexec_fetchSiblings_def fetchSiblings_def intro!: returns_intros)

lemma cexec_fetchSiblings_emits: "emits is_http (cexec_fetchSiblings d)"
  unfolding cexec_fetchSiblings_def
  by (intro emits_intros New_emits Fetch_emits) (simp add: is_http_def)

lemma fetchSiblings_emits: "emits is_http (fetchSiblings d)"
  unfolding fetchSiblings_def
  by (intro emits_intros New_emits Fetch_emits) (simp add: is_http_def)

lemma must_metadata_emits: "emits is_http (must_metadata d)"
  unfolding must_metadata_def
  by (intro emits_intros New_emits Fetch_emits) (simp add: is_http_def)

text \<open>
  What a successful retrieval means: the mirror host is set, one request went to the
  service on the port of the environment or 50061, it was answered with status 200, and
  the result is the decoded body.
\<close>

definition env_or :: "kernel \<Rightarrow> string \<Rightarrow> string \<Rightarrow> string" where
  "env_or k v d = (case k_env k v of None \<Rightarrow> d | Some s \<Rightarrow> if s = [] then d else s)"

definition metadata_url :: "kernel \<Rightarrow> string" where
  "metadata_url k = ''http://'' @ env_or k ''MIRROR_HOST'' [] @ '':'' @
     env_or k ''METADATA_SERVICE_PORT'' ''50061'' @ ''/metadata''"

lemma New_cases:
  "New k t = (Ret (if env_or k ''MIRROR_HOST'' [] = []
      then Inl (Errorf ''metadata: MIRROR_HOST env var is required'' [])
      else Inr \<lparr>BaseURL = ''http://'' @ env_or k ''MIRROR_HOST'' [] @ '':'' @
        env_or k ''METADATA_SERVICE_PORT'' ''50061'', Timeout = 60\<rparr>), t)"
  by (auto simp: New_def act_defs env_or_def Let_def split: option.splits)

text \<open>
  A metadata retrieval succeeds with \<open>md\<close> exactly when the mirror host is set, the
  request can be built, the service answers it with status 200, and the body decodes to
  \<open>md\<close>; every other outcome is one of the four errors, and the only call ever made is the
  one request to \<open>metadata_url\<close>.
\<close>

theorem RetrieveData_success_iff:
  "fst (RetrieveData d k t) = Ret (Inr md) \<longleftrightarrow>
     env_or k ''MIRROR_HOST'' [] \<noteq> [] \<and> k_badurl k (metadata_url k) = None \<and>
     (\<exists>r. k_http k t (metadata_url k) = Inr r \<and> StatusCode r = 200 \<and> d r = Inr md
        \<and> snd (RetrieveData d k t) = t @ [HttpGet (metadata_url k)])"
  by (auto simp: RetrieveData_def bind_def New_cases Fetch_def Let_def metadata_url_def
        new_request_def sys_http_def ret_def split: option.splits sum.splits if_splits)

end
