(* ===== verification/Stages.thy ===== *)
theory Stages
  imports Actions
begin

text \<open>
  A contract that most main programs share.  They first find out what to do (the \<open>ask\<close> part,
  which may end the process), then issue a fixed list of calls that must all succeed (the
  \<open>gate\<close>: mounting, entering the new root), and only then do their work.
\<close>

text \<open>
  \<open>staged A G W m\<close>: the calls of \<open>m\<close> come in three stretches.  The first one satisfies \<open>A\<close>, the
  second is the beginning of a list in \<open>G\<close>, and the third satisfies \<open>W\<close>; there is a third one
  only if the second is a whole list of \<open>G\<close> and every call of it has succeeded.
\<close>

definition staged :: "(call \<Rightarrow> bool) \<Rightarrow> (kernel \<Rightarrow> call list \<Rightarrow> bool) \<Rightarrow> (call \<Rightarrow> bool) \<Rightarrow> 'a act \<Rightarrow> bool" where
  "staged A G W m \<longleftrightarrow> (\<forall>k t. \<exists>h1 h2 h3. snd (m k t) = t @ h1 @ h2 @ h3
     \<and> list_all A h1 \<and> list_all W h3
     \<and> (h2 @ h3 = [] \<or> (\<exists>cs. G k cs \<and> prefix h2 cs \<and> (h3 = [] \<or> h2 = cs \<and> all_ok k (t @ h1) cs))))"

lemma staged_weaken:
  assumes "staged A G W m" and "\<And>c. A c \<Longrightarrow> A' c" and "\<And>k cs. G k cs \<Longrightarrow> G' k cs" and "\<And>c. W c \<Longrightarrow> W' c"
  shows "staged A' G' W' m"
  unfolding staged_def
proof (intro allI)
  fix k t
  from assms(1) obtain h1 h2 h3 where h: "snd (m k t) = t @ h1 @ h2 @ h3" "list_all A h1" "list_all W h3"
      "h2 @ h3 = [] \<or> (\<exists>cs. G k cs \<and> prefix h2 cs \<and> (h3 = [] \<or> h2 = cs \<and> all_ok k (t @ h1) cs))"
    unfolding staged_def by blast
  moreover have "list_all A' h1" "list_all W' h3"
    using h(2,3) assms(2,4) by (auto simp: list_all_iff)
  ultimately show "\<exists>h1 h2 h3. snd (m k t) = t @ h1 @ h2 @ h3 \<and> list_all A' h1 \<and> list_all W' h3
     \<and> (h2 @ h3 = [] \<or> (\<exists>cs. G' k cs \<and> prefix h2 cs \<and> (h3 = [] \<or> h2 = cs \<and> all_ok k (t @ h1) cs)))"
    using assms(3) by blast
qed

locale staged_action =
  fixes prog :: "'d \<Rightarrow> unit act" and ask :: "'d \<Rightarrow> 'm act"
    and gate :: "kernel \<Rightarrow> 'm \<Rightarrow> call list option" and work :: "kernel \<Rightarrow> 'm \<Rightarrow> unit act"
    and A W :: "call \<Rightarrow> bool"
  assumes stages: "prog d k t = bind (ask d) (\<lambda>m k t. case gate k m of
        None \<Rightarrow> (Ret (), t)
      | Some cs \<Rightarrow> andThen (must_all cs) (work k m) k t) k t"
    and ask_emits: "emits A (ask d)"
    and work_emits: "emits W (work k m)"
begin

text \<open>A gate that does not open ends the process before any work.\<close>

lemma gate_fails:
  assumes "ask d k t = (Ret m, u)" and "gate k m = Some cs" and "\<not> all_ok k u cs"
  shows "\<exists>h. prog d k t = (Exit 1, u @ h) \<and> prefix h cs"
  using must_all_then [of k u cs "work k m"] assms by (simp add: stages bind_def)

lemma gate_opens:
  assumes "ask d k t = (Ret m, u)" and "gate k m = Some cs" and "all_ok k u cs"
  shows "prog d k t = work k m k (u @ cs)"
  using must_all_then [of k u cs "work k m"] assms by (simp add: stages bind_def)

lemma skipped: "ask d k t = (Ret m, u) \<Longrightarrow> gate k m = None \<Longrightarrow> prog d k t = (Ret (), u)"
  by (simp add: stages bind_def)

lemma refused: "ask d k t = (Exit n, u) \<Longrightarrow> prog d k t = (Exit n, u)"
  by (simp add: stages bind_def)

lemma in_order:
  "\<exists>h1 h2 h3. snd (prog d k t) = t @ h1 @ h2 @ h3 \<and> list_all A h1 \<and> list_all W h3
     \<and> (h2 @ h3 = [] \<or> (\<exists>m cs. fst (ask d k t) = Ret m \<and> gate k m = Some cs \<and> prefix h2 cs
          \<and> (h3 = [] \<or> h2 = cs \<and> all_ok k (t @ h1) cs)))"
proof -
  from ask_emits obtain h1 where h1: "snd (ask d k t) = t @ h1" "list_all A h1"
    by (rule emitsE) (auto simp: list_all_iff)
  show ?thesis
  proof (cases "\<exists>m cs. fst (ask d k t) = Ret m \<and> gate k m = Some cs")
    case True
    then obtain m cs where m: "fst (ask d k t) = Ret m" "gate k m = Some cs" by blast
    with h1 have ask: "ask d k t = (Ret m, t @ h1)" by (simp add: prod_eq_iff)
    show ?thesis
    proof (cases "all_ok k (t @ h1) cs")
      case ok: True
      from work_emits [of k m] obtain h3 where "snd (work k m k ((t @ h1) @ cs)) = ((t @ h1) @ cs) @ h3" "\<forall>c\<in>set h3. W c"
        by (rule emitsE)
      then have "snd (work k m k ((t @ h1) @ cs)) = ((t @ h1) @ cs) @ h3" "list_all W h3"
        by (simp_all add: list_all_iff)
      with gate_opens [OF ask m(2) ok] h1 m ok show ?thesis by (intro exI [of _ h1] exI [of _ cs] exI [of _ h3]) auto
    next
      case False
      with gate_fails [OF ask m(2)] obtain h where "prog d k t = (Exit 1, (t @ h1) @ h)" "prefix h cs" by blast
      with h1 m show ?thesis by (intro exI [of _ h1] exI [of _ h] exI [of _ "[]"]) auto
    qed
  next
    case False
    then have "snd (prog d k t) = t @ h1"
      using h1 by (auto simp: stages bind_def split: prod.splits res.splits option.split)
    with h1 show ?thesis by (intro exI [of _ h1] exI [of _ "[]"]) simp
  qed
qed

lemma staged:
  assumes "\<And>k t m cs. fst (ask d k t) = Ret m \<Longrightarrow> gate k m = Some cs \<Longrightarrow> G k cs"
  shows "staged A G W (prog d)"
  unfolding staged_def using in_order [of d] assms by blast

end

lemma bind_same: "(\<And>x u. f x k u = g x k u) \<Longrightarrow> bind m f k t = bind m g k t"
  by (simp add: bind_def split: prod.split res.split)

lemma bind_first: "m k t = m' k t \<Longrightarrow> bind m f k t = bind m' f k t"
  by (simp add: bind_def)

text \<open>
  The two mounts without siblings that \<open>kexec\<close> and \<open>writefile\<close> start with.
\<close>

definition single_mount :: "string \<Rightarrow> string \<Rightarrow> call list" where
  "single_mount dev fsType = [Mkdir mountAction ModeDir, call.Mount dev mountAction fsType 0]"

end
