(* ===== verification/Chroot.thy ===== *)
theory Chroot
  imports Metadata Stages
begin

text \<open>
  The package \<open>pkg/chroot\<close>: which of the metadata's filesystems are mounted under
  \<open>/mountAction\<close>, in which order, and the calls that mount them, bind the kernel's own
  filesystems and change the root.
\<close>

definition DefaultMountPoint :: string where
  "DefaultMountPoint = ''/mountAction''"

subsection \<open>Filter and order\<close>

definition pathDepth :: "string \<Rightarrow> nat" where
  "pathDepth p = Count (Trim p ''/'') ''/''"

definition point :: "Filesystem \<Rightarrow> string" where
  "point f = m_Point (fs_Mount f)"

text \<open>The tests of the filter loop; an entry that fails one of them is skipped.\<close>

definition keep_extra :: "Filesystem \<Rightarrow> bool" where
  "keep_extra f \<longleftrightarrow>
     \<not> (point f = [] \<or> point f = ''/'') \<and>
     m_Format (fs_Mount f) \<noteq> ''swap'' \<and> m_Format (fs_Mount f) \<noteq> ''vfat''"

definition filterExtras :: "Filesystem list \<Rightarrow> Filesystem list" where
  "filterExtras extras = sort_key (\<lambda>f. pathDepth (point f)) (filter keep_extra extras)"

subsection \<open>Mounting\<close>

text \<open>The format holds an arrow outside ASCII, given by its three UTF-8 bytes.\<close>

definition bind_error_format :: string where
  "bind_error_format = ''chroot: bind /%s '' @ [CHR 0xE2, CHR 0x86, CHR 0x92] @ '' %s: %w''"

definition MountExtras :: "Filesystem list \<Rightarrow> goerr option act" where
  "MountExtras extras =
     for_err (filterExtras extras) (\<lambda>f.
       let target = DefaultMountPoint @ point f;
           dev = m_Device (fs_Mount f); fmt = m_Format (fs_Mount f)
       in check (sys (MkdirAll target mode_0755)) (Wrapf ''chroot: mkdir %s: %w'' [target])
         (check (sys (call.Mount dev target fmt 0))
            (Wrapf ''chroot: mount %s (%s) at %s: %w'' [dev, fmt, target])
         (ret None)))"

definition MountTree :: "string \<Rightarrow> string \<Rightarrow> Filesystem list \<Rightarrow> goerr option act" where
  "MountTree blockDev fsType extras =
     check (sys (MkdirAll DefaultMountPoint mode_0755))
       (Wrapf ''chroot: mkdir %s: %w'' [DefaultMountPoint])
    (check (sys (call.Mount blockDev DefaultMountPoint fsType 0))
       (Wrapf ''chroot: mount %s (%s) at %s: %w'' [blockDev, fsType, DefaultMountPoint])
    (MountExtras extras))"

definition Enter :: "string \<Rightarrow> string \<Rightarrow> Filesystem list \<Rightarrow> goerr option act" where
  "Enter blockDev fsType extras =
     check (MountTree blockDev fsType extras) (\<lambda>err. err)
    (check (for_err [''dev'', ''proc'', ''sys''] (\<lambda>sub.
       let target = DefaultMountPoint @ ''/'' @ sub
       in check (sys (MkdirAll target mode_0755)) (Wrapf ''chroot: mkdir %s: %w'' [target])
         (check (sys (call.Mount (''/'' @ sub) target [] MS_BIND))
            (Wrapf bind_error_format [sub, target])
         (ret None)))) (\<lambda>err. err)
    (check (sys (Chroot DefaultMountPoint)) (Wrapf ''chroot: chroot(%s): %w'' [DefaultMountPoint])
    (check (sys (Chdir ''/'')) (Wrapf ''chroot: chdir /: %w'' [])
    (ret None))))"

subsection \<open>The plans: which calls, in which order\<close>

definition extra_steps :: "Filesystem \<Rightarrow> step list" where
  "extra_steps f =
     (let target = DefaultMountPoint @ point f;
          dev = m_Device (fs_Mount f); fmt = m_Format (fs_Mount f)
      in [(MkdirAll target mode_0755, Wrapf ''chroot: mkdir %s: %w'' [target]),
          (call.Mount dev target fmt 0,
             Wrapf ''chroot: mount %s (%s) at %s: %w'' [dev, fmt, target])])"

definition extras_plan :: "Filesystem list \<Rightarrow> step list" where
  "extras_plan extras = concat (map extra_steps (filterExtras extras))"

definition tree_plan :: "string \<times> string \<times> Filesystem list \<Rightarrow> step list" where
  "tree_plan = (\<lambda>(blockDev, fsType, extras).
     [(MkdirAll DefaultMountPoint mode_0755, Wrapf ''chroot: mkdir %s: %w'' [DefaultMountPoint]),
      (call.Mount blockDev DefaultMountPoint fsType 0,
         Wrapf ''chroot: mount %s (%s) at %s: %w'' [blockDev, fsType, DefaultMountPoint])]
     @ extras_plan extras)"

definition bind_steps :: "string \<Rightarrow> step list" where
  "bind_steps sub =
     (let target = DefaultMountPoint @ ''/'' @ sub
      in [(MkdirAll target mode_0755, Wrapf ''chroot: mkdir %s: %w'' [target]),
          (call.Mount (''/'' @ sub) target [] MS_BIND,
             Wrapf bind_error_format [sub, target])])"

definition enter_plan :: "string \<times> string \<times> Filesystem list \<Rightarrow> step list" where
  "enter_plan a =
     tree_plan a @ concat (map bind_steps [''dev'', ''proc'', ''sys'']) @
     [(Chroot DefaultMountPoint, Wrapf ''chroot: chroot(%s): %w'' [DefaultMountPoint]),
      (Chdir ''/'', Wrapf ''chroot: chdir /: %w'' [])]"

lemma MountExtras_script: "MountExtras extras = script (extras_plan extras)"
proof -
  have "MountExtras extras = for_err (filterExtras extras) (\<lambda>f. script (extra_steps f))"
    by (simp add: MountExtras_def extra_steps_def Let_def)
  then show ?thesis by (simp add: script_concat extras_plan_def)
qed

lemma MountTree_script: "MountTree d f x = script (tree_plan (d, f, x))"
  by (simp add: MountTree_def tree_plan_def MountExtras_script)

lemma Enter_script: "Enter d f x = script (enter_plan (d, f, x))"
proof -
  have *: "for_err [''dev'', ''proc'', ''sys''] (\<lambda>s. script (bind_steps s))
      = script (concat (map bind_steps [''dev'', ''proc'', ''sys'']))"
    by (rule script_concat)
  have "Enter d f x =
      check (script (tree_plan (d, f, x))) (\<lambda>err. err)
     (check (for_err [''dev'', ''proc'', ''sys''] (\<lambda>s. script (bind_steps s))) (\<lambda>err. err)
        (script [(Chroot DefaultMountPoint, Wrapf ''chroot: chroot(%s): %w'' [DefaultMountPoint]),
                 (Chdir ''/'', Wrapf ''chroot: chdir /: %w'' [])]))"
    by (simp add: Enter_def MountTree_script bind_steps_def Let_def)
  then show ?thesis
    by (simp only: * enter_plan_def script_append)
qed

text \<open>All three are fail-fast sequences of calls.\<close>

interpretation mx: fail_fast MountExtras extras_plan
  by unfold_locales (rule MountExtras_script)

interpretation mt: fail_fast "\<lambda>(d, f, x). MountTree d f x" tree_plan
  by unfold_locales (auto simp: MountTree_script)

interpretation en: fail_fast "\<lambda>(d, f, x). Enter d f x" enter_plan
  by unfold_locales (auto simp: Enter_script)

subsection \<open>Parents are mounted before their children\<close>

text \<open>
  What the mounting loop needs of the list it walks: it holds the kept entries, in the
  order of a depth that grows from a mount point to the mount points inside it.
\<close>

definition clean_point :: "string \<Rightarrow> bool" where
  "clean_point p \<longleftrightarrow> IsAbs p \<and> Clean p = p"

definition inside :: "string \<Rightarrow> string \<Rightarrow> bool" where
  "inside q p \<longleftrightarrow> strict_prefix (path_elems p) (path_elems q)"

definition mount_call :: "Filesystem \<Rightarrow> call" where
  "mount_call f = call.Mount (m_Device (fs_Mount f)) (DefaultMountPoint @ point f)
     (m_Format (fs_Mount f)) 0"

lemma extra_steps_calls:
  "map fst (extra_steps f) = [MkdirAll (DefaultMountPoint @ point f) mode_0755, mount_call f]"
  by (simp add: extra_steps_def mount_call_def Let_def)

locale mount_order =
  fixes order :: "Filesystem list \<Rightarrow> Filesystem list" and depth :: "string \<Rightarrow> nat"
  assumes order_set: "set (order fs) = {f \<in> set fs. keep_extra f}"
    and order_sorted: "sorted (map (\<lambda>f. depth (point f)) (order fs))"
    and depth_inside: "clean_point p \<Longrightarrow> clean_point q \<Longrightarrow> p \<noteq> ''/'' \<Longrightarrow> inside q p \<Longrightarrow> depth p < depth q"
begin

lemma parent_in_prefix:
  assumes f: "f \<in> set fs" "keep_extra f" and "clean_point (point f)"
    and "order fs = ys @ y # zs" and "clean_point (point y)" and "inside (point y) (point f)"
  shows "f \<in> set ys"
proof -
  have "point f \<noteq> ''/''" using f(2) by (simp add: keep_extra_def)
  with assms have lt: "depth (point f) < depth (point y)" by (intro depth_inside)
  have "f \<in> set (ys @ y # zs)" using f assms(4) order_set [of fs] by auto
  moreover have "f \<notin> set (y # zs)"
  proof
    assume "f \<in> set (y # zs)"
    with order_sorted [of fs] assms(4) have "depth (point y) \<le> depth (point f)"
      by (auto simp: sorted_append)
    with lt show False by simp
  qed
  ultimately show ?thesis by auto
qed

text \<open>
  In the calls made for the list, the mount of an inner filesystem comes after the mount
  of every filesystem around it.
\<close>

lemma parent_mounted_first:
  assumes "f \<in> set fs" "keep_extra f" "clean_point (point f)" "clean_point (point g)"
    and "inside (point g) (point f)"
    and "us @ mount_call g # rest = concat (map (\<lambda>h. map fst (extra_steps h)) (order fs))"
  shows "mount_call f \<in> set us"
proof -
  from concat_map_split [OF assms(6) [symmetric]] obtain ys y zs vs where
    o: "order fs = ys @ y # zs" and y: "mount_call g \<in> set (map fst (extra_steps y))"
    and us: "us = concat (map (\<lambda>h. map fst (extra_steps h)) ys) @ vs"
    by blast
  from y have "point y = point g"
    unfolding extra_steps_calls by (auto simp: mount_call_def)
  with assms(4,5) have "f \<in> set ys" by (intro parent_in_prefix [OF assms(1-3) o]) simp_all
  with us show ?thesis by (force simp: extra_steps_calls simp del: map_map)
qed

end

lemma extras_plan_mount:
  assumes "f \<in> set extras" and "keep_extra f"
  shows "mount_call f \<in> fst ` set (extras_plan extras)"
proof -
  have "f \<in> set (filterExtras extras)" using assms by (simp add: filterExtras_def)
  moreover have "mount_call f \<in> fst ` set (extra_steps f)"
    using extra_steps_calls [of f] by (metis list.set_intros list.set_map)
  ultimately show ?thesis by (auto simp: extras_plan_def)
qed

lemma count_list_Join:
  "es \<noteq> [] \<Longrightarrow> \<forall>e\<in>set es. c \<notin> set e \<Longrightarrow> count_list (Join es [c]) c = length es - 1"
proof (induction es rule: induct_list012)
  case (3 x y zs)
  then show ?case by (simp add: count_notin)
qed (simp_all add: count_notin)

lemma Join_ordinary_ends:
  assumes "es \<noteq> []" and "\<forall>e\<in>set es. ordinary e"
  shows "Join es ''/'' \<noteq> []" and "hd (Join es ''/'') \<noteq> CHR ''/''"
    and "last (Join es ''/'') \<noteq> CHR ''/''"
proof -
  from assms obtain e es' where es: "es = e # es'" "ordinary e" by (cases es) auto
  then obtain c cs where e: "e = c # cs" "c \<noteq> CHR ''/''"
    by (cases e) (auto simp: ordinary_def)
  then show "Join es ''/'' \<noteq> []" "hd (Join es ''/'') \<noteq> CHR ''/''"
    using es by (simp_all add: Join_Cons_head)
  from Join_last [OF assms(1), of "''/''"] obtain pre where
    j: "Join es ''/'' = pre @ last es" by blast
  have "ordinary (last es)" using assms by simp
  then have "last es \<noteq> []" "CHR ''/'' \<notin> set (last es)" by (auto simp: ordinary_def)
  then have "last (Join es ''/'') = last (last es)" "last (last es) \<in> set (last es)"
    by (simp_all add: j)
  with \<open>CHR ''/'' \<notin> set (last es)\<close> show "last (Join es ''/'') \<noteq> CHR ''/''" by metis
qed

lemma Trim_ends:
  assumes "s \<noteq> []" "hd s \<noteq> c" "last s \<noteq> c"
  shows "Trim (c # s) [c] = s"
proof -
  have l: "dropWhile (\<lambda>x. x \<in> set [c]) (c # s) = s"
    using assms by (cases s) auto
  have "dropWhile (\<lambda>x. x \<in> set [c]) (rev s) = rev s"
    using assms by (cases s rule: rev_cases) auto
  then show ?thesis by (simp only: Trim_def TrimLeft_def TrimRight_def l rev_rev_ident)
qed

lemma pathDepth_clean:
  assumes "clean_point p" and "p \<noteq> ''/''"
  shows "pathDepth p = length (path_elems p) - 1" and "path_elems p \<noteq> []"
proof -
  from assms(1) have p: "p = CHR ''/'' # Join (path_elems p) ''/''"
    and ord: "\<forall>e\<in>set (path_elems p). ordinary e"
    by (auto simp: clean_point_def Clean_abs [symmetric] path_elems_ordinary)
  with assms(2) show ne: "path_elems p \<noteq> []" by (metis Join.simps(1))
  have "Trim p ''/'' = Join (path_elems p) ''/''"
    using Trim_ends [OF Join_ordinary_ends [OF ne ord]] p by metis
  moreover have "\<forall>e\<in>set (path_elems p). CHR ''/'' \<notin> set e"
    using ord by (auto simp: ordinary_def)
  ultimately show "pathDepth p = length (path_elems p) - 1"
    by (simp add: pathDepth_def Count_char count_list_Join [OF ne])
qed

lemma pathDepth_inside:
  assumes "clean_point p" "clean_point q" "p \<noteq> ''/''" "inside q p"
  shows "pathDepth p < pathDepth q"
proof -
  from assms(4) have len: "length (path_elems p) < length (path_elems q)"
    by (auto simp: inside_def dest: prefix_length_less)
  then have "path_elems q \<noteq> []" by auto
  moreover have "path_elems ''/'' = []" by (simp add: path_eval HasPrefix_def)
  ultimately have "q \<noteq> ''/''" by auto
  with assms len pathDepth_clean(2) [OF assms(1,3)] show ?thesis
    by (simp add: pathDepth_clean(1)) (metis One_nat_def Suc_pred diff_less_mono length_greater_0_conv less_eq_Suc_le)
qed

interpretation mo: mount_order filterExtras pathDepth
  by unfold_locales (auto simp: filterExtras_def pathDepth_inside)

text \<open>The calls that build a tree and enter it.\<close>

definition enter_call :: "call \<Rightarrow> bool" where
  "enter_call c = (case c of MkdirAll _ _ \<Rightarrow> True | call.Mount _ _ _ _ \<Rightarrow> True | Chroot _ \<Rightarrow> True | Chdir _ \<Rightarrow> True | _ \<Rightarrow> False)"

lemma MountTree_calls: "emits enter_call (MountTree d f x)"
  by (auto simp: MountTree_def MountExtras_def enter_call_def Let_def intro!: emits_intros)

lemma Enter_calls: "emits enter_call (Enter d f x)"
  by (auto simp: Enter_def MountTree_def MountExtras_def enter_call_def Let_def intro!: emits_intros)

subsection \<open>Programs that work inside the new root\<close>

text \<open>The complete sequence that enters the root on the device and with the type of two variables.\<close>

definition enters_root :: "string \<Rightarrow> string \<Rightarrow> kernel \<Rightarrow> call list \<Rightarrow> bool" where
  "enters_root dev_var fs_var k cs \<longleftrightarrow> (\<exists>extras. cs = map fst (enter_plan (env k dev_var, env k fs_var, extras)))"

definition root_gate :: "kernel \<Rightarrow> string \<Rightarrow> string \<Rightarrow> Filesystem list \<Rightarrow> call list" where
  "root_gate k dev_var fs_var extras = map fst (enter_plan (env k dev_var, env k fs_var, extras))"

lemma root_gate_enters: "enters_root v w k (root_gate k v w x)"
  by (auto simp: enters_root_def root_gate_def)

lemma must_Enter: "must_ok (Enter (env k v) (env k w) x) = must_all (root_gate k v w x)"
  by (simp add: Enter_script must_ok_script root_gate_def)

lemma enters_root_calls: "enters_root v w k cs \<Longrightarrow> list_all enter_call cs"
  by (auto simp: enters_root_def enter_plan_def tree_plan_def extras_plan_def extra_steps_def bind_steps_def
      enter_call_def Let_def list_all_iff)

lemma enters_root_chroot: "enters_root v w k cs \<Longrightarrow> Chroot DefaultMountPoint \<in> set cs"
  by (auto simp: enters_root_def enter_plan_def)

locale rooted_action = staged_action +
  fixes dev_var fs_var :: string
  assumes gate_enters: "gate k m = Some cs \<Longrightarrow> enters_root dev_var fs_var k cs"
begin

lemma rooted: "staged A (enters_root dev_var fs_var) W (prog d)"
  by (rule staged) (rule gate_enters)

text \<open>A call that is neither a question nor part of entering comes behind a \<open>chroot\<close>.\<close>

lemma work_after_chroot:
  assumes "snd (prog d k t) = t @ us @ c # vs" and "\<not> A c" and "\<not> enter_call c"
  shows "Chroot DefaultMountPoint \<in> set us"
proof -
  from in_order [of d k t] obtain h1 h2 h3 where run: "snd (prog d k t) = t @ h1 @ h2 @ h3" "list_all A h1"
      and g: "h2 @ h3 = [] \<or> (\<exists>m cs. fst (ask d k t) = Ret m \<and> gate k m = Some cs \<and> prefix h2 cs
          \<and> (h3 = [] \<or> h2 = cs \<and> all_ok k (t @ h1) cs))"
    by blast
  have "list_all enter_call h2"
    using g by (auto simp: list_all_iff dest!: gate_enters enters_root_calls set_mono_prefix)
  with run(2) assms(2,3) have "c \<notin> set (h1 @ h2)" by (auto simp: list_all_iff)
  moreover have h: "us @ c # vs = (h1 @ h2) @ h3" using run(1) assms(1) by simp
  ultimately have pre: "prefix (h1 @ h2) us" by (intro prefix_before)
  with h have "h3 \<noteq> []" by (auto simp: prefix_def)
  with g obtain m where "gate k m = Some h2" by auto
  from enters_root_chroot [OF gate_enters [OF this]] have "Chroot DefaultMountPoint \<in> set h2" .
  with pre show ?thesis by (auto simp: prefix_def)
qed

end

subsection \<open>Properties\<close>

text \<open>
  The mount point is put behind \<open>/mountAction\<close> without a separator: one that does not begin with a
  slash names another directory beside it, which is not in the new root.
\<close>

lemma relative_point_outside:
  assumes "point f \<noteq> []" and "CHR ''/'' \<notin> set (point f)"
  shows "path_elems (DefaultMountPoint @ point f) = [''mountAction'' @ point f]"
proof -
  define name where "name = ''mountAction'' @ point f"
  have "CHR ''/'' \<notin> set name" using assms(2) by (simp add: name_def)
  then have "Split (CHR ''/'' # name) ''/'' = [[], name]"
    by (simp add: HasPrefix_def Split_char_free)
  moreover have "ordinary name" using \<open>CHR ''/'' \<notin> set name\<close> by (simp add: ordinary_def name_def)
  ultimately have "path_elems (CHR ''/'' # name) = [name]"
    by (simp add: path_elems_def IsAbs_def HasPrefix_def clean_elems_def clean_elem_def ordinary_def)
  then show ?thesis by (simp add: DefaultMountPoint_def name_def)
qed

text \<open>
  C2: However the kernel answers, when \<open>MountExtras\<close> mounts a filesystem, every kept
  filesystem of the metadata whose (clean) mount point lies around the new one has been
  mounted before, and all calls up to then have succeeded.  A mount of \<open>/var\<close> never
  hides an earlier mount of \<open>/var/lib/docker\<close>.
\<close>

theorem MountExtras_parent_first:
  assumes "f \<in> set extras" and "keep_extra f"
    and "clean_point (point f)" and "clean_point (point g)" and "inside (point g) (point f)"
    and "snd (MountExtras extras k t) = t @ us @ mount_call g # rest"
  shows "mount_call f \<in> set us \<and> all_ok k t us"
proof -
  from mx.before_ok [OF assms(6)] obtain vs
    where "map fst (extras_plan extras) = us @ mount_call g # vs" and "all_ok k t us" by blast
  then show ?thesis
    using mo.parent_mounted_first [OF assms(1-5), of us vs]
    by (simp add: extras_plan_def map_concat comp_def)
qed

definition example_extras :: "Filesystem list" where
  "example_extras =
     [\<lparr>fs_Mount = \<lparr>m_Options = [], m_Device = ''/dev/vg0/docker'', m_Format = ''ext4'', m_Point = ''/var/lib/docker''\<rparr>\<rparr>,
      \<lparr>fs_Mount = \<lparr>m_Options = [], m_Device = ''/dev/sda1'', m_Format = ''vfat'', m_Point = ''/boot/efi''\<rparr>\<rparr>,
      \<lparr>fs_Mount = \<lparr>m_Options = [], m_Device = ''/dev/vg0/var'', m_Format = ''ext4'', m_Point = ''/var''\<rparr>\<rparr>]"

lemmas chroot_eval = example_extras_def keep_extra_def point_def clean_point_def inside_def
  path_eval HasPrefix_def filterExtras_def pathDepth_def Count_def Trim_def TrimLeft_def
  TrimRight_def mount_call_def extras_plan_def extra_steps_def Let_def

theorem MountExtras_parent_first_witness:
  "mount_call (example_extras ! 2) \<in> set [MkdirAll ''/mountAction/var'' mode_0755,
     mount_call (example_extras ! 2), MkdirAll ''/mountAction/var/lib/docker'' mode_0755]"
proof -
  have run: "snd (MountExtras example_extras quiet []) = [] @ [MkdirAll ''/mountAction/var'' mode_0755,
     mount_call (example_extras ! 2), MkdirAll ''/mountAction/var/lib/docker'' mode_0755]
     @ mount_call (example_extras ! 0) # []"
    by (simp add: mx.success_trace mx.success_iff) (simp add: chroot_eval DefaultMountPoint_def)
  have "example_extras ! 2 \<in> set example_extras" "keep_extra (example_extras ! 2)"
    "clean_point (point (example_extras ! 2))" "clean_point (point (example_extras ! 0))"
    "inside (point (example_extras ! 0)) (point (example_extras ! 2))"
    by (simp_all add: chroot_eval)
  from MountExtras_parent_first [OF this run] show ?thesis by (rule conjunct1)
qed

text \<open>
  C12: Entering the new root is the last thing that happens: \<open>chroot\<close> is only called once
  the root filesystem, every kept extra filesystem and the three kernel filesystems have
  been mounted, all of them with success.
\<close>

theorem Enter_chroot_after_mounts:
  assumes "snd (Enter dev fmt extras k t) = t @ us @ Chroot p # rest"
  shows "p = DefaultMountPoint \<and> all_ok k t us
    \<and> call.Mount dev DefaultMountPoint fmt 0 \<in> set us
    \<and> (\<forall>f\<in>set extras. keep_extra f \<longrightarrow> mount_call f \<in> set us)
    \<and> (\<forall>sub\<in>{''dev'', ''proc'', ''sys''}.
         call.Mount (''/'' @ sub) (DefaultMountPoint @ ''/'' @ sub) [] MS_BIND \<in> set us)"
proof -
  let ?pre = "map fst (tree_plan (dev, fmt, extras)) @ concat (map (map fst \<circ> bind_steps) [''dev'', ''proc'', ''sys''])"
  have plan: "map fst (enter_plan (dev, fmt, extras)) = ?pre @ [Chroot DefaultMountPoint, Chdir ''/'']"
    by (simp add: enter_plan_def map_concat)
  from en.before_ok [of "(dev, fmt, extras)" k t us "Chroot p" rest] assms obtain vs
    where eq: "?pre @ Chroot DefaultMountPoint # [Chdir ''/''] = us @ Chroot p # vs" and ok: "all_ok k t us"
    by (auto simp: plan)
  have no: "Chroot q \<notin> set ?pre" for q
    by (auto simp: tree_plan_def extras_plan_def extra_steps_def bind_steps_def Let_def)
  have "us = ?pre \<and> p = DefaultMountPoint"
    using unique_cut [OF eq no] by simp
  moreover have "keep_extra f \<Longrightarrow> f \<in> set extras \<Longrightarrow> mount_call f \<in> set ?pre" for f
    using extras_plan_mount [of f extras] by (simp add: tree_plan_def)
  moreover have "call.Mount dev DefaultMountPoint fmt 0 \<in> set ?pre"
    by (simp add: tree_plan_def)
  moreover have "call.Mount (''/'' @ sub) (DefaultMountPoint @ ''/'' @ sub) [] MS_BIND \<in> set ?pre"
    if "sub \<in> {''dev'', ''proc'', ''sys''}" for sub
    using that by (auto simp: bind_steps_def Let_def)
  ultimately show ?thesis using ok by blast
qed

theorem Enter_chroot_after_mounts_witness:
  "all_ok quiet [] (map fst (tree_plan (''/dev/vg0/root'', ''ext4'', example_extras))
      @ concat (map (map fst \<circ> bind_steps) [''dev'', ''proc'', ''sys'']))"
proof -
  have "snd (Enter ''/dev/vg0/root'' ''ext4'' example_extras quiet []) =
      [] @ (map fst (tree_plan (''/dev/vg0/root'', ''ext4'', example_extras))
      @ concat (map (map fst \<circ> bind_steps) [''dev'', ''proc'', ''sys'']))
      @ Chroot DefaultMountPoint # [Chdir ''/'']"
    using en.success_trace [of "(''/dev/vg0/root'', ''ext4'', example_extras)" quiet "[]"]
      en.success_iff [of "(''/dev/vg0/root'', ''ext4'', example_extras)" quiet "[]"]
    by (simp add: enter_plan_def map_concat)
  from Enter_chroot_after_mounts [OF this] show ?thesis by blast
qed

text \<open>
  The list of filesystems to mount is a stable sort of the kept ones: it has the
  same multiset, ascending depth, and entries of equal depth in metadata order; no root,
  empty, swap or vfat entry is in it.
\<close>

theorem filterExtras_stable_sort:
  "mset (filterExtras extras) = mset (filter keep_extra extras)
   \<and> sorted (map (\<lambda>f. pathDepth (point f)) (filterExtras extras))
   \<and> filter (\<lambda>f. pathDepth (point f) = d) (filterExtras extras)
      = filter (\<lambda>f. keep_extra f \<and> pathDepth (point f) = d) extras
   \<and> (f \<in> set (filterExtras extras) \<longleftrightarrow> f \<in> set extras \<and> point f \<noteq> [] \<and> point f \<noteq> ''/''
        \<and> m_Format (fs_Mount f) \<noteq> ''swap'' \<and> m_Format (fs_Mount f) \<noteq> ''vfat'')"
proof -
  have "filter (\<lambda>f. pathDepth (point f) = d) (filterExtras extras)
      = filter (\<lambda>f. pathDepth (point f) = d) (filter keep_extra extras)"
    unfolding filterExtras_def by (rule sort_key_stable)
  also have "\<dots> = filter (\<lambda>f. keep_extra f \<and> pathDepth (point f) = d) extras"
    by (simp add: conj_commute)
  finally show ?thesis
    by (auto simp: filterExtras_def keep_extra_def)
qed

end
