(* ===== verification/Lvm.thy ===== *)
theory Lvm
  imports Metadata
begin

text \<open>
  The package \<open>rootio/lvm\<close>: validation of the names and tags that reach the \<open>lvm\<close>
  program, and the commands run on physical volumes, volume groups and logical volumes.
\<close>

subsection \<open>Names and tags\<close>

text \<open>
  The classes \<open>[A-Za-z0-9_+.]\<close> and \<open>[A-Za-z0-9_+.-]\<close> of the three (equal) expressions,
  anchored at both ends.
\<close>

definition lvm_first :: "char \<Rightarrow> bool" where
  "lvm_first c \<longleftrightarrow> is_letter c \<or> is_digit c \<or> c \<in> set ''_+.''"

definition lvm_char :: "char \<Rightarrow> bool" where
  "lvm_char c \<longleftrightarrow> lvm_first c \<or> c = CHR ''-''"

definition name_match :: "string \<Rightarrow> bool" where
  "name_match s = (case s of [] \<Rightarrow> False | c # cs \<Rightarrow> lvm_first c \<and> list_all lvm_char cs)"

definition vgNameRegexp :: "string \<Rightarrow> bool" where "vgNameRegexp = name_match"
definition lvNameRegexp :: "string \<Rightarrow> bool" where "lvNameRegexp = name_match"
definition tagRegexp :: "string \<Rightarrow> bool" where "tagRegexp = name_match"

definition ValidateVolumeGroupName :: "string \<Rightarrow> goerr option" where
  "ValidateVolumeGroupName name =
     (if \<not> vgNameRegexp name
      then Some (Errorf ''lvm: Volume group name %q contains invalid character, valid set includes: [A-Za-z0-9_+.-]'' [name])
      else None)"

definition ValidateTag :: "string \<Rightarrow> goerr option" where
  "ValidateTag tag =
     (if 1024 < length tag
      then Some (Errorf ''lvm: Tag %q is too long, maximum length is 1024 characters'' [tag])
      else if \<not> tagRegexp tag
      then Some (Errorf ''lvm: Tag %q contains invalid character, valid set includes: [A-Za-z0-9_+.-]'' [tag])
      else None)"

definition ValidateLogicalVolumeName :: "string \<Rightarrow> goerr option" where
  "ValidateLogicalVolumeName name =
     (if \<not> lvNameRegexp name
      then Some (Errorf ''lvm: Logical volume name %q contains invalid character, valid set includes: [A-Za-z0-9_+.-]'' [name])
      else None)"

subsection \<open>Commands\<close>

definition run :: "string \<Rightarrow> string list \<Rightarrow> goerr option act" where
  "run cmd extraArgs = sys (Run cmd extraArgs None)"

definition lvm_bin :: string where "lvm_bin = ''/sbin/lvm''"

definition CreatePhysicalVolume :: "string \<Rightarrow> goerr option act" where
  "CreatePhysicalVolume dev =
     check (run lvm_bin [''pvcreate'', dev]) (Wrapf ''lvm: CreatePhysicalVolume: %w'' []) (ret None)"

definition PVScan :: "string \<Rightarrow> goerr option act" where
  "PVScan dev = run lvm_bin ([''pvscan'', ''--cache''] @ (if dev \<noteq> [] then [dev] else []))"

definition VGScan :: "string \<Rightarrow> goerr option act" where
  "VGScan name = run lvm_bin ([''vgscan'', ''--cache''] @ (if name \<noteq> [] then [name] else []))"

text \<open>The loop over tags: empty ones are skipped, an invalid one ends the function.\<close>

fun tag_args :: "string list \<Rightarrow> goerr + string list" where
  "tag_args [] = Inr []"
| "tag_args (tag # tags) =
     (if tag \<noteq> [] then
        (case ValidateTag tag of
           Some err \<Rightarrow> Inl err
         | None \<Rightarrow> (case tag_args tags of
               Inl err \<Rightarrow> Inl err
             | Inr as \<Rightarrow> Inr ((''--add-tag='' @ tag) # as)))
      else tag_args tags)"

text \<open>The result is the name inside the \<open>VolumeGroup\<close> the Go function returns.\<close>

definition CreateVolumeGroup :: "string \<Rightarrow> string list \<Rightarrow> string list \<Rightarrow> (goerr + string) act" where
  "CreateVolumeGroup name pvs tags =
     (case ValidateVolumeGroupName name of
        Some err \<Rightarrow> ret (Inl err)
      | None \<Rightarrow>
          (case tag_args tags of
             Inl err \<Rightarrow> ret (Inl err)
           | Inr as \<Rightarrow>
               bind (run lvm_bin ([''vgcreate''] @ as @ [name] @ pvs)) (\<lambda>e.
               case e of
                 Some err \<Rightarrow> ret (Inl err)
               | None \<Rightarrow>
                   andThen (ignore (PVScan []))
                  (andThen (ignore (VGScan []))
                  (ret (Inr name))))))"

definition isInsufficientSpace :: "goerr \<Rightarrow> bool" where
  "isInsufficientSpace err = Contains (ToLower (ErrorText err)) ''insufficient free space''"

definition isInsufficientDevices :: "goerr \<Rightarrow> bool" where
  "isInsufficientDevices err =
     Contains (ErrorText err) ''Insufficient suitable allocatable extents for logical volume''"

definition size_args :: "64 word \<Rightarrow> string list" where
  "size_args n = (if n = 0 then [''-l'', ''100%FREE''] else [''--size='' @ FormatUint (unat n) @ ''b''])"

definition CreateLogicalVolume ::
  "string \<Rightarrow> string \<Rightarrow> 64 word \<Rightarrow> string list \<Rightarrow> string list \<Rightarrow> goerr option act" where
  "CreateLogicalVolume vg name sizeInBytes tags opts =
     (case ValidateLogicalVolumeName name of
        Some err \<Rightarrow> ret (Some err)
      | None \<Rightarrow>
          (case tag_args tags of
             Inl err \<Rightarrow> ret (Some err)
           | Inr as \<Rightarrow>
               bind (run lvm_bin ([''lvcreate'', ''-Wy'', ''--yes''] @ as @ size_args sizeInBytes
                       @ [''--name='' @ name] @ [vg] @ opts)) (\<lambda>e.
               case e of
                 Some err \<Rightarrow>
                   if isInsufficientSpace err
                   then ret (Some (Errorf ''lvm: not enough free space'' []))
                   else if isInsufficientDevices err
                   then ret (Some (Errorf ''lvm: not enough underlying devices'' []))
                   else ret (Some err)
               | None \<Rightarrow> ret None)))"

definition DeactivateVolumeGroup :: "string \<Rightarrow> unit act" where
  "DeactivateVolumeGroup name = ignore (sys (Run lvm_bin [''vgchange'', ''-an'', name] None))"

definition RemoveVolumeGroup :: "string \<Rightarrow> unit act" where
  "RemoveVolumeGroup name = ignore (sys (Run lvm_bin [''vgremove'', ''-ff'', name] None))"

definition RemovePhysicalVolume :: "string \<Rightarrow> unit act" where
  "RemovePhysicalVolume dev = ignore (sys (Run lvm_bin [''pvremove'', ''-ff'', ''-y'', dev] None))"

subsection \<open>What validation promises\<close>

text \<open>
  The contract of a validator of command-line words: an accepted word is not empty, does
  not start with a hyphen, and consists of harmless characters.
\<close>

definition plain_char :: "char \<Rightarrow> bool" where
  "plain_char c \<longleftrightarrow> is_letter c \<or> is_digit c \<or> c \<in> set ''_+.-/''"

locale word_validator =
  fixes valid :: "string \<Rightarrow> bool"
  assumes valid_head: "valid s \<Longrightarrow> s \<noteq> [] \<and> hd s \<noteq> CHR ''-''"
    and valid_chars: "valid s \<Longrightarrow> c \<in> set s \<Longrightarrow> plain_char c"
begin

lemma not_option: "valid s \<Longrightarrow> \<not> HasPrefix s (CHR ''-'' # p)"
  using valid_head [of s] by (cases s) auto

lemma not_empty: "valid s \<Longrightarrow> s \<noteq> []"
  using valid_head by blast

lemma no_space: "valid s \<Longrightarrow> CHR '' '' \<notin> set s"
  using valid_chars [of s "CHR '' ''"] by (auto simp: plain_char_def is_letter_def is_digit_def)

end

lemma name_match_head: "name_match s \<Longrightarrow> s \<noteq> [] \<and> hd s \<noteq> CHR ''-''"
  by (auto simp: name_match_def lvm_first_def is_letter_def is_digit_def Let_def split: list.splits)

lemma name_match_chars: "name_match s \<Longrightarrow> c \<in> set s \<Longrightarrow> plain_char c"
  by (auto simp: name_match_def lvm_first_def lvm_char_def plain_char_def list_all_iff
      split: list.splits)

interpretation vgn: word_validator "\<lambda>s. ValidateVolumeGroupName s = None"
  by unfold_locales
    (auto simp: ValidateVolumeGroupName_def vgNameRegexp_def dest: name_match_head
      intro: name_match_chars split: if_splits)

interpretation lvn: word_validator "\<lambda>s. ValidateLogicalVolumeName s = None"
  by unfold_locales
    (auto simp: ValidateLogicalVolumeName_def lvNameRegexp_def dest: name_match_head
      intro: name_match_chars split: if_splits)

interpretation tagv: word_validator "\<lambda>s. ValidateTag s = None"
  by unfold_locales
    (auto simp: ValidateTag_def tagRegexp_def dest: name_match_head
      intro: name_match_chars split: if_splits)

lemma tag_args_valid: "\<forall>t\<in>set tags. ValidateTag t = None \<Longrightarrow> tag_args tags = Inr (map ((@) ''--add-tag='') tags)"
  by (induction tags) (use tagv.not_empty in auto)

lemma tag_args_shape: "tag_args tags = Inr as \<Longrightarrow> a \<in> set as \<Longrightarrow> HasPrefix a ''--add-tag=''"
  by (induction tags arbitrary: as) (auto split: if_splits option.splits sum.splits)

lemma tag_args_ok_iff:
  "(\<exists>as. tag_args tags = Inr as) \<longleftrightarrow> (\<forall>t\<in>set tags. t \<noteq> [] \<longrightarrow> ValidateTag t = None)"
  by (induction tags) (auto split: option.splits sum.splits)

subsection \<open>Which programs are run\<close>

definition is_run :: "string \<Rightarrow> call \<Rightarrow> bool" where
  "is_run p c = (case c of Run q _ _ \<Rightarrow> q = p | _ \<Rightarrow> False)"

lemma is_run_simps [simp]: "is_run p (Run q as i) \<longleftrightarrow> q = p"
  by (simp add: is_run_def)

lemma CreatePhysicalVolume_emits: "P (Run lvm_bin [''pvcreate'', dev] None) \<Longrightarrow> emits P (CreatePhysicalVolume dev)"
  by (auto simp: CreatePhysicalVolume_def run_def intro!: emits_intros)

lemma lvm_returns [returns_intros]:
  "returns (CreatePhysicalVolume dev)" "returns (CreateVolumeGroup n pvs ts)"
  "returns (CreateLogicalVolume v n s ts os)" "returns (DeactivateVolumeGroup n)"
  "returns (RemoveVolumeGroup n)" "returns (RemovePhysicalVolume dev)"
  by (auto simp: CreatePhysicalVolume_def CreateVolumeGroup_def CreateLogicalVolume_def run_def
      PVScan_def VGScan_def DeactivateVolumeGroup_def RemoveVolumeGroup_def RemovePhysicalVolume_def
      intro!: returns_intros split: option.splits sum.splits)

end
