(* ===== verification/StorageLvm.thy ===== *)
theory StorageLvm
  imports Lvm
begin

text \<open>
  The volume-group part of \<open>rootio/storage\<close> (file \<open>lvm.go\<close>): validating a volume group of
  the metadata, creating it with its volumes, and tearing all of them down.
\<close>

subsection \<open>Validation\<close>

fun validate_lvs :: "string \<Rightarrow> int \<Rightarrow> int \<Rightarrow> LogicalVolume list \<Rightarrow> goerr option" where
  "validate_lvs vg n i [] = None"
| "validate_lvs vg n i (lv # lvs) =
     (case ValidateLogicalVolumeName (lv_Name lv) of
        Some err \<Rightarrow> Some err
      | None \<Rightarrow>
          (case first_err ValidateTag (lv_Tags lv) of
             Some err \<Rightarrow> Some err
           | None \<Rightarrow>
               if lv_Size lv = 0 \<and> i \<noteq> n - 1
               then Some (Errorf ''lvm: logical volume %q has size=0 but is not last in volume group %q''
                      [lv_Name lv, vg])
               else validate_lvs vg n (i + 1) lvs))"

definition ValidateVolumeGroup :: "VolumeGroup \<Rightarrow> goerr option" where
  "ValidateVolumeGroup vg =
     (case ValidateVolumeGroupName (vg_Name vg) of
        Some err \<Rightarrow> Some err
      | None \<Rightarrow>
          if length (vg_PhysicalVolumes vg) = 0
          then Some (Errorf ''lvm: volume group %q has no physical volumes'' [vg_Name vg])
          else
            (case first_err (\<lambda>pv. if \<not> HasPrefix pv ''/''
                 then Some (Errorf ''lvm: physical volume %q must be an absolute device path'' [pv])
                 else None) (vg_PhysicalVolumes vg) of
               Some err \<Rightarrow> Some err
             | None \<Rightarrow>
                 (case first_err ValidateTag (vg_Tags vg) of
                    Some err \<Rightarrow> Some err
                  | None \<Rightarrow>
                      validate_lvs (vg_Name vg) (int (length (vg_LogicalVolumes vg))) 0
                        (vg_LogicalVolumes vg))))"

subsection \<open>Teardown and creation\<close>

definition TeardownVolumeGroups :: "VolumeGroup list \<Rightarrow> unit act" where
  "TeardownVolumeGroups vgs =
     andThen (for_each vgs (\<lambda>vg.
        andThen (DeactivateVolumeGroup (vg_Name vg)) (RemoveVolumeGroup (vg_Name vg))))
     (for_each vgs (\<lambda>vg. for_each (vg_PhysicalVolumes vg) RemovePhysicalVolume))"

definition storage_CreateVolumeGroup :: "VolumeGroup \<Rightarrow> goerr option act" where
  "storage_CreateVolumeGroup volumeGroup =
     (case ValidateVolumeGroup volumeGroup of
        Some err \<Rightarrow> ret (Some err)
      | None \<Rightarrow>
          check (for_err (vg_PhysicalVolumes volumeGroup) (\<lambda>p.
             check (CreatePhysicalVolume p) (Wrapf ''failed to create physical volume %s: %w'' [p])
             (ret None))) (\<lambda>err. err)
          (bind (CreateVolumeGroup (vg_Name volumeGroup) (vg_PhysicalVolumes volumeGroup) (vg_Tags volumeGroup))
           (\<lambda>r. case r of
              Inl err \<Rightarrow> ret (Some (Wrapf ''failed to create volume group %s: %w'' [vg_Name volumeGroup] err))
            | Inr vg \<Rightarrow>
                check (for_err (vg_LogicalVolumes volumeGroup) (\<lambda>lv.
                   check (CreateLogicalVolume vg (lv_Name lv) (lv_Size lv) (lv_Tags lv) (lv_Opts lv))
                     (Wrapf ''failed to create logical volume %s: %w'' [lv_Name lv])
                   (ret None))) (\<lambda>err. err)
                (ret None))))"

subsection \<open>Validation characterised\<close>

lemma validate_lvs_None:
  "n = i + int (length lvs) \<Longrightarrow> validate_lvs vg n i lvs = None \<longleftrightarrow>
     (\<forall>lv\<in>set lvs. ValidateLogicalVolumeName (lv_Name lv) = None
        \<and> (\<forall>t\<in>set (lv_Tags lv). ValidateTag t = None))
     \<and> (\<forall>lv\<in>set (butlast lvs). lv_Size lv \<noteq> 0)"
proof (induction lvs arbitrary: i)
  case Nil
  then show ?case by simp
next
  case (Cons lv lvs)
  have last: "i \<noteq> n - 1 \<longleftrightarrow> lvs \<noteq> []" using Cons.prems by auto
  have tags: "first_err ValidateTag (lv_Tags lv) = None \<longleftrightarrow> (\<forall>t\<in>set (lv_Tags lv). ValidateTag t = None)"
    by (rule first_err_None)
  have IH: "validate_lvs vg n (i + 1) lvs = None \<longleftrightarrow>
     (\<forall>lv\<in>set lvs. ValidateLogicalVolumeName (lv_Name lv) = None
        \<and> (\<forall>t\<in>set (lv_Tags lv). ValidateTag t = None))
     \<and> (\<forall>lv\<in>set (butlast lvs). lv_Size lv \<noteq> 0)"
    by (rule Cons.IH) (use Cons.prems in simp)
  have step: "validate_lvs vg n i (lv # lvs) = None \<longleftrightarrow>
      ValidateLogicalVolumeName (lv_Name lv) = None
      \<and> first_err ValidateTag (lv_Tags lv) = None
      \<and> \<not> (lv_Size lv = 0 \<and> i \<noteq> n - 1) \<and> validate_lvs vg n (i + 1) lvs = None"
    by simp
  show ?case unfolding step tags last IH by auto
qed

lemma tag_valid_iff: "ValidateTag t = None \<longleftrightarrow> name_match t \<and> length t \<le> 1024"
  by (auto simp: ValidateTag_def tagRegexp_def)

lemma vg_name_valid_iff: "ValidateVolumeGroupName s = None \<longleftrightarrow> name_match s"
  by (simp add: ValidateVolumeGroupName_def vgNameRegexp_def)

lemma lv_name_valid_iff: "ValidateLogicalVolumeName s = None \<longleftrightarrow> name_match s"
  by (simp add: ValidateLogicalVolumeName_def lvNameRegexp_def)

text \<open>
  A volume group is accepted exactly when its name, its tags and the names and tags
  of its logical volumes are valid, it has a physical volume, every physical volume is
  an absolute path, and a logical volume of size 0 (\<open>100%FREE\<close>) can only be the last.
\<close>

theorem ValidateVolumeGroup_iff:
  "ValidateVolumeGroup vg = None \<longleftrightarrow>
     name_match (vg_Name vg) \<and> vg_PhysicalVolumes vg \<noteq> []
     \<and> (\<forall>pv\<in>set (vg_PhysicalVolumes vg). IsAbs pv)
     \<and> (\<forall>t\<in>set (vg_Tags vg). name_match t \<and> length t \<le> 1024)
     \<and> (\<forall>lv\<in>set (vg_LogicalVolumes vg). name_match (lv_Name lv)
          \<and> (\<forall>t\<in>set (lv_Tags lv). name_match t \<and> length t \<le> 1024))
     \<and> (\<forall>lv\<in>set (butlast (vg_LogicalVolumes vg)). lv_Size lv \<noteq> 0)"
proof -
  have "ValidateVolumeGroup vg = None \<longleftrightarrow>
      ValidateVolumeGroupName (vg_Name vg) = None \<and> vg_PhysicalVolumes vg \<noteq> []
      \<and> (\<forall>pv\<in>set (vg_PhysicalVolumes vg). IsAbs pv)
      \<and> (\<forall>t\<in>set (vg_Tags vg). ValidateTag t = None)
      \<and> validate_lvs (vg_Name vg) (int (length (vg_LogicalVolumes vg))) 0 (vg_LogicalVolumes vg) = None"
    by (simp add: ValidateVolumeGroup_def IsAbs_def first_err_None)
  then show ?thesis
    by (simp add: validate_lvs_None tag_valid_iff vg_name_valid_iff lv_name_valid_iff)
qed

definition example_vg :: VolumeGroup where
  "example_vg = \<lparr>vg_Name = ''vg0'', vg_PhysicalVolumes = [''/dev/md0''],
     vg_LogicalVolumes =
       [\<lparr>lv_Name = ''swap'', lv_Size = 4294967296, lv_Tags = [], lv_Opts = []\<rparr>,
        \<lparr>lv_Name = ''root'', lv_Size = 0, lv_Tags = [''os''], lv_Opts = [''--type'', ''linear'']\<rparr>],
     vg_Tags = [''server'']\<rparr>"

theorem ValidateVolumeGroup_iff_witness: "ValidateVolumeGroup example_vg = None"
  by (subst ValidateVolumeGroup_iff)
    (simp add: example_vg_def IsAbs_def name_match_def lvm_first_def lvm_char_def is_letter_def is_digit_def)

subsection \<open>The commands of a teardown\<close>

definition teardown_calls :: "VolumeGroup list \<Rightarrow> call list" where
  "teardown_calls vgs =
     concat (map (\<lambda>vg. [Run lvm_bin [''vgchange'', ''-an'', vg_Name vg] None,
                       Run lvm_bin [''vgremove'', ''-ff'', vg_Name vg] None]) vgs) @
     concat (map (\<lambda>vg. map (\<lambda>pv. Run lvm_bin [''pvremove'', ''-ff'', ''-y'', pv] None)
                       (vg_PhysicalVolumes vg)) vgs)"

lemma for_each_every: "for_each xs (\<lambda>x. every [f x]) = every (map f xs)"
  using every_concat [of xs "\<lambda>x. [f x]"] by simp

lemma TeardownVolumeGroups_every: "TeardownVolumeGroups vgs = every (teardown_calls vgs)"
proof -
  have pair: "andThen (DeactivateVolumeGroup n) (RemoveVolumeGroup n) =
      every [Run lvm_bin [''vgchange'', ''-an'', n] None, Run lvm_bin [''vgremove'', ''-ff'', n] None]" for n
    by (simp add: fun_eq_iff DeactivateVolumeGroup_def RemoveVolumeGroup_def act_defs)
  have single: "RemovePhysicalVolume = (\<lambda>pv. every [Run lvm_bin [''pvremove'', ''-ff'', ''-y'', pv] None])"
    by (rule ext) (simp only: RemovePhysicalVolume_def every_single)
  show ?thesis
    by (simp only: TeardownVolumeGroups_def pair single for_each_every every_concat
        teardown_calls_def every_append)
qed

interpretation td: best_effort TeardownVolumeGroups teardown_calls
  by unfold_locales (rule TeardownVolumeGroups_every)

text \<open>
  A teardown always runs to its end, whatever fails, and all volume groups are
  deactivated and removed before the first physical-volume label is cleared.
\<close>

theorem TeardownVolumeGroups_run:
  "\<exists>rm pv. TeardownVolumeGroups vgs k t = (Ret (), t @ rm @ pv)
     \<and> rm = concat (map (\<lambda>vg. [Run lvm_bin [''vgchange'', ''-an'', vg_Name vg] None,
                              Run lvm_bin [''vgremove'', ''-ff'', vg_Name vg] None]) vgs)
     \<and> pv = map (\<lambda>d. Run lvm_bin [''pvremove'', ''-ff'', ''-y'', d] None) (concat (map vg_PhysicalVolumes vgs))"
  by (simp add: td.run teardown_calls_def map_concat comp_def)

subsection \<open>The commands of a creation\<close>

definition lvcreate_error :: "goerr \<Rightarrow> goerr" where
  "lvcreate_error err =
     (if isInsufficientSpace err then Errorf ''lvm: not enough free space'' []
      else if isInsufficientDevices err then Errorf ''lvm: not enough underlying devices'' []
      else err)"

definition pvcreate_steps :: "VolumeGroup \<Rightarrow> step list" where
  "pvcreate_steps vg = map (\<lambda>p. (Run lvm_bin [''pvcreate'', p] None,
      \<lambda>e. Wrapf ''failed to create physical volume %s: %w'' [p]
            (Wrapf ''lvm: CreatePhysicalVolume: %w'' [] e))) (vg_PhysicalVolumes vg)"

definition vgcreate_step :: "VolumeGroup \<Rightarrow> step" where
  "vgcreate_step vg =
     (Run lvm_bin ([''vgcreate''] @ map ((@) ''--add-tag='') (vg_Tags vg) @ [vg_Name vg]
        @ vg_PhysicalVolumes vg) None,
      Wrapf ''failed to create volume group %s: %w'' [vg_Name vg])"

definition scan_calls :: "call list" where
  "scan_calls = [Run lvm_bin [''pvscan'', ''--cache''] None, Run lvm_bin [''vgscan'', ''--cache''] None]"

definition lvcreate_steps :: "VolumeGroup \<Rightarrow> step list" where
  "lvcreate_steps vg = map (\<lambda>lv.
     (Run lvm_bin ([''lvcreate'', ''-Wy'', ''--yes''] @ map ((@) ''--add-tag='') (lv_Tags lv)
        @ size_args (lv_Size lv) @ [''--name='' @ lv_Name lv] @ [vg_Name vg] @ lv_Opts lv) None,
      \<lambda>e. Wrapf ''failed to create logical volume %s: %w'' [lv_Name lv] (lvcreate_error e)))
     (vg_LogicalVolumes vg)"

definition vg_calls :: "VolumeGroup \<Rightarrow> call list" where
  "vg_calls vg = map fst (pvcreate_steps vg @ [vgcreate_step vg]) @ scan_calls @ map fst (lvcreate_steps vg)"

lemma CreateLogicalVolume_valid:
  assumes "ValidateLogicalVolumeName n = None" and "\<forall>t\<in>set ts. ValidateTag t = None"
  shows "CreateLogicalVolume v n s ts os =
    script [(Run lvm_bin ([''lvcreate'', ''-Wy'', ''--yes''] @ map ((@) ''--add-tag='') ts
        @ size_args s @ [''--name='' @ n] @ [v] @ os) None, lvcreate_error)]"
  by (simp add: CreateLogicalVolume_def assms(1) tag_args_valid [OF assms(2)] run_def
      fun_eq_iff act_defs lvcreate_error_def split: option.splits)

lemma CreateVolumeGroup_valid:
  assumes "ValidateVolumeGroupName n = None" and "\<forall>t\<in>set ts. ValidateTag t = None"
  shows "bind (CreateVolumeGroup n pvs ts) (\<lambda>r. case r of Inl err \<Rightarrow> ret (Some (w err)) | Inr vg \<Rightarrow> f vg) =
    check (script [(Run lvm_bin ([''vgcreate''] @ map ((@) ''--add-tag='') ts @ [n] @ pvs) None, w)])
      (\<lambda>e. e) (andThen (every scan_calls) (f n))"
  by (simp add: CreateVolumeGroup_def assms(1) tag_args_valid [OF assms(2)] run_def PVScan_def
      VGScan_def scan_calls_def fun_eq_iff act_defs split: option.splits)

lemma for_err_cong: "(\<And>x. x \<in> set xs \<Longrightarrow> f x = g x) \<Longrightarrow> for_err xs f = for_err xs g"
  by (induction xs) auto

lemma script_singles: "for_err xs (\<lambda>x. script [f x]) = script (map f xs)"
  using script_concat [of xs "\<lambda>x. [f x]"] by simp

lemma valid_parts:
  assumes "ValidateVolumeGroup vg = None"
  shows "ValidateVolumeGroupName (vg_Name vg) = None" and "\<forall>t\<in>set (vg_Tags vg). ValidateTag t = None"
    and "lv \<in> set (vg_LogicalVolumes vg) \<Longrightarrow> ValidateLogicalVolumeName (lv_Name lv) = None"
    and "lv \<in> set (vg_LogicalVolumes vg) \<Longrightarrow> \<forall>t\<in>set (lv_Tags lv). ValidateTag t = None"
    and "pv \<in> set (vg_PhysicalVolumes vg) \<Longrightarrow> IsAbs pv"
  using assms
  by (simp_all add: ValidateVolumeGroup_def validate_lvs_None first_err_None IsAbs_def split: if_splits)

lemma storage_CreateVolumeGroup_valid:
  assumes v: "ValidateVolumeGroup vg = None"
  shows "storage_CreateVolumeGroup vg =
    check (script (pvcreate_steps vg @ [vgcreate_step vg])) (\<lambda>e. e)
      (andThen (every scan_calls) (script (lvcreate_steps vg)))"
proof -
  have lvs: "for_err (vg_LogicalVolumes vg) (\<lambda>lv.
       check (CreateLogicalVolume (vg_Name vg) (lv_Name lv) (lv_Size lv) (lv_Tags lv) (lv_Opts lv))
         (Wrapf ''failed to create logical volume %s: %w'' [lv_Name lv]) (ret None))
     = script (lvcreate_steps vg)"
    unfolding lvcreate_steps_def script_singles [symmetric]
    by (rule for_err_cong)
      (simp add: CreateLogicalVolume_valid valid_parts [OF v] fun_eq_iff act_defs split: option.splits)
  have pvs: "for_err (vg_PhysicalVolumes vg) (\<lambda>p. check (CreatePhysicalVolume p)
       (Wrapf ''failed to create physical volume %s: %w'' [p]) (ret None))
     = script (pvcreate_steps vg)"
    unfolding pvcreate_steps_def script_singles [symmetric]
    by (rule for_err_cong)
      (simp add: CreatePhysicalVolume_def run_def fun_eq_iff act_defs split: option.splits)
  show ?thesis
    by (simp add: storage_CreateVolumeGroup_def v pvs lvs
        CreateVolumeGroup_valid [OF valid_parts(1,2) [OF v]] script_append check_assoc
        vgcreate_step_def)
qed

lemma storage_CreateVolumeGroup_outcome:
  assumes None: "ValidateVolumeGroup vg = None"
  shows "prefix (snd (storage_CreateVolumeGroup vg k t)) (t @ vg_calls vg)
        \<and> (fst (storage_CreateVolumeGroup vg k t) = Ret None \<longleftrightarrow>
             all_ok k t (map fst (pvcreate_steps vg @ [vgcreate_step vg]))
             \<and> all_ok k (t @ map fst (pvcreate_steps vg @ [vgcreate_step vg]) @ scan_calls)
                 (map fst (lvcreate_steps vg)))
        \<and> (fst (storage_CreateVolumeGroup vg k t) = Ret None \<longrightarrow> snd (storage_CreateVolumeGroup vg k t) = t @ vg_calls vg)"
proof -
  let ?A = "pvcreate_steps vg @ [vgcreate_step vg]" and ?C = "lvcreate_steps vg"
  note run = storage_CreateVolumeGroup_valid [OF None]
  show ?thesis
  proof (cases "all_ok k t (map fst ?A)")
    case False
    from script_fail [OF this] obtain n err where
      "script ?A k t = (Ret (Some err), t @ take (Suc n) (map fst ?A))" by blast
    then have "storage_CreateVolumeGroup vg k t = (Ret (Some err), t @ take (Suc n) (map fst ?A))"
      by (simp only: run check_def bind_def) (simp add: ret_apply)
    moreover have "prefix (take (Suc n) (map fst ?A)) (vg_calls vg)"
      unfolding vg_calls_def by (rule prefix_prefix [OF take_is_prefix])
    ultimately show ?thesis using False
      by (simp only: fst_conv snd_conv same_prefix_prefix) simp
  next
    case True
    then have eq: "storage_CreateVolumeGroup vg k t = script ?C k (t @ map fst ?A @ scan_calls)"
      by (simp only: run check_def bind_def andThen_def script_ok every_run) simp
    show ?thesis
    proof (cases "all_ok k (t @ map fst ?A @ scan_calls) (map fst ?C)")
      case True
      with \<open>all_ok k t (map fst ?A)\<close> show ?thesis
        by (simp only: eq script_ok) (simp add: vg_calls_def)
    next
      case False
      from script_fail [OF this] obtain n err where
        "script ?C k (t @ map fst ?A @ scan_calls) =
          (Ret (Some err), (t @ map fst ?A @ scan_calls) @ take (Suc n) (map fst ?C))" by blast
      with False show ?thesis
        by (simp only: eq vg_calls_def fst_conv snd_conv append_assoc same_prefix_prefix)
          (simp add: take_is_prefix)
    qed
  qed
qed

lemma storage_CreateVolumeGroup_prefix:
  "ValidateVolumeGroup vg = None \<Longrightarrow> prefix (snd (storage_CreateVolumeGroup vg k t)) (t @ vg_calls vg)"
  using storage_CreateVolumeGroup_outcome by blast

lemma storage_CreateVolumeGroup_extends: "emits (\<lambda>c. True) (storage_CreateVolumeGroup vg)"
  by (auto simp: storage_CreateVolumeGroup_def CreatePhysicalVolume_def CreateVolumeGroup_def
      CreateLogicalVolume_def run_def PVScan_def VGScan_def intro!: emits_intros)

text \<open>
  C4: A volume group that does not validate is refused before any command runs.  One that
  validates is built by \<open>pvcreate\<close> on every physical volume, \<open>vgcreate\<close>, two scans whose
  errors do not count, and \<open>lvcreate\<close> for every logical volume in metadata order: whatever
  fails, the commands run are a prefix of these, and the operation succeeds exactly when
  all of them but the scans do.
\<close>

theorem storage_CreateVolumeGroup_run:
  "case ValidateVolumeGroup vg of
     Some err \<Rightarrow> storage_CreateVolumeGroup vg k t = (Ret (Some err), t)
   | None \<Rightarrow>
       let pre = map fst (pvcreate_steps vg @ [vgcreate_step vg])
       in prefix (snd (storage_CreateVolumeGroup vg k t)) (t @ vg_calls vg)
        \<and> (fst (storage_CreateVolumeGroup vg k t) = Ret None \<longleftrightarrow>
             all_ok k t pre \<and> all_ok k (t @ pre @ scan_calls) (map fst (lvcreate_steps vg)))
        \<and> (if fst (storage_CreateVolumeGroup vg k t) = Ret None
           then snd (storage_CreateVolumeGroup vg k t) = t @ vg_calls vg else True)"
proof (cases "ValidateVolumeGroup vg")
  case (Some err)
  then show ?thesis by (simp add: storage_CreateVolumeGroup_def ret_apply)
next
  case None
  from storage_CreateVolumeGroup_outcome [OF None, of k t] show ?thesis
    unfolding None option.case Let_def by (simp only: if_split) blast
qed

definition lvm_arg_ok :: "VolumeGroup \<Rightarrow> string \<Rightarrow> bool" where
  "lvm_arg_ok vg a \<longleftrightarrow>
     \<not> HasPrefix a ''-'' \<or> a \<in> {''--cache'', ''-Wy'', ''--yes'', ''-l''}
     \<or> HasPrefix a ''--add-tag='' \<or> HasPrefix a ''--size='' \<or> HasPrefix a ''--name=''
     \<or> (\<exists>lv\<in>set (vg_LogicalVolumes vg). a \<in> set (lv_Opts lv))"

definition lvm_command_ok :: "VolumeGroup \<Rightarrow> call \<Rightarrow> bool" where
  "lvm_command_ok vg c =
     (case c of
        Run p args inp \<Rightarrow> p = ''/sbin/lvm'' \<and> inp = None \<and> list_all (lvm_arg_ok vg) args
      | _ \<Rightarrow> False)"

lemma lvm_command_ok_Run [simp]:
  "lvm_command_ok vg (Run lvm_bin args None) = list_all (lvm_arg_ok vg) args"
  by (simp add: lvm_command_ok_def lvm_bin_def)

lemma abs_not_option: "IsAbs p \<Longrightarrow> \<not> HasPrefix p ''-''"
  by (cases p) (auto simp: IsAbs_def)

lemma lvm_args_ok:
  "lvm_arg_ok vg ''pvcreate''" "lvm_arg_ok vg ''vgcreate''" "lvm_arg_ok vg ''pvscan''"
  "lvm_arg_ok vg ''vgscan''" "lvm_arg_ok vg ''--cache''" "lvm_arg_ok vg ''lvcreate''"
  "lvm_arg_ok vg ''-Wy''" "lvm_arg_ok vg ''--yes''" "list_all (lvm_arg_ok vg) (size_args s)"
  "lvm_arg_ok vg (''--name='' @ n)" "list_all (lvm_arg_ok vg) (map ((@) ''--add-tag='') ts)"
  by (simp_all add: lvm_arg_ok_def size_args_def list_all_iff)

lemma lvm_opts_ok: "lv \<in> set (vg_LogicalVolumes vg) \<Longrightarrow> list_all (lvm_arg_ok vg) (lv_Opts lv)"
  unfolding lvm_arg_ok_def list_all_iff by blast

lemma vg_calls_ok:
  assumes "lvm_arg_ok vg (vg_Name vg)" and "\<forall>pv\<in>set (vg_PhysicalVolumes vg). lvm_arg_ok vg pv"
  shows "list_all (lvm_command_ok vg) (vg_calls vg)"
proof -
  have "list_all (lvm_command_ok vg) (map fst (pvcreate_steps vg))"
    using assms(2) by (simp add: pvcreate_steps_def list_all_iff lvm_args_ok)
  moreover have "lvm_command_ok vg (fst (vgcreate_step vg))"
    using assms by (simp add: vgcreate_step_def lvm_args_ok) (simp add: list_all_iff)
  moreover have "list_all (lvm_command_ok vg) scan_calls"
    by (simp add: scan_calls_def lvm_args_ok)
  moreover have "list_all (lvm_command_ok vg) (map fst (lvcreate_steps vg))"
    using assms(1) by (simp add: lvcreate_steps_def list_all_iff [of "lvm_command_ok vg"] lvm_args_ok
        lvm_args_ok(10) [unfolded append_Cons append_Nil] lvm_opts_ok)
  ultimately show ?thesis by (simp add: vg_calls_def)
qed


subsection \<open>The two explanations of a failed \<open>lvcreate\<close>\<close>

lemma lower_digit: "d < 10 \<Longrightarrow> lower_char (digit_char d) = digit_char d"
  by (simp add: lower_char_def digit_char_def Let_def)

lemma exit_text_chars:
  assumes "c \<in> set (ErrorText (ExitStatus n))"
  shows "c \<in> set ''exit status '' \<or> (\<exists>d<10. c = digit_char d)"
  using assms FormatUint_digits by auto

lemma digit_char_range: "d < 10 \<Longrightarrow> 48 \<le> (of_char (digit_char d) :: nat) \<and> (of_char (digit_char d) :: nat) \<le> 57"
  by (simp add: digit_char_def)

lemma Contains_set: "Contains s sub \<Longrightarrow> set sub \<subseteq> set s"
  by (auto simp: Contains_iff)

lemma exit_status_unexplained:
  "\<not> isInsufficientSpace (ExitStatus n)" "\<not> isInsufficientDevices (ExitStatus n)"
proof -
  have f: "CHR ''f'' \<notin> set (ToLower (ErrorText (ExitStatus n)))"
  proof
    assume "CHR ''f'' \<in> set (ToLower (ErrorText (ExitStatus n)))"
    then obtain c where c: "c \<in> set (ErrorText (ExitStatus n))" "lower_char c = CHR ''f''"
      unfolding ToLower_def set_map by (metis imageE)
    from exit_text_chars [OF c(1)] show False
    proof
      assume "c \<in> set ''exit status ''"
      then have "\<forall>x\<in>{c}. x \<in> set ''exit status ''" by simp
      then have "lower_char c \<in> lower_char ` set ''exit status ''" by blast
      with c(2) show False by (simp add: lower_char_def Let_def)
    next
      assume "\<exists>d<10. c = digit_char d"
      then obtain d where "d < 10" "c = digit_char d" by blast
      with c(2) lower_digit digit_char_range [of d] show False by auto
    qed
  qed
  then show "\<not> isInsufficientSpace (ExitStatus n)"
    using Contains_set unfolding isInsufficientSpace_def by fastforce
  have "CHR ''I'' \<notin> set (ErrorText (ExitStatus n))"
  proof
    assume "CHR ''I'' \<in> set (ErrorText (ExitStatus n))"
    from exit_text_chars [OF this] obtain d where d: "d < 10" "digit_char d = CHR ''I''"
      by auto
    from digit_char_range [OF d(1)] show False unfolding d(2) by simp
  qed
  then show "\<not> isInsufficientDevices (ExitStatus n)"
    using Contains_set unfolding isInsufficientDevices_def by fastforce
qed

text \<open>
  \<open>exec.Cmd.Run\<close> reports a program that ran and failed by its exit status only, since
  its output goes to the terminal.  So whenever the programs end with an exit status,
  \<open>CreateLogicalVolume\<close> never returns its ``not enough free space'' and ``not enough
  underlying devices'' errors.
\<close>

theorem CreateLogicalVolume_never_explains:
  "fst (CreateLogicalVolume vg name sz tags opts (k\<lparr>k_err := \<lambda>h c. map_option ExitStatus (st h c)\<rparr>) t)
     \<notin> {Ret (Some (Errorf ''lvm: not enough free space'' [])),
        Ret (Some (Errorf ''lvm: not enough underlying devices'' []))}"
proof -
  have tag: "tag_args ts = Inl err \<Longrightarrow> \<exists>tg. ValidateTag tg = Some err" for ts err
    by (induction ts) (auto split: if_splits option.splits sum.splits)
  have tag': "ValidateTag tg \<noteq> Some (Errorf ''lvm: not enough free space'' [])"
    "ValidateTag tg \<noteq> Some (Errorf ''lvm: not enough underlying devices'' [])" for tg
    by (simp_all add: ValidateTag_def)
  show ?thesis
  proof (cases "ValidateLogicalVolumeName name")
    case (Some e)
    then show ?thesis
      by (simp add: CreateLogicalVolume_def ret_apply ValidateLogicalVolumeName_def split: if_splits)
        auto
  next
    case None
    show ?thesis
    proof (cases "tag_args tags")
      case (Inl e)
      with None tag [of tags e] tag' show ?thesis
        by (auto simp: CreateLogicalVolume_def ret_apply)
    next
      case (Inr as)
      with None show ?thesis
        by (simp add: CreateLogicalVolume_def run_def act_defs exit_status_unexplained
            split: option.split)
    qed
  qed
qed

end
