(* ===== verification/Raid.thy ===== *)
theory Raid
  imports Lvm
begin

text \<open>
  Software RAID in \<open>rootio/storage\<close> (file \<open>raid.go\<close>): validation of an array of the
  metadata, the \<open>mdadm\<close> command lines, stopping arrays and clearing superblocks.
\<close>

subsection \<open>Validation\<close>

text \<open>
  The expression \<open>^(/dev/)?md([0-9]+|/[A-Za-z][A-Za-z0-9_.-]*)$\<close>.  The optional prefix
  and the fixed \<open>md\<close> start with different bytes, so there is only one way to match.
\<close>

definition raid_name_char :: "char \<Rightarrow> bool" where
  "raid_name_char c \<longleftrightarrow> is_letter c \<or> is_digit c \<or> c \<in> set ''_.-''"

definition md_suffix :: "string \<Rightarrow> bool" where
  "md_suffix s =
     ((s \<noteq> [] \<and> list_all is_digit s)
      \<or> (case s of
           c # d # r \<Rightarrow> c = CHR ''/'' \<and> is_letter d \<and> list_all raid_name_char r
         | _ \<Rightarrow> False))"

definition raidNameRegexp :: "string \<Rightarrow> bool" where
  "raidNameRegexp s =
     (let r = TrimPrefix s ''/dev/'' in HasPrefix r ''md'' \<and> md_suffix (drop 2 r))"

definition validLevels :: "string \<Rightarrow> nat option" where
  "validLevels = map_of [(''0'', 2), (''1'', 2), (''4'', 3), (''5'', 3), (''6'', 4), (''10'', 4), (''linear'', 2)]"

definition ValidateRAID :: "RAID \<Rightarrow> goerr option" where
  "ValidateRAID r =
     (if raid_Name r = [] then Some (Errorf ''raid: name is required'' [])
      else if \<not> raidNameRegexp (raid_Name r)
      then Some (Errorf ''raid: invalid name %q (expected mdX or /dev/mdX)'' [raid_Name r])
      else if raid_Level r = [] then Some (Errorf ''raid: level is required'' [])
      else (case validLevels (raid_Level r) of
          None \<Rightarrow> Some (Errorf ''raid: unsupported level %q'' [raid_Level r])
        | Some minDevs \<Rightarrow>
            if length (raid_Devices r) < minDevs
            then Some (Errorf ''raid: level %s requires at least %d devices, got %d''
                   [raid_Level r, FormatUint minDevs, FormatUint (length (raid_Devices r))])
            else None))"

definition normalizeRAIDDevice :: "string \<Rightarrow> string" where
  "normalizeRAIDDevice name = (if HasPrefix name ''/dev/'' then name else ''/dev/'' @ name)"

subsection \<open>Commands\<close>

definition BuildMdadmCreateArgs :: "RAID \<Rightarrow> string list" where
  "BuildMdadmCreateArgs r =
     [''--create'', normalizeRAIDDevice (raid_Name r), ''--metadata=1.2'',
      ''--level='' @ raid_Level r,
      ''--raid-devices='' @ FormatUint (length (raid_Devices r))]
     @ (if raid_Spare r \<noteq> [] then [''--spare-devices='' @ FormatUint (length (raid_Spare r))] else [])
     @ [''--run'', ''--force''] @ raid_Devices r @ raid_Spare r"

definition mdadm_bin :: string where "mdadm_bin = ''/sbin/mdadm''"

definition runMdadm :: "string list \<Rightarrow> goerr option act" where
  "runMdadm args =
     check (sys (Run mdadm_bin args None)) (Wrapf ''mdadm %s: %w'' [Join args '' '']) (ret None)"

definition CreateRAID :: "RAID \<Rightarrow> goerr option act" where
  "CreateRAID r =
     (case ValidateRAID r of
        Some err \<Rightarrow> ret (Some err)
      | None \<Rightarrow>
          let dev = normalizeRAIDDevice (raid_Name r) in
          if HasPrefix dev ''/dev/md/''
          then check (sys (MkdirAll ''/dev/md'' mode_0755)) (Wrapf ''raid: could not create /dev/md: %w'' [])
              (runMdadm (BuildMdadmCreateArgs r))
          else runMdadm (BuildMdadmCreateArgs r))"

text \<open>The mount points that \<open>/proc/mounts\<close> lists for a device, in file order.\<close>

fun mount_points :: "string \<Rightarrow> string list \<Rightarrow> string list" where
  "mount_points dev [] = []"
| "mount_points dev (line # lines) =
     (let fields = Fields line in
      if length fields < 2 \<or> fields ! 0 \<noteq> dev then mount_points dev lines
      else fields ! 1 # mount_points dev lines)"

definition forceUnmount :: "string \<Rightarrow> unit act" where
  "forceUnmount dev =
     bind (sys_read ''/proc/mounts'') (\<lambda>r.
     case r of
       Inl err \<Rightarrow> ret ()
     | Inr data \<Rightarrow>
         for_each (mount_points dev (Split data NL)) (\<lambda>mp.
           ignore (sys (Unmount mp (MNT_FORCE OR MNT_DETACH)))))"

definition StopRAID :: "string \<Rightarrow> goerr option act" where
  "StopRAID name =
     (let dev = normalizeRAIDDevice name in
      bind (sys_stat dev) (\<lambda>st.
      if missing st then ret None
      else andThen (forceUnmount dev) (runMdadm [''--stop'', dev])))"

definition ZeroSuperblock :: "string \<Rightarrow> goerr option act" where
  "ZeroSuperblock device =
     bind (sys_stat device) (\<lambda>st.
     if missing st then ret None
     else andThen (ignore (sys (Run mdadm_bin [''--zero-superblock'', device] None))) (ret None))"

subsection \<open>What is accepted\<close>

lemma raid_name_nonempty: "raidNameRegexp s \<Longrightarrow> s \<noteq> []"
  by (auto simp: raidNameRegexp_def TrimPrefix_def)

lemma validLevels_Nil: "validLevels [] = None"
  by (simp add: validLevels_def)

lemma ValidateRAID_None:
  "ValidateRAID r = None \<longleftrightarrow>
     raidNameRegexp (raid_Name r) \<and> (\<exists>m. validLevels (raid_Level r) = Some m \<and> m \<le> length (raid_Devices r))"
  using raid_name_nonempty
  by (auto simp: ValidateRAID_def validLevels_Nil not_less split: option.splits)

lemma md_suffix_chars: "md_suffix s \<Longrightarrow> c \<in> set s \<Longrightarrow> plain_char c"
  by (auto simp: md_suffix_def plain_char_def raid_name_char_def list_all_iff split: list.splits)

lemma raid_name_shape:
  assumes "raidNameRegexp s"
  shows "\<exists>pre r. s = pre @ ''md'' @ r \<and> md_suffix r \<and> (pre = [] \<or> pre = ''/dev/'')"
proof -
  let ?r = "TrimPrefix s ''/dev/''"
  from assms obtain t where "?r = ''md'' @ t" and "md_suffix t"
    by (auto simp: raidNameRegexp_def Let_def HasPrefix_iff)
  moreover have "s = (if HasPrefix s ''/dev/'' then ''/dev/'' else []) @ ?r"
    by (auto simp: TrimPrefix_def dest!: HasPrefix_drop)
  ultimately show ?thesis
    by (intro exI [of _ "if HasPrefix s ''/dev/'' then ''/dev/'' else []"] exI [of _ t]) auto
qed

interpretation rdn: word_validator raidNameRegexp
proof
  fix s c
  assume s: "raidNameRegexp s"
  from raid_name_shape [OF s] obtain pre r where
    eq: "s = pre @ ''md'' @ r" "md_suffix r" "pre = [] \<or> pre = ''/dev/''" by blast
  then show "s \<noteq> [] \<and> hd s \<noteq> CHR ''-''" by (elim disjE) simp_all
  assume "c \<in> set s"
  then have "c \<in> set ''/dev/md'' \<or> c \<in> set r" using eq(1,3) by (elim disjE) simp_all
  moreover have "\<forall>x\<in>set ''/dev/md''. plain_char x" by (simp add: plain_char_def is_letter_def)
  ultimately show "plain_char c" using md_suffix_chars [OF eq(2)] by blast
qed

lemma normalize_abs: "HasPrefix (normalizeRAIDDevice n) ''/dev/''"
  by (simp add: normalizeRAIDDevice_def)

lemma normalize_idem: "normalizeRAIDDevice (normalizeRAIDDevice n) = normalizeRAIDDevice n"
  by (simp add: normalizeRAIDDevice_def)

lemma normalize_device:
  assumes "raidNameRegexp n"
  shows "HasPrefix (normalizeRAIDDevice n) ''/dev/md''"
  using raid_name_shape [OF assms] by (auto simp: normalizeRAIDDevice_def)

subsection \<open>Command lines\<close>

text \<open>
  How \<open>mdadm\<close> reads its words: the value of an \<open>--option=\<close> word is what follows the
  equals sign of the first such word, and the member devices follow \<open>--force\<close>.
\<close>

fun flag_value :: "string \<Rightarrow> string list \<Rightarrow> string option" where
  "flag_value f [] = None"
| "flag_value f (a # as) = (if HasPrefix a f then Some (drop (length f) a) else flag_value f as)"

definition members :: "string list \<Rightarrow> string list" where
  "members args = drop 1 (dropWhile (\<lambda>a. a \<noteq> ''--force'') args)"

definition flags :: "string list \<Rightarrow> string list" where
  "flags args = takeWhile (\<lambda>a. a \<noteq> ''--force'') args"

lemma flag_heads:
  "HasPrefix (normalizeRAIDDevice n) ''--x'' = False" "normalizeRAIDDevice n \<noteq> ''--force''"
  "\<not> HasPrefix (normalizeRAIDDevice n) (CHR ''-'' # f)"
  by (auto simp: normalizeRAIDDevice_def HasPrefix_iff)

lemma BuildMdadmCreateArgs_split:
  "flags (BuildMdadmCreateArgs r) =
     [''--create'', normalizeRAIDDevice (raid_Name r), ''--metadata=1.2'', ''--level='' @ raid_Level r,
      ''--raid-devices='' @ FormatUint (length (raid_Devices r))]
     @ (if raid_Spare r \<noteq> [] then [''--spare-devices='' @ FormatUint (length (raid_Spare r))] else [])
     @ [''--run'']"
  "members (BuildMdadmCreateArgs r) = raid_Devices r @ raid_Spare r"
  by (simp_all add: BuildMdadmCreateArgs_def flags_def members_def flag_heads)

text \<open>
  The command line that creates an array is consistent: the member devices are the
  data devices followed by the spares, the two announced counts read back as their
  numbers (no count of spares when there are none), and the level is the requested one.
\<close>

theorem BuildMdadmCreateArgs_consistent:
  assumes "length (raid_Devices r) < 2 ^ 63" and "length (raid_Spare r) < 2 ^ 63"
  defines "args \<equiv> BuildMdadmCreateArgs r"
  shows "members args = raid_Devices r @ raid_Spare r
    \<and> map_option Atoi (flag_value ''--raid-devices='' (flags args)) = Some (Some (int (length (raid_Devices r))))
    \<and> map_option Atoi (flag_value ''--spare-devices='' (flags args)) =
        (if raid_Spare r = [] then None else Some (Some (int (length (raid_Spare r)))))
    \<and> flag_value ''--level='' (flags args) = Some (raid_Level r)"
  using assms(1,2)
  by (simp add: args_def BuildMdadmCreateArgs_split flag_heads Atoi_FormatUint)

definition example_raid :: RAID where
  "example_raid = \<lparr>raid_Name = ''md1'', raid_Level = ''5'',
     raid_Devices = [''/dev/sdb1'', ''/dev/sdc1'', ''/dev/sdd1''], raid_Spare = [''/dev/sde1'']\<rparr>"

theorem BuildMdadmCreateArgs_consistent_witness:
  "members (BuildMdadmCreateArgs example_raid) = [''/dev/sdb1'', ''/dev/sdc1'', ''/dev/sdd1'', ''/dev/sde1'']"
  using BuildMdadmCreateArgs_consistent [of example_raid] by (simp add: example_raid_def)

definition raid_command_ok :: "RAID \<Rightarrow> call \<Rightarrow> bool" where
  "raid_command_ok r c =
     (case c of
        MkdirAll p m \<Rightarrow> p = ''/dev/md'' \<and> m = mode_0755
      | Run p args inp \<Rightarrow>
          p = ''/sbin/mdadm'' \<and> args = BuildMdadmCreateArgs r \<and> HasPrefix (args ! 1) ''/dev/md''
          \<and> (\<exists>m. validLevels (raid_Level r) = Some m \<and> 2 \<le> m \<and> m \<le> length (raid_Devices r))
      | _ \<Rightarrow> False)"

lemma validLevels_min: "validLevels l = Some m \<Longrightarrow> 2 \<le> m"
  by (auto simp: validLevels_def split: if_splits)

text \<open>
  \<open>CreateRAID\<close> runs \<open>mdadm --create\<close> only on a device below \<open>/dev/md\<close>, with a
  supported level and at least as many data devices as the level needs; the only other
  call is the directory for named arrays.
\<close>

theorem CreateRAID_commands_ok: "emits (raid_command_ok r) (CreateRAID r)"
proof (cases "ValidateRAID r")
  case (Some err)
  then show ?thesis by (simp add: CreateRAID_def emits_ret)
next
  case None
  then have v: "raidNameRegexp (raid_Name r)"
      "\<exists>m. validLevels (raid_Level r) = Some m \<and> m \<le> length (raid_Devices r)"
    by (simp_all add: ValidateRAID_None)
  have arg1: "BuildMdadmCreateArgs r ! 1 = normalizeRAIDDevice (raid_Name r)"
    by (simp add: BuildMdadmCreateArgs_def)
  have "raid_command_ok r (Run mdadm_bin (BuildMdadmCreateArgs r) None)"
    using v normalize_device [OF v(1)] validLevels_min
    by (simp add: raid_command_ok_def mdadm_bin_def arg1 [simplified]) blast
  moreover have "raid_command_ok r (MkdirAll ''/dev/md'' mode_0755)"
    by (simp add: raid_command_ok_def)
  ultimately show ?thesis
    by (auto simp: CreateRAID_def None Let_def runMdadm_def intro!: emits_intros)
qed

subsection \<open>Stopping an array\<close>

lemma mount_points_iff:
  "mp \<in> set (mount_points dev lines) \<longleftrightarrow> (\<exists>line\<in>set lines. \<exists>rest. Fields line = dev # mp # rest)"
proof (induction lines)
  case (Cons line lines)
  show ?case
  proof (cases "\<exists>m r. Fields line = dev # m # r")
    case True
    then obtain m r where "Fields line = dev # m # r" by blast
    with Cons.IH show ?thesis by (auto simp: Let_def)
  next
    case False
    then have "length (Fields line) < 2 \<or> Fields line ! 0 \<noteq> dev"
      by (cases "Fields line"; cases "tl (Fields line)") auto
    with False Cons.IH show ?thesis by (auto simp: Let_def)
  qed
qed simp

definition unmount_calls :: "string \<Rightarrow> goerr + string \<Rightarrow> call list" where
  "unmount_calls dev r = (case r of
       Inl err \<Rightarrow> []
     | Inr data \<Rightarrow> map (\<lambda>mp. Unmount mp (MNT_FORCE OR MNT_DETACH)) (mount_points dev (Split data NL)))"

lemma unmounts_every:
  "for_each mps (\<lambda>mp. ignore (sys (Unmount mp fl))) = every (map (\<lambda>mp. Unmount mp fl) mps)"
  using every_concat [of mps "\<lambda>mp. [Unmount mp fl]"] by (simp add: every_single del: every.simps)

lemma forceUnmount_run:
  "forceUnmount dev k t =
     (Ret (), t @ ReadFile ''/proc/mounts'' # unmount_calls dev (k_read k t ''/proc/mounts''))"
  by (auto simp: forceUnmount_def sys_read_def bind_def unmounts_every every_run unmount_calls_def
      ret_apply split: sum.split)

text \<open>
  Stopping an array that is not there does nothing but look for it.  Otherwise every
  mount point that \<open>/proc/mounts\<close> lists for exactly this device is force-unmounted, in file
  order and whatever the answers, before \<open>mdadm --stop\<close> runs.
\<close>

theorem StopRAID_calls:
  "snd (StopRAID name k t) =
     (let dev = normalizeRAIDDevice name in
      if missing (k_stat k t dev) then t @ [Stat dev]
      else t @ [Stat dev, ReadFile ''/proc/mounts'']
        @ unmount_calls dev (k_read k (t @ [Stat dev]) ''/proc/mounts'')
        @ [Run ''/sbin/mdadm'' [''--stop'', dev] None])"
  by (auto simp: StopRAID_def Let_def bind_def sys_stat_def andThen_def forceUnmount_run
      runMdadm_def mdadm_bin_def check_def sys_def ret_apply split: option.split)

lemma raid_returns [returns_intros]:
  "returns (CreateRAID r)" "returns (StopRAID n)" "returns (ZeroSuperblock d)" "returns (forceUnmount d)"
  by (auto simp: CreateRAID_def StopRAID_def ZeroSuperblock_def forceUnmount_def runMdadm_def Let_def
      intro!: returns_intros)

end
