(* ===== verification/Partitioning.thy ===== *)
theory Partitioning
  imports Metadata "HOL-Library.Signed_Division"
begin

text \<open>
  Partition tables in \<open>rootio/storage\<close> (file \<open>partition.go\<close>): checking the block device,
  looking at the disk, and laying out and writing a GPT or an MBR table.  Sector numbers
  keep their width: 64 bits for GPT, 32 bits for MBR, with Go's wrap-around.
\<close>

definition sectorSize :: nat where "sectorSize = 512"

subsection \<open>The device\<close>

definition isBlockDevice :: "32 word \<Rightarrow> bool" where
  "isBlockDevice mode \<longleftrightarrow> (mode AND S_IFMT) = S_IFBLK"

text \<open>
  An error of \<open>os.Stat\<close> other than ``does not exist'' leaves the file information nil,
  and reading the mode through it panics.
\<close>

definition VerifyBlockDevice :: "string \<Rightarrow> goerr option act" where
  "VerifyBlockDevice device =
     bind (sys_stat device) (\<lambda>d.
     if missing d then ret (Some (Errorf ''%s does not exist'' [device]))
     else case d of
         Inl err \<Rightarrow> panic ''invalid memory address or nil pointer dereference''
       | Inr mode \<Rightarrow>
           if \<not> isBlockDevice mode then ret (Some (Errorf ''%s is not a block device'' [device]))
           else ret None)"

definition ExamineDisk :: "Disk \<Rightarrow> goerr option act" where
  "ExamineDisk d =
     (let dev = disk_Device d in
      bind (sys_disk dev) (\<lambda>disk.
      case disk of
        Inl err \<Rightarrow> ret (Some err)
      | Inr bytes \<Rightarrow>
          check (sys (DiskGetTable dev)) (\<lambda>err. err)
         (check (sys (Sync dev)) (\<lambda>err. err)
         (check (sys (Close dev)) (\<lambda>err. err)
         (ret None)))))"

subsection \<open>Laying out a GPT\<close>

text \<open>The number of sectors of a disk: Go's \<open>/\<close> on \<open>int64\<close> truncates towards zero.\<close>

definition disk_sectors :: "64 word \<Rightarrow> 64 word" where
  "disk_sectors bytes = word_of_int (sint bytes sdiv int sectorSize)"

definition gpt_type_of :: "string \<Rightarrow> gpt_type" where
  "gpt_type_of label =
     (if label = ''SWAP'' then LinuxSwap
      else if label = ''BIOS'' then BIOSBoot
      else if label = ''EFI'' then EFISystemPartition
      else LinuxFilesystem)"

text \<open>
  The loop over the metadata's partitions with its two variables, the next partition
  number and the next start sector.  Entries with another number are passed over.
\<close>

fun gpt_loop :: "64 word \<Rightarrow> int \<Rightarrow> 64 word \<Rightarrow> Partition list \<Rightarrow> gpt_partition list" where
  "gpt_loop bytes partitionNumber sectorStart [] = []"
| "gpt_loop bytes partitionNumber sectorStart (p # ps) =
     (let sectorEnd = sectorStart + part_Size p in
      if part_Number p = partitionNumber then
        \<lparr>gpt_Name = part_Label p,
         gpt_Start = sectorStart,
         gpt_End = (if part_Size p = 0 then disk_sectors bytes - 2048 else sectorEnd),
         gpt_Type = gpt_type_of (part_Label p)\<rparr>
        # gpt_loop bytes (partitionNumber + 1) (sectorEnd + 1) ps
      else gpt_loop bytes partitionNumber sectorStart ps)"

definition gpt_layout :: "64 word \<times> Partition list \<Rightarrow> gpt_partition list" where
  "gpt_layout = (\<lambda>(bytes, ps). gpt_loop bytes 1 2048 ps)"

definition Partition :: "Disk \<Rightarrow> goerr option act" where
  "Partition d =
     (let dev = disk_Device d in
      bind (sys_disk dev) (\<lambda>disk.
      case disk of
        Inl err \<Rightarrow> ret (Some err)
      | Inr bytes \<Rightarrow>
          check (sys (DiskPartition dev (GPT True sectorSize (gpt_layout (bytes, disk_Partitions d))))) (\<lambda>err. err)
         (check (sys (Sync dev)) (\<lambda>err. err)
         (check (sys (Close dev)) (\<lambda>err. err)
         (ret None)))))"

subsection \<open>Laying out an MBR\<close>

definition mbr_kind :: "string \<Rightarrow> mbr_type \<times> bool" where
  "mbr_kind label =
     (if label = ''SWAP'' then (MbrType 0x82, False)
      else if label = ''LINUX'' then (MbrLinux, False)
      else if label = ''LINUX_ACTIVE'' then (MbrLinux, True)
      else if label = ''FAT32'' then (MbrFat32LBA, False)
      else if label = ''FAT32_ACTIVE'' then (MbrFat32LBA, True)
      else (MbrLinux, False))"

fun mbr_loop :: "64 word \<Rightarrow> int \<Rightarrow> 32 word \<Rightarrow> Partition list \<Rightarrow> mbr_partition list" where
  "mbr_loop bytes partitionNumber sectorStart [] = []"
| "mbr_loop bytes partitionNumber sectorStart (p # ps) =
     (let remainingSectors = disk_sectors bytes - ucast sectorStart in
      if part_Number p = partitionNumber then
        \<lparr>mbr_Bootable = snd (mbr_kind (part_Label p)),
         mbr_Type = fst (mbr_kind (part_Label p)),
         mbr_Start = sectorStart,
         mbr_Size = (if part_Size p = 0 then ucast remainingSectors else ucast (part_Size p))\<rparr>
        # mbr_loop bytes (partitionNumber + 1) (sectorStart + ucast (part_Size p)) ps
      else mbr_loop bytes partitionNumber sectorStart ps)"

definition mbr_layout :: "64 word \<times> Partition list \<Rightarrow> mbr_partition list" where
  "mbr_layout = (\<lambda>(bytes, ps). mbr_loop bytes 1 2048 ps)"

definition MBRPartition :: "Disk \<Rightarrow> goerr option act" where
  "MBRPartition d =
     (let dev = disk_Device d in
      bind (sys_disk dev) (\<lambda>disk.
      case disk of
        Inl err \<Rightarrow> ret (Some err)
      | Inr bytes \<Rightarrow>
          check (sys (DiskPartition dev (MBR sectorSize (mbr_layout (bytes, disk_Partitions d))))) (\<lambda>err. err)
         (check (sys (Sync dev)) (\<lambda>err. err)
         (check (sys (Close dev)) (\<lambda>err. err)
         (ret None)))))"

subsection \<open>The contract of a sequential layout\<close>

text \<open>
  \<open>chained start stop s ps\<close>: the regions \<open>[start, stop)\<close> lie end to end from sector \<open>s\<close>
  on, and none but the last is empty.  Both table formats promise it.
\<close>

fun chained :: "('p \<Rightarrow> nat) \<Rightarrow> ('p \<Rightarrow> nat) \<Rightarrow> nat \<Rightarrow> 'p list \<Rightarrow> bool" where
  "chained start stop s [] = True"
| "chained start stop s [p] = (start p = s)"
| "chained start stop s (p # q # ps) =
     (start p = s \<and> start p < stop p \<and> chained start stop (stop p) (q # ps))"

lemma chained_bounds: "chained start stop s ps \<Longrightarrow> p \<in> set ps \<Longrightarrow> s \<le> start p"
  by (induction start stop s ps rule: chained.induct) force+

lemma chained_sorted: "chained start stop s ps \<Longrightarrow> sorted_wrt (\<lambda>p q. stop p \<le> start q) ps"
proof (induction start stop s ps rule: chained.induct)
  case (3 start stop s p q ps)
  then have "\<forall>r\<in>set (q # ps). stop p \<le> start r"
    using chained_bounds [of start stop "stop p" "q # ps"] by auto
  with 3 show ?case by simp
qed auto

locale seq_layout =
  fixes start :: "'p \<Rightarrow> nat" and stop :: "'p \<Rightarrow> nat"
    and layout :: "'d \<Rightarrow> 'p list" and good :: "'d \<Rightarrow> bool"
  assumes layout_chained: "good d \<Longrightarrow> chained start stop 2048 (layout d)"
begin

lemma reserved: "good d \<Longrightarrow> p \<in> set (layout d) \<Longrightarrow> 2048 \<le> start p"
  using chained_bounds [OF layout_chained] .

lemma disjoint: "good d \<Longrightarrow> i < j \<Longrightarrow> j < length (layout d) \<Longrightarrow> stop (layout d ! i) \<le> start (layout d ! j)"
  using chained_sorted [OF layout_chained] by (simp add: sorted_wrt_iff_nth_less)

end

subsection \<open>Both layouts are sequential\<close>

text \<open>The entries a layout takes: those numbered 1, 2, 3 and so on, in metadata order.\<close>

fun accepted :: "int \<Rightarrow> Partition list \<Rightarrow> Partition list" where
  "accepted n [] = []"
| "accepted n (p # ps) = (if part_Number p = n then p # accepted (n + 1) ps else accepted n ps)"

lemma accepted_numbers: "map part_Number (accepted n ps) = map (\<lambda>i. n + int i) [0..<length (accepted n ps)]"
proof (induction ps arbitrary: n)
  case (Cons p ps)
  then show ?case
    by (auto simp: upt_conv_Cons map_Suc_upt [symmetric] simp del: upt_Suc)
qed simp

lemma accepted_subseq: "subseq (accepted n ps) ps"
  by (induction ps arbitrary: n) auto

lemma gpt_loop_length: "length (gpt_loop b n s ps) = length (accepted n ps)"
  by (induction ps arbitrary: n s) (auto simp: Let_def)

lemma mbr_loop_length: "length (mbr_loop b n s ps) = length (accepted n ps)"
  by (induction ps arbitrary: n s) (auto simp: Let_def)

definition fill_last :: "Partition list \<Rightarrow> bool" where
  "fill_last ps \<longleftrightarrow> (\<forall>p\<in>set (butlast ps). part_Size p \<noteq> 0)"

definition gpt_start :: "gpt_partition \<Rightarrow> nat" where "gpt_start p = unat (gpt_Start p)"
definition gpt_stop :: "gpt_partition \<Rightarrow> nat" where "gpt_stop p = unat (gpt_End p) + 1"
definition mbr_start :: "mbr_partition \<Rightarrow> nat" where "mbr_start p = unat (mbr_Start p)"
definition mbr_stop :: "mbr_partition \<Rightarrow> nat" where "mbr_stop p = unat (mbr_Start p) + unat (mbr_Size p)"

lemma region_sel [simp]:
  "gpt_start \<lparr>gpt_Name = l, gpt_Start = s, gpt_End = e, gpt_Type = t\<rparr> = unat s"
  "gpt_stop \<lparr>gpt_Name = l, gpt_Start = s, gpt_End = e, gpt_Type = t\<rparr> = unat e + 1"
  "mbr_start \<lparr>mbr_Bootable = b, mbr_Type = m, mbr_Start = a, mbr_Size = z\<rparr> = unat a"
  "mbr_stop \<lparr>mbr_Bootable = b, mbr_Type = m, mbr_Start = a, mbr_Size = z\<rparr> = unat a + unat z"
  by (simp_all add: gpt_start_def gpt_stop_def mbr_start_def mbr_stop_def)

text \<open>
  The metadata a layout can serve: only the last entry taken may ask for the rest of the
  disk, the sectors asked for do not overflow the width of the table's sector numbers,
  and in an MBR every size fits 32 bits.
\<close>

definition gpt_good :: "64 word \<times> Partition list \<Rightarrow> bool" where
  "gpt_good = (\<lambda>(bytes, ps). fill_last (accepted 1 ps)
     \<and> 2048 + (\<Sum>p\<leftarrow>accepted 1 ps. unat (part_Size p) + 1) < 2 ^ 64)"

definition mbr_good :: "64 word \<times> Partition list \<Rightarrow> bool" where
  "mbr_good = (\<lambda>(bytes, ps). fill_last (accepted 1 ps)
     \<and> 2048 + (\<Sum>p\<leftarrow>accepted 1 ps. unat (part_Size p)) < 2 ^ 32)"

lemma unat_plus_small: "unat (a :: 'a::len word) + unat b < 2 ^ LENGTH('a) \<Longrightarrow> unat (a + b) = unat a + unat b"
  by (simp add: unat_word_ariths)

lemma gpt_loop_chained:
  "fill_last (accepted n ps) \<Longrightarrow>
   unat s + (\<Sum>p\<leftarrow>accepted n ps. unat (part_Size p) + 1) < 2 ^ 64 \<Longrightarrow>
   chained gpt_start gpt_stop (unat s) (gpt_loop b n s ps)"
proof (induction ps arbitrary: n s)
  case Nil
  then show ?case by simp
next
  case (Cons p ps)
  show ?case
  proof (cases "part_Number p = n")
    case False
    with Cons show ?thesis by simp
  next
    case True
    let ?e = "s + part_Size p" and ?rest = "gpt_loop b (n + 1) (s + part_Size p + 1) ps"
    from Cons.prems(2) True have room: "unat s + unat (part_Size p) + 1
        + (\<Sum>p\<leftarrow>accepted (n + 1) ps. unat (part_Size p) + 1) < 2 ^ 64" by simp
    then have e: "unat ?e = unat s + unat (part_Size p)" by (intro unat_plus_small) simp
    with room have e1: "unat (?e + 1) = unat ?e + 1" by (subst unat_plus_small) simp_all
    have tail: "fill_last (accepted (n + 1) ps)"
      using Cons.prems(1) True by (auto simp: fill_last_def split: if_splits)
    have IH: "chained gpt_start gpt_stop (unat (?e + 1)) ?rest"
      by (rule Cons.IH [OF tail]) (use room e e1 in simp)
    show ?thesis
    proof (cases ?rest)
      case Nil
      with True show ?thesis by (simp add: Let_def)
    next
      case (Cons q qs)
      then have "accepted (n + 1) ps \<noteq> []"
        using gpt_loop_length [of b "n + 1" "?e + 1" ps] by auto
      with Cons.prems(1) True have "part_Size p \<noteq> 0" by (simp add: fill_last_def)
      with True Cons IH e e1 show ?thesis by (simp add: Let_def)
    qed
  qed
qed

lemma mbr_loop_chained:
  "fill_last (accepted n ps) \<Longrightarrow>
   unat s + (\<Sum>p\<leftarrow>accepted n ps. unat (part_Size p)) < 2 ^ 32 \<Longrightarrow>
   chained mbr_start mbr_stop (unat s) (mbr_loop b n s ps)"
proof (induction ps arbitrary: n s)
  case Nil
  then show ?case by simp
next
  case (Cons p ps)
  show ?case
  proof (cases "part_Number p = n")
    case False
    with Cons show ?thesis by simp
  next
    case True
    let ?z = "ucast (part_Size p) :: 32 word"
    let ?rest = "mbr_loop b (n + 1) (s + ?z) ps"
    from Cons.prems(2) True have room: "unat s + unat (part_Size p)
        + (\<Sum>p\<leftarrow>accepted (n + 1) ps. unat (part_Size p)) < 2 ^ 32" by simp
    then have z: "unat ?z = unat (part_Size p)" by (simp add: unsigned_ucast_eq take_bit_eq_mod)
    with room have e: "unat (s + ?z) = unat s + unat ?z" by (intro unat_plus_small) simp
    have tail: "fill_last (accepted (n + 1) ps)"
      using Cons.prems(1) True by (auto simp: fill_last_def split: if_splits)
    have IH: "chained mbr_start mbr_stop (unat (s + ?z)) ?rest"
      by (rule Cons.IH [OF tail]) (use room e z in simp)
    show ?thesis
    proof (cases ?rest)
      case Nil
      with True show ?thesis by (simp add: Let_def)
    next
      case (Cons q qs)
      then have "accepted (n + 1) ps \<noteq> []"
        using mbr_loop_length [of b "n + 1" "s + ?z" ps] by auto
      with Cons.prems(1) True have "part_Size p \<noteq> 0" by (simp add: fill_last_def)
      moreover from this have "0 < unat ?z" by (simp add: z unat_gt_0)
      ultimately show ?thesis using True Cons IH e by (simp add: Let_def)
    qed
  qed
qed

interpretation gptl: seq_layout gpt_start gpt_stop gpt_layout gpt_good
proof
  fix d :: "64 word \<times> Partition list"
  assume "gpt_good d"
  then show "chained gpt_start gpt_stop 2048 (gpt_layout d)"
    using gpt_loop_chained [of 1 "snd d" 2048 "fst d"]
    by (simp add: gpt_good_def gpt_layout_def split_beta)
qed

interpretation mbrl: seq_layout mbr_start mbr_stop mbr_layout mbr_good
proof
  fix d :: "64 word \<times> Partition list"
  assume "mbr_good d"
  then show "chained mbr_start mbr_stop 2048 (mbr_layout d)"
    using mbr_loop_chained [of 1 "snd d" 2048 "fst d"]
    by (simp add: mbr_good_def mbr_layout_def split_beta)
qed

subsection \<open>Properties of the layouts\<close>

lemma gpt_loop_names: "map gpt_Name (gpt_loop b n s ps) = map part_Label (accepted n ps)"
  by (induction ps arbitrary: n s) (auto simp: Let_def)

text \<open>
  C10: The GPT written for servable metadata has one partition for each entry numbered 1,
  2, 3 and so on, in that order and under its label; no partition touches the first 2048
  sectors and no two overlap.
\<close>

theorem gpt_layout_disjoint:
  assumes "gpt_good (bytes, ps)"
  defines "tab \<equiv> gpt_layout (bytes, ps)"
  shows "map gpt_Name tab = map part_Label (accepted 1 ps)
    \<and> map part_Number (accepted 1 ps) = map (\<lambda>i. 1 + int i) [0..<length tab]
    \<and> (\<forall>p\<in>set tab. 2048 \<le> unat (gpt_Start p))
    \<and> (\<forall>j<length tab. \<forall>i<j. unat (gpt_End (tab ! i)) < unat (gpt_Start (tab ! j)))"
proof -
  have len: "length tab = length (accepted 1 ps)"
    by (simp add: tab_def gpt_layout_def gpt_loop_length)
  have "unat (gpt_End (tab ! i)) < unat (gpt_Start (tab ! j))" if "j < length tab" "i < j" for i j
    using gptl.disjoint [OF assms(1), of i j] that by (simp add: tab_def gpt_start_def gpt_stop_def)
  moreover have "2048 \<le> unat (gpt_Start p)" if "p \<in> set tab" for p
    using gptl.reserved [OF assms(1), of p] that by (simp add: tab_def gpt_start_def)
  ultimately show ?thesis
    using accepted_numbers [of 1 ps] by (simp add: len) (simp add: tab_def gpt_layout_def gpt_loop_names)
qed

definition example_parts :: "Partition list" where
  "example_parts =
     [\<lparr>part_Label = ''EFI'', part_Number = 1, part_Size = 524288\<rparr>,
      \<lparr>part_Label = ''SWAP'', part_Number = 2, part_Size = 4096\<rparr>,
      \<lparr>part_Label = ''ROOT'', part_Number = 3, part_Size = 0\<rparr>]"

lemma example_parts_good: "gpt_good (b, example_parts)" "mbr_good (b, example_parts)"
  by (simp_all add: gpt_good_def mbr_good_def example_parts_def fill_last_def)

theorem gpt_layout_disjoint_witness:
  "map gpt_Name (gpt_layout (1000000000, example_parts)) = [''EFI'', ''SWAP'', ''ROOT'']"
  using gpt_layout_disjoint [OF example_parts_good(1), of 1000000000] by (simp add: example_parts_def)

text \<open>
  The MBR written for servable metadata: the partitions are disjoint, start behind the
  first 2048 sectors and follow the entries numbered 1, 2, 3 and so on.
\<close>

theorem mbr_layout_disjoint:
  assumes "mbr_good (bytes, ps)"
  defines "tab \<equiv> mbr_layout (bytes, ps)"
  shows "length tab = length (accepted 1 ps)
    \<and> (\<forall>p\<in>set tab. 2048 \<le> unat (mbr_Start p))
    \<and> (\<forall>j<length tab. \<forall>i<j.
         unat (mbr_Start (tab ! i)) + unat (mbr_Size (tab ! i)) \<le> unat (mbr_Start (tab ! j)))"
proof -
  have "unat (mbr_Start (tab ! i)) + unat (mbr_Size (tab ! i)) \<le> unat (mbr_Start (tab ! j))"
    if "j < length tab" "i < j" for i j
    using mbrl.disjoint [OF assms(1), of i j] that by (simp add: tab_def mbr_start_def mbr_stop_def)
  moreover have "2048 \<le> unat (mbr_Start p)" if "p \<in> set tab" for p
    using mbrl.reserved [OF assms(1), of p] that by (simp add: tab_def mbr_start_def)
  ultimately show ?thesis by (simp add: tab_def mbr_layout_def mbr_loop_length)
qed

theorem mbr_layout_disjoint_witness:
  "length (mbr_layout (1000000000, example_parts)) = 3"
  using mbr_layout_disjoint [OF example_parts_good(2), of 1000000000] by (simp add: example_parts_def)

text \<open>The sizes of the partitions, entry by entry.\<close>

lemma gpt_loop_sizes:
  "unat s + (\<Sum>p\<leftarrow>accepted n ps. unat (part_Size p) + 1) < 2 ^ 64 \<Longrightarrow>
   list_all2 (\<lambda>q p. if part_Size p = 0 then gpt_End q = disk_sectors b - 2048
                    else gpt_stop q = gpt_start q + unat (part_Size p) + 1)
     (gpt_loop b n s ps) (accepted n ps)"
proof (induction ps arbitrary: n s)
  case Nil
  then show ?case by simp
next
  case (Cons p ps)
  show ?case
  proof (cases "part_Number p = n")
    case False
    with Cons show ?thesis by simp
  next
    case True
    with Cons.prems have room: "unat s + unat (part_Size p) + 1
        + (\<Sum>p\<leftarrow>accepted (n + 1) ps. unat (part_Size p) + 1) < 2 ^ 64" by simp
    then have e: "unat (s + part_Size p) = unat s + unat (part_Size p)"
      by (intro unat_plus_small) simp
    with room have "unat (s + part_Size p + 1) = unat (s + part_Size p) + 1"
      by (subst unat_plus_small) simp_all
    with room e Cons.IH [of "s + part_Size p + 1" "n + 1"] True show ?thesis
      by (simp add: Let_def)
  qed
qed

text \<open>
  In a GPT a partition of nonzero size \<open>n\<close> occupies \<open>n + 1\<close> sectors, one more than the
  metadata asks for: both the first and the last sector of \<open>[start, start + n]\<close> belong to
  it.  A partition of size 0 ends 2048 sectors before the end of the disk.
\<close>

theorem gpt_layout_sizes:
  assumes "2048 + (\<Sum>p\<leftarrow>accepted 1 ps. unat (part_Size p) + 1) < 2 ^ 64"
  shows "list_all2 (\<lambda>q p. if part_Size p = 0 then gpt_End q = disk_sectors bytes - 2048
        else unat (gpt_End q) + 1 - unat (gpt_Start q) = unat (part_Size p) + 1)
     (gpt_layout (bytes, ps)) (accepted 1 ps)"
  using gpt_loop_sizes [of 2048 1 ps bytes] assms
  by (auto simp: gpt_layout_def gpt_start_def gpt_stop_def elim!: list_all2_mono split: if_splits)

theorem gpt_layout_sizes_witness:
  "unat (gpt_End (gpt_layout (1000000000, example_parts) ! 1)) + 1
     - unat (gpt_Start (gpt_layout (1000000000, example_parts) ! 1)) = 4097"
  using list_all2_nthD [OF gpt_layout_sizes, of example_parts 1 1000000000]
  by (simp add: example_parts_def gpt_layout_def Let_def)

text \<open>
  A partition of size 0 that is not the last one is laid over its successor: it ends
  at the end of the disk, the next one starts one sector behind its start.
\<close>

theorem gpt_fill_overlaps_next:
  assumes "part_Number p = 1" and "part_Size p = 0" and "part_Number q = 2"
    and "2049 \<le> disk_sectors bytes - 2048"
  shows "\<exists>a b rest. gpt_layout (bytes, p # q # ps) = a # b # rest
     \<and> gpt_Start a < gpt_Start b \<and> gpt_Start b \<le> gpt_End a"
  using assms by (simp add: gpt_layout_def Let_def)

theorem gpt_fill_overlaps_next_witness:
  "\<exists>a b rest. gpt_layout (1000000000,
       [\<lparr>part_Label = ''ROOT'', part_Number = 1, part_Size = 0\<rparr>,
        \<lparr>part_Label = ''DATA'', part_Number = 2, part_Size = 4096\<rparr>]) = a # b # rest
     \<and> gpt_Start a < gpt_Start b \<and> gpt_Start b \<le> gpt_End a"
  by (rule gpt_fill_overlaps_next) (simp_all add: disk_sectors_def sectorSize_def)

subsection \<open>The layouts without their loops\<close>

text \<open>The entry of a partition that starts at a given sector.\<close>

definition gpt_entry :: "64 word \<Rightarrow> Partition \<Rightarrow> nat \<Rightarrow> gpt_partition" where
  "gpt_entry bytes p start =
     \<lparr>gpt_Name = part_Label p, gpt_Start = of_nat start,
      gpt_End = (if part_Size p = 0 then disk_sectors bytes - 2048 else of_nat (start + unat (part_Size p))),
      gpt_Type = gpt_type_of (part_Label p)\<rparr>"

definition mbr_entry :: "64 word \<Rightarrow> Partition \<Rightarrow> nat \<Rightarrow> mbr_partition" where
  "mbr_entry bytes p start =
     \<lparr>mbr_Bootable = snd (mbr_kind (part_Label p)), mbr_Type = fst (mbr_kind (part_Label p)), mbr_Start = of_nat start,
      mbr_Size = (if part_Size p = 0 then ucast (disk_sectors bytes - ucast (of_nat start :: 32 word))
        else of_nat (unat (part_Size p)))\<rparr>"

text \<open>The entries laid out one behind the other, each with a number of sectors of its own.\<close>

fun laid_out :: "(Partition \<Rightarrow> nat \<Rightarrow> 'p) \<Rightarrow> (Partition \<Rightarrow> nat) \<Rightarrow> nat \<Rightarrow> Partition list \<Rightarrow> 'p list" where
  "laid_out entry w s [] = []"
| "laid_out entry w s (p # ps) = entry p s # laid_out entry w (s + w p) ps"

lemma laid_out_nth:
  "laid_out entry w s ps = map (\<lambda>i. entry (ps ! i) (s + sum_list (map w (take i ps)))) [0..<length ps]"
proof (induction ps arbitrary: s)
  case (Cons p ps)
  have "[0..<length (p # ps)] = 0 # map Suc [0..<length ps]" unfolding length_Cons map_Suc_upt by (rule upt_conv_Cons) simp
  with Cons show ?case by (simp add: comp_def add.assoc)
qed simp

lemma gpt_loop_laid_out:
  "gpt_loop bytes n (of_nat s) ps = laid_out (gpt_entry bytes) (\<lambda>p. unat (part_Size p) + 1) s (accepted n ps)"
proof (induction ps arbitrary: n s)
  case (Cons p ps)
  have "gpt_loop bytes m (of_nat s + part_Size p + 1) ps
      = laid_out (gpt_entry bytes) (\<lambda>p. unat (part_Size p) + 1) (s + (unat (part_Size p) + 1)) (accepted m ps)" for m
    using Cons.IH [of m "s + (unat (part_Size p) + 1)"] by (simp add: ac_simps)
  with Cons.IH show ?case by (simp add: Let_def) (simp add: gpt_entry_def)
qed simp

lemma mbr_loop_laid_out:
  "mbr_loop bytes n (of_nat s) ps = laid_out (mbr_entry bytes) (\<lambda>p. unat (part_Size p)) s (accepted n ps)"
proof (induction ps arbitrary: n s)
  case (Cons p ps)
  have "mbr_loop bytes m (of_nat s + ucast (part_Size p)) ps
      = laid_out (mbr_entry bytes) (\<lambda>p. unat (part_Size p)) (s + unat (part_Size p)) (accepted m ps)" for m
    using Cons.IH [of m "s + unat (part_Size p)"] by simp
  with Cons.IH show ?case by (simp add: Let_def) (simp add: mbr_entry_def)
qed simp

text \<open>
  C11: Both tables are the entries of the metadata numbered 1, 2, 3 and so on, the one behind the other
  from sector 2048, each start being the sum of what comes before; in a GPT a partition takes one
  sector more than its size.  All of it is arithmetic modulo \<open>2^64\<close>, and in an MBR modulo \<open>2^32\<close>.
\<close>

theorem layouts_closed_form:
  "gpt_layout (bytes, ps) =
     (let as = accepted 1 ps in
      map (\<lambda>i. gpt_entry bytes (as ! i) (2048 + (\<Sum>q\<leftarrow>take i as. unat (part_Size q) + 1))) [0..<length as])
   \<and> mbr_layout (bytes, ps) =
     (let as = accepted 1 ps in
      map (\<lambda>i. mbr_entry bytes (as ! i) (2048 + (\<Sum>q\<leftarrow>take i as. unat (part_Size q)))) [0..<length as])"
  using gpt_loop_laid_out [of bytes 1 2048 ps] mbr_loop_laid_out [of bytes 1 2048 ps]
  by (simp add: gpt_layout_def mbr_layout_def laid_out_nth Let_def)

text \<open>
  A partition of \<open>2^32\<close> sectors, or of a multiple, gets an MBR entry without any sector, and the next
  one starts where it does.
\<close>

lemma mbr_size_lost:
  assumes "2 ^ 32 dvd unat (part_Size p)" and "part_Size p \<noteq> 0"
  shows "mbr_Size (mbr_entry bytes p start) = 0"
  using assms by (simp add: mbr_entry_def word_of_nat_eq_0_iff del: of_nat_unat)

subsection \<open>Checking the device\<close>

text \<open>
  \<open>VerifyBlockDevice\<close> panics exactly when \<open>stat\<close> fails with an error other than ``does
  not exist'', and it accepts exactly the paths whose mode is that of a block device.
\<close>

theorem VerifyBlockDevice_outcomes:
  "(fst (VerifyBlockDevice dev k t) = Panic ''invalid memory address or nil pointer dereference''
      \<longleftrightarrow> (\<exists>e. k_stat k t dev = Inl e \<and> \<not> IsNotExist e))
   \<and> (fst (VerifyBlockDevice dev k t) = Ret None
      \<longleftrightarrow> (\<exists>m. k_stat k t dev = Inr m \<and> m AND S_IFMT = S_IFBLK))
   \<and> snd (VerifyBlockDevice dev k t) = t @ [Stat dev]"
  by (auto simp: VerifyBlockDevice_def bind_def sys_stat_def missing_def ret_def panic_def
      isBlockDevice_def split: sum.splits)

end
