(* ===== verification/StorageFs.thy ===== *)
theory StorageFs
  imports Metadata
begin

text \<open>
  Making, mounting and wiping filesystems in \<open>rootio/storage\<close> (files \<open>filesystem.go\<close>,
  \<open>mount.go\<close> and \<open>wipe.go\<close>).
\<close>

subsection \<open>Making a filesystem\<close>

text \<open>
  The switch over the format: the program, its arguments, and the value of the outer
  variable \<open>debugCMD\<close>, which only the first case sets (the others declare a new one).
  For an unknown format no command is set.
\<close>

definition mkfs_command :: "Filesystem \<Rightarrow> (string \<times> string list \<times> string) option" where
  "mkfs_command f =
     (let m = fs_Mount f; fmt = m_Format m; dev = m_Device m; opts = m_Options m in
      if fmt = ''swap'' then Some (''/sbin/mkswap'', [dev], Sprintf ''%s %s'' [''/sbin/mkswap'', dev])
      else if fmt \<in> {''ext4'', ''ext3'', ''ext2''}
      then Some (''/sbin/mke2fs'', opts @ [''-t''] @ [fmt] @ [''-F''] @ [dev], [])
      else if fmt = ''vfat'' then Some (''/sbin/mkfs.fat'', opts @ [dev], [])
      else if fmt = ''xfs'' then Some (''/sbin/mkfs.xfs'', opts @ [''-f''] @ [dev], [])
      else None)"

definition FileSystemCreate :: "Filesystem \<Rightarrow> goerr option act" where
  "FileSystemCreate f =
     (case mkfs_command f of
        None \<Rightarrow> panic ''invalid memory address or nil pointer dereference''
      | Some (prog, args, debugCMD) \<Rightarrow>
          check (sys (Start prog args)) (Wrapf ''command [%s] Filesystem [%w]'' [debugCMD])
         (check (sys (Wait prog args)) (Wrapf ''command [%s] Filesystem [%w]'' [debugCMD])
         (ret None)))"

subsection \<open>Mounting and wiping\<close>

definition storage_Mount :: "Filesystem \<Rightarrow> goerr option act" where
  "storage_Mount f =
     (let m = fs_Mount f; dev = m_Device m in
      if m_Format m = ''swap'' then
        let debugCMD = Sprintf ''%s %s'' [''/sbin/swapon'', dev] in
        check (sys (Start ''/sbin/swapon'' [dev])) (Wrapf ''command [%s] Filesystem [%w]'' [debugCMD])
       (check (sys (Wait ''/sbin/swapon'' [dev])) (Wrapf ''command [%s] Filesystem [%w]'' [debugCMD])
       (ret None))
      else
        check (sys (call.Mount dev (m_Point m) (m_Format m) 0))
          (Wrapf ''mounting [%s] -> [%s] error [%w]'' [dev, m_Point m])
        (ret None))"

text \<open>The buffer of zeros is 1 GiB long; the deferred \<open>Close\<close> comes on top of the explicit one.\<close>

definition Wipe :: "Disk \<Rightarrow> goerr option act" where
  "Wipe d =
     (let dev = disk_Device d in
      check (sys (OpenFile dev [O_CREATE, O_WRONLY] mode_0644)) (\<lambda>err. err)
     (with_defer (ignore (sys (Close dev)))
        (check (sys (WriteZeros dev (1024 * 1024 * 1024))) (\<lambda>err. err)
        (check (sys (Sync dev)) (\<lambda>err. err)
        (check (sys (Close dev)) (\<lambda>err. err)
        (ret None))))))"

subsection \<open>Properties\<close>

definition supported_formats :: "string set" where
  "supported_formats = {''swap'', ''ext4'', ''ext3'', ''ext2'', ''vfat'', ''xfs''}"

lemma mkfs_command_None: "mkfs_command f = None \<longleftrightarrow> m_Format (fs_Mount f) \<notin> supported_formats"
  by (simp add: mkfs_command_def supported_formats_def Let_def)

lemma mkfs_command_device:
  "mkfs_command f = Some (prog, args, dbg) \<Longrightarrow>
     args \<noteq> [] \<and> last args = m_Device (fs_Mount f)
     \<and> (m_Format (fs_Mount f) = ''swap'' \<or> dbg = [] \<and> prefix (m_Options (fs_Mount f)) args)"
  by (auto simp: mkfs_command_def Let_def split: if_splits)

lemma FileSystemCreate_run:
  "if m_Format (fs_Mount f) \<in> supported_formats then \<exists>e t'. FileSystemCreate f k t = (Ret e, t')
   else FileSystemCreate f k t = (Panic ''invalid memory address or nil pointer dereference'', t)"
  using mkfs_command_None [of f]
  by (cases "mkfs_command f") (auto simp: FileSystemCreate_def act_defs split: option.split)

text \<open>
  C38: Making a filesystem panics exactly for a format outside the six supported ones,
  before any command; otherwise the commands name the filesystem's own device as their
  last argument, behind the options of the metadata.
\<close>

theorem FileSystemCreate_outcomes:
  "(if m_Format (fs_Mount f) \<in> supported_formats
    then (\<exists>e prog args n. FileSystemCreate f k t = (Ret e, t @ take n [Start prog args, Wait prog args])
       \<and> 0 < n \<and> args \<noteq> [] \<and> last args = m_Device (fs_Mount f)
       \<and> (m_Format (fs_Mount f) = ''swap'' \<or> prefix (m_Options (fs_Mount f)) args))
    else FileSystemCreate f k t = (Panic ''invalid memory address or nil pointer dereference'', t))"
proof (cases "mkfs_command f")
  case None
  then have "m_Format (fs_Mount f) \<notin> supported_formats" by (simp add: mkfs_command_None)
  with None show ?thesis by (simp add: FileSystemCreate_def panic_def)
next
  case (Some c)
  then obtain prog args dbg where c: "mkfs_command f = Some (prog, args, dbg)" by (cases c) auto
  then have fmt: "m_Format (fs_Mount f) \<in> supported_formats"
    using mkfs_command_None [of f] by auto
  have "\<exists>e n. FileSystemCreate f k t = (Ret e, t @ take n [Start prog args, Wait prog args]) \<and> 0 < n"
  proof (cases "k_err k t (Start prog args)")
    case (Some e)
    with c show ?thesis
      by (intro exI [of _ "Some (Wrapf ''command [%s] Filesystem [%w]'' [dbg] e)"] exI [of _ 1])
        (simp add: FileSystemCreate_def act_defs)
  next
    case None
    show ?thesis
    proof (cases "k_err k (t @ [Start prog args]) (Wait prog args)")
      case None
      with c \<open>k_err k t (Start prog args) = None\<close> show ?thesis
        by (intro exI [of _ None] exI [of _ 2]) (simp add: FileSystemCreate_def act_defs)
    next
      case (Some e)
      with c \<open>k_err k t (Start prog args) = None\<close> show ?thesis
        by (intro exI [of _ "Some (Wrapf ''command [%s] Filesystem [%w]'' [dbg] e)"] exI [of _ 2])
          (simp add: FileSystemCreate_def act_defs)
    qed
  qed
  with fmt mkfs_command_device [OF c] show ?thesis by (simp only: if_True) blast
qed

text \<open>
  Wiping closes the device on every path once it has been opened, and does nothing
  else when opening fails; it succeeds only if the zeros were written, synced and the
  file closed.
\<close>

theorem Wipe_closes:
  "(case k_err k t (OpenFile (disk_Device d) [O_CREATE, O_WRONLY] mode_0644) of
      Some e \<Rightarrow> Wipe d k t = (Ret (Some e), t @ [OpenFile (disk_Device d) [O_CREATE, O_WRONLY] mode_0644])
    | None \<Rightarrow> (\<exists>r mid. Wipe d k t =
          (Ret r, t @ [OpenFile (disk_Device d) [O_CREATE, O_WRONLY] mode_0644] @ mid @ [Close (disk_Device d)])
        \<and> (r = None \<longleftrightarrow> mid = [WriteZeros (disk_Device d) 1073741824, Sync (disk_Device d), Close (disk_Device d)]
             \<and> all_ok k (t @ [OpenFile (disk_Device d) [O_CREATE, O_WRONLY] mode_0644]) mid)))"
  by (auto simp: Wipe_def Let_def act_defs split: option.split)

lemma storage_fs_returns [returns_intros]: "returns (storage_Mount f)"
  by (auto simp: storage_Mount_def Let_def intro!: returns_intros)

end
