(* ===== verification/Fstab.thy ===== *)
theory Fstab
  imports Metadata
begin

text \<open>
  The package \<open>rootio/fstab\<close>: the text of \<open>/etc/fstab\<close> for the filesystems of the metadata.
\<close>

text \<open>The scan of \<open>labelFromOptions\<close>: the option behind the first occurrence of the flag.\<close>

fun option_after :: "string \<Rightarrow> string list \<Rightarrow> string" where
  "option_after flag (a # b # opts) = (if a = flag then b else option_after flag (b # opts))"
| "option_after flag opts = []"

definition labelFromOptions :: "string \<Rightarrow> string list \<Rightarrow> string" where
  "labelFromOptions format opts = option_after (if format = ''vfat'' then ''-n'' else ''-L'') opts"

definition defaultOpts :: "string \<Rightarrow> string" where
  "defaultOpts format = (if format = ''vfat'' then ''defaults,nofail'' else ''defaults'')"

definition fs_label :: "Filesystem \<Rightarrow> string" where
  "fs_label f = labelFromOptions (m_Format (fs_Mount f)) (m_Options (fs_Mount f))"

text \<open>What one turn of the loop appends.\<close>

definition render_entry :: "Filesystem \<Rightarrow> string" where
  "render_entry f =
     (let m = fs_Mount f; label = labelFromOptions (m_Format m) (m_Options m) in
      if label = [] then []
      else
        let opts = defaultOpts (m_Format m);
            pass = (if m_Point m = ''/'' then 1 else 2)
        in Sprintf (''LABEL=%s  %s  %s  %s  %d  %d'' @ NL)
             [label, m_Point m, m_Format m, opts, FormatUint 0, FormatUint pass])"

definition Render :: "Filesystem list \<Rightarrow> string" where
  "Render fs = foldl (\<lambda>b f. b @ render_entry f) [] fs"

lemma Render_concat: "Render fs = concat (map render_entry fs)"
proof -
  have "foldl (\<lambda>b f. b @ render_entry f) b fs = b @ concat (map render_entry fs)" for b
    by (induction fs arbitrary: b) simp_all
  then show ?thesis by (simp add: Render_def)
qed

subsection \<open>The table reads back\<close>

text \<open>
  The six fields that the readers of \<open>/etc/fstab\<close> expect for an entry, and the words that
  can stand in a field as they are.
\<close>

definition fstab_fields :: "Filesystem \<Rightarrow> string list" where
  "fstab_fields f =
     [''LABEL='' @ fs_label f, m_Point (fs_Mount f), m_Format (fs_Mount f),
      defaultOpts (m_Format (fs_Mount f)), ''0'',
      if m_Point (fs_Mount f) = ''/'' then ''1'' else ''2'']"

definition fstab_entry_ok :: "Filesystem \<Rightarrow> bool" where
  "fstab_entry_ok f \<longleftrightarrow>
     list_all graphic (fs_label f) \<and> field_word (m_Point (fs_Mount f)) \<and> field_word (m_Format (fs_Mount f))"

fun columns :: "string list \<Rightarrow> string" where
  "columns [] = []"
| "columns [w] = w"
| "columns (w # x # ws) = w @ ''  '' @ columns (x # ws)"

lemma Fields_columns: "list_all field_word ws \<Longrightarrow> Fields (columns ws) = ws"
proof (induction ws rule: columns.induct)
  case (2 w)
  then show ?case
    using fields_from_word [of w "[]" "[]"] by (simp add: Fields_def field_word_def)
next
  case (3 w x ws)
  then have "Fields (columns (w # x # ws)) = w # fields_from [] (columns (x # ws))"
    by (simp add: Fields_def field_word_def fields_from_word fields_from_blank del: fields_from.simps)
  with 3 show ?case by (simp add: Fields_def)
qed (simp add: Fields_def)

lemma render_entry_columns:
  "fs_label f \<noteq> [] \<Longrightarrow> render_entry f = columns (fstab_fields f) @ NL"
  by (simp add: render_entry_def fs_label_def fstab_fields_def Let_def FormatUint.simps digit_char_values)

lemma fstab_fields_words: "fs_label f \<noteq> [] \<Longrightarrow> fstab_entry_ok f \<Longrightarrow> list_all field_word (fstab_fields f)"
  by (auto simp: fstab_fields_def fstab_entry_ok_def field_word_def defaultOpts_def graphic_def Let_def)

lemma columns_no_NL: "list_all field_word ws \<Longrightarrow> CHR 0x0A \<notin> set (columns ws)"
  by (induction ws rule: columns.induct) (auto simp: field_word_def dest: graphic_not_NL)

lemma Split_lines:
  "\<forall>l\<in>set ls. CHR 0x0A \<notin> set l \<Longrightarrow> Split (concat (map (\<lambda>l. l @ NL) ls)) NL = ls @ [[]]"
  by (induction ls) (simp_all add: Split_char_append Split_char_free del: Split_char_simps)


definition example_fs :: "Filesystem list" where
  "example_fs =
     [\<lparr>fs_Mount = \<lparr>m_Options = [''-L'', ''ROOT''], m_Device = ''/dev/vg0/root'', m_Format = ''ext4'', m_Point = ''/''\<rparr>\<rparr>,
      \<lparr>fs_Mount = \<lparr>m_Options = [], m_Device = ''/dev/sdc1'', m_Format = ''ext4'', m_Point = ''/data''\<rparr>\<rparr>,
      \<lparr>fs_Mount = \<lparr>m_Options = [''-F'', ''32'', ''-n'', ''EFI_SDA''], m_Device = ''/dev/sda1'', m_Format = ''vfat'', m_Point = ''/boot/efi''\<rparr>\<rparr>]"


end
