(* ===== verification/Rootio.thy ===== *)
theory Rootio
  imports Chroot StorageLvm Raid Partitioning StorageFs Fstab
begin

text \<open>
  The \<open>rootio\<close> command (\<open>rootio/cmd/rootio.go\<close>): loading the metadata and the commands
  \<open>partition\<close>, \<open>wipe\<close>, \<open>format\<close>, \<open>mount\<close> and \<open>fstab\<close>.  Errors are mostly logged and the
  command goes on, so an operation appears under \<^const>\<open>ignore\<close>; only \<open>fstab\<close> and the
  loading end the process.
\<close>

subsection \<open>Loading the metadata\<close>

text \<open>
  The loader of the test mode.  The error of \<open>io.ReadAll\<close> is dropped and \<open>json.Unmarshal\<close>
  gets the bytes that came before it, so \<open>unmarshal\<close> takes the whole answer of the read.
\<close>

definition test_metadata :: "(goerr + string \<Rightarrow> goerr + Metadata) \<Rightarrow> (goerr + Metadata) act" where
  "test_metadata unmarshal =
     bind (getenv ''JSON_FILE'') (\<lambda>file.
     bind (sys (OpenFile file [O_RDONLY] 0)) (\<lambda>e.
     case e of
       Some err \<Rightarrow> ret (Inl err)
     | None \<Rightarrow>
         with_defer (ignore (sys (Close file)))
           (bind (sys_read file) (\<lambda>byteValue.
            case unmarshal byteValue of
              Inl err \<Rightarrow> ret (Inl err)
            | Inr w \<Rightarrow> ret (Inr w)))))"

definition rootio_init :: "(goerr + string \<Rightarrow> goerr + Metadata) \<Rightarrow> decoder \<Rightarrow> Metadata act" where
  "rootio_init unmarshal decode =
     bind (getenv ''TEST'') (\<lambda>v.
     bind (if v \<noteq> [] then test_metadata unmarshal else RetrieveData decode) (\<lambda>m.
     case m of Inl err \<Rightarrow> log_fatal | Inr md \<Rightarrow> ret md))"

definition storage_of :: "Metadata \<Rightarrow> Storage" where
  "storage_of md = inst_Storage (md_Instance md)"

subsection \<open>The commands\<close>

definition rootioFormat :: "Metadata \<Rightarrow> unit act" where
  "rootioFormat md = for_each (Filesystems (storage_of md)) (\<lambda>f. ignore (FileSystemCreate f))"

definition rootioMount :: "Metadata \<Rightarrow> unit act" where
  "rootioMount md = for_each (Filesystems (storage_of md)) (\<lambda>f. ignore (storage_Mount f))"

definition rootioFstab :: "Metadata \<Rightarrow> unit act" where
  "rootioFstab md =
     (let fs = Filesystems (storage_of md); body = Render fs in
      bind (getenv ''BLOCK_DEVICE'') (\<lambda>dev.
      bind (getenv ''FS_TYPE'') (\<lambda>fsType.
      andThen (must_ok (Enter dev fsType fs))
        (must_ok (sys (WriteFile ''/etc/fstab'' body mode_0644))))))"

text \<open>The RAID loop that \<open>partition\<close> and \<open>wipe\<close> begin with, after the volume groups.\<close>

definition stop_arrays :: "RAID list \<Rightarrow> unit act" where
  "stop_arrays rs =
     for_each rs (\<lambda>r.
       andThen (ignore (StopRAID (raid_Name r)))
         (for_each (raid_Devices r @ raid_Spare r) (\<lambda>d. ignore (ZeroSuperblock d))))"

definition partition_disk :: "Disk \<Rightarrow> unit act" where
  "partition_disk d =
     andThen (ignore (VerifyBlockDevice (disk_Device d)))
    (andThen (ignore (ExamineDisk d))
    (andThen (if disk_WipeTable d then ignore (Wipe d) else ret ())
    (bind (getenv ''MBR'') (\<lambda>mbr. ignore (if mbr \<noteq> [] then MBRPartition d else Partition d)))))"

definition rootioPartition :: "Metadata \<Rightarrow> unit act" where
  "rootioPartition md =
     (let s = storage_of md in
      andThen (TeardownVolumeGroups (VolumeGroups s))
     (andThen (stop_arrays (RAIDs s))
     (andThen (for_each (Disks s) partition_disk)
     (andThen (for_each (RAIDs s) (\<lambda>r. ignore (CreateRAID r)))
     (for_each (VolumeGroups s) (\<lambda>vg. ignore (storage_CreateVolumeGroup vg)))))))"

definition wipe_disk :: "Disk \<Rightarrow> unit act" where
  "wipe_disk d =
     andThen (ignore (VerifyBlockDevice (disk_Device d)))
    (andThen (ignore (ExamineDisk d)) (ignore (Wipe d)))"

definition rootioWipe :: "Metadata \<Rightarrow> unit act" where
  "rootioWipe md =
     (let s = storage_of md in
      andThen (TeardownVolumeGroups (VolumeGroups s))
     (andThen (stop_arrays (RAIDs s))
     (for_each (Disks s) wipe_disk)))"

subsection \<open>The phases of a partitioning\<close>

definition lvm_run :: "string set \<Rightarrow> call \<Rightarrow> bool" where
  "lvm_run subs c = (case c of Run p args inp \<Rightarrow> p = lvm_bin \<and> args \<noteq> [] \<and> hd args \<in> subs | _ \<Rightarrow> False)"

definition is_vg_teardown :: "call \<Rightarrow> bool" where
  "is_vg_teardown = lvm_run {''vgchange'', ''vgremove'', ''pvremove''}"

definition is_vg_creation :: "call \<Rightarrow> bool" where
  "is_vg_creation = lvm_run {''pvcreate'', ''vgcreate'', ''lvcreate'', ''pvscan'', ''vgscan''}"

definition is_array_stop :: "call \<Rightarrow> bool" where
  "is_array_stop c =
     (case c of
        Stat _ \<Rightarrow> True
      | ReadFile p \<Rightarrow> p = ''/proc/mounts''
      | Unmount _ fl \<Rightarrow> fl = (MNT_FORCE OR MNT_DETACH)
      | Run p args inp \<Rightarrow> p = mdadm_bin \<and> args \<noteq> [] \<and> hd args \<in> {''--stop'', ''--zero-superblock''}
      | _ \<Rightarrow> False)"

definition is_array_creation :: "call \<Rightarrow> bool" where
  "is_array_creation c =
     (case c of
        MkdirAll p _ \<Rightarrow> p = ''/dev/md''
      | Run p args inp \<Rightarrow> p = mdadm_bin \<and> args \<noteq> [] \<and> hd args = ''--create''
      | _ \<Rightarrow> False)"

text \<open>Calls on one of the given devices that look at it, wipe it or write its table.\<close>

definition disk_call :: "string set \<Rightarrow> call \<Rightarrow> bool" where
  "disk_call devs c =
     (case c of
        Stat d \<Rightarrow> d \<in> devs
      | DiskOpen d \<Rightarrow> d \<in> devs
      | DiskGetTable d \<Rightarrow> d \<in> devs
      | DiskPartition d _ \<Rightarrow> d \<in> devs
      | OpenFile d _ _ \<Rightarrow> d \<in> devs
      | WriteZeros d _ \<Rightarrow> d \<in> devs
      | Sync d \<Rightarrow> d \<in> devs
      | Close d \<Rightarrow> d \<in> devs
      | _ \<Rightarrow> False)"

definition disk_devices :: "Storage \<Rightarrow> string set" where
  "disk_devices s = disk_Device ` set (Disks s)"

lemma stop_arrays_emits: "emits is_array_stop (stop_arrays rs)"
  by (auto simp: stop_arrays_def StopRAID_def ZeroSuperblock_def forceUnmount_def runMdadm_def
      is_array_stop_def Let_def intro!: emits_intros)

lemma partition_disk_emits: "disk_Device d \<in> devs \<Longrightarrow> emits (disk_call devs) (partition_disk d)"
  by (auto simp: partition_disk_def VerifyBlockDevice_def ExamineDisk_def Wipe_def MBRPartition_def
      Partition_def disk_call_def Let_def intro!: emits_intros)

lemma wipe_disk_emits: "disk_Device d \<in> devs \<Longrightarrow> emits (disk_call devs) (wipe_disk d)"
  by (auto simp: wipe_disk_def VerifyBlockDevice_def ExamineDisk_def Wipe_def
      disk_call_def Let_def intro!: emits_intros)

lemma CreateRAID_creation: "emits is_array_creation (CreateRAID r)"
  by (auto simp: CreateRAID_def runMdadm_def is_array_creation_def BuildMdadmCreateArgs_def Let_def
      intro!: emits_intros)

lemma teardown_emits: "emits is_vg_teardown (TeardownVolumeGroups vgs)"
  by (rule td.oper_emits) (auto simp: teardown_calls_def is_vg_teardown_def lvm_run_def)

lemma vg_creation_emits: "emits is_vg_creation (storage_CreateVolumeGroup vg)"
  by (auto simp: storage_CreateVolumeGroup_def CreatePhysicalVolume_def CreateVolumeGroup_def
      CreateLogicalVolume_def run_def PVScan_def VGScan_def is_vg_creation_def lvm_run_def Let_def
      intro!: emits_intros)

lemma zero_or_teardown_phases:
  "phases [is_vg_teardown, is_array_stop] (andThen (TeardownVolumeGroups vgs) (stop_arrays rs))"
  by (intro phases_emits_andThen phases_emits teardown_emits stop_arrays_emits)

text \<open>
  C1: Partitioning issues its calls in five blocks, whatever fails on the way: volume
  groups are torn down before the arrays are stopped, arrays are stopped and their
  superblocks cleared before any disk is touched, only disks of the metadata are wiped
  and partitioned, arrays are built after the last disk, and volume groups come last.
\<close>

theorem rootioPartition_phases:
  "phases [is_vg_teardown, is_array_stop, disk_call (disk_devices (storage_of md)),
       is_array_creation, is_vg_creation] (rootioPartition md)"
  unfolding rootioPartition_def Let_def
  by (intro phases_emits_andThen phases_emits emits_for_each emits_ignore teardown_emits
      stop_arrays_emits partition_disk_emits CreateRAID_creation vg_creation_emits)
    (simp add: disk_devices_def)

text \<open>
  Wiping issues the same first three blocks and nothing after them: it neither builds
  arrays nor volume groups.
\<close>

theorem rootioWipe_phases:
  "phases [is_vg_teardown, is_array_stop, disk_call (disk_devices (storage_of md))] (rootioWipe md)"
  unfolding rootioWipe_def Let_def
  by (intro phases_emits_andThen phases_emits emits_for_each teardown_emits
      stop_arrays_emits wipe_disk_emits) (simp add: disk_devices_def)

subsection \<open>Nothing is left out\<close>

text \<open>The first call of an array or volume group that passes its validation.\<close>

definition array_first :: "RAID \<Rightarrow> call" where
  "array_first r =
     (if HasPrefix (normalizeRAIDDevice (raid_Name r)) ''/dev/md/''
      then MkdirAll ''/dev/md'' mode_0755 else Run mdadm_bin (BuildMdadmCreateArgs r) None)"

definition vg_first :: "VolumeGroup \<Rightarrow> call" where
  "vg_first vg = Run lvm_bin [''pvcreate'', hd (vg_PhysicalVolumes vg)] None"

definition array_calls :: "RAID \<Rightarrow> call set" where
  "array_calls r = insert (Stat (normalizeRAIDDevice (raid_Name r))) (Stat ` set (raid_Devices r @ raid_Spare r))"

lemma tries_StopRAID: "tries {Stat (normalizeRAIDDevice n)} (StopRAID n)"
  unfolding StopRAID_def Let_def
  by (rule tries_bind_left) (auto intro!: tries_sys growsI [of is_array_stop] emits_intros
      simp: forceUnmount_def runMdadm_def is_array_stop_def)

lemma tries_ZeroSuperblock: "tries {Stat d} (ZeroSuperblock d)"
  unfolding ZeroSuperblock_def
  by (rule tries_bind_left) (auto intro!: tries_sys growsI [of is_array_stop] emits_intros
      simp: is_array_stop_def)

lemma tries_stop_arrays: "tries (\<Union>r\<in>set rs. array_calls r) (stop_arrays rs)"
proof -
  have "tries ({Stat (normalizeRAIDDevice (raid_Name r))} \<union> (\<Union>d\<in>set (raid_Devices r @ raid_Spare r). {Stat d}))
      (andThen (ignore (StopRAID (raid_Name r)))
         (for_each (raid_Devices r @ raid_Spare r) (\<lambda>d. ignore (ZeroSuperblock d))))" for r
    by (intro tries_andThen tries_ignore tries_for_each tries_StopRAID tries_ZeroSuperblock)
  moreover have "array_calls r =
      {Stat (normalizeRAIDDevice (raid_Name r))} \<union> (\<Union>d\<in>set (raid_Devices r @ raid_Spare r). {Stat d})" for r
    by (auto simp: array_calls_def)
  ultimately show ?thesis unfolding stop_arrays_def by (intro tries_for_each) simp
qed

lemma tries_ExamineDisk: "tries {DiskOpen (disk_Device d)} (ExamineDisk d)"
  unfolding ExamineDisk_def Let_def
  by (rule tries_bind_left) (auto intro!: tries_sys growsI [of "\<lambda>_. True"] emits_intros)

lemma tries_partition_disk: "tries {DiskOpen (disk_Device d)} (partition_disk d)"
proof -
  have g: "grows (Wipe d)" "grows (MBRPartition d)" "grows (Partition d)" "grows (VerifyBlockDevice dev)" for dev
    by (auto simp: grows_def Wipe_def MBRPartition_def Partition_def VerifyBlockDevice_def Let_def intro!: emits_intros)
  then show ?thesis
    unfolding partition_disk_def andThen_def
    by (intro tries_bind_right tries_bind_left tries_ignore tries_ExamineDisk)
      (auto simp: grows_def intro!: emits_intros)
qed

lemma tries_CreateRAID: "ValidateRAID r = None \<Longrightarrow> tries {array_first r} (CreateRAID r)"
  by (auto simp: CreateRAID_def array_first_def runMdadm_def Let_def grows_def
      intro!: tries_check tries_sys emits_intros)

lemma tries_vg:
  assumes "ValidateVolumeGroup vg = None"
  shows "tries {vg_first vg} (storage_CreateVolumeGroup vg)"
proof -
  from assms obtain p ps where pv: "vg_PhysicalVolumes vg = p # ps"
    by (cases "vg_PhysicalVolumes vg") (simp_all add: ValidateVolumeGroup_iff)
  have g: "grows (CreatePhysicalVolume q)" "grows (CreateVolumeGroup n qs ts)" "grows (CreateLogicalVolume n l z ts os)"
    for q n qs ts l z os
    by (auto simp: CreatePhysicalVolume_def CreateVolumeGroup_def CreateLogicalVolume_def run_def
      PVScan_def VGScan_def Let_def grows_def intro!: emits_intros)
  show ?thesis
    using assms g unfolding storage_CreateVolumeGroup_def
    by (auto simp: pv vg_first_def CreatePhysicalVolume_def run_def grows_def
        intro!: tries_check tries_sys emits_intros)
qed

text \<open>Some disk of the metadata cannot be examined: \<open>stat\<close> fails, but not with ``does not exist''.\<close>

definition broken_stat :: "Disk list \<Rightarrow> kernel \<Rightarrow> bool" where
  "broken_stat ds k \<longleftrightarrow> (\<exists>d\<in>set ds. \<exists>t e. k_stat k t (disk_Device d) = Inl e \<and> \<not> IsNotExist e)"

lemma panics_Verify: "d \<in> set ds \<Longrightarrow> panics_if (broken_stat ds) (VerifyBlockDevice (disk_Device d))"
  by (auto simp: panics_if_def VerifyBlockDevice_def bind_def sys_stat_def missing_def ret_def panic_def
      broken_stat_def split: sum.splits res.splits)

lemma disk_returns [returns_intros]:
  "returns (ExamineDisk d)" "returns (Partition d)" "returns (MBRPartition d)"
  by (auto simp: ExamineDisk_def Partition_def MBRPartition_def Let_def intro!: returns_intros)

lemma Wipe_returns [returns_intros]: "returns (Wipe d)"
  by (auto simp: returns_def Wipe_def Let_def act_defs split: option.split)

lemma storage_vg_returns [returns_intros]: "returns (storage_CreateVolumeGroup vg)"
  by (auto simp: storage_CreateVolumeGroup_def intro!: returns_intros)

lemma stop_arrays_returns [returns_intros]: "returns (stop_arrays rs)"
  by (auto simp: stop_arrays_def intro!: returns_intros)

lemma panics_partition_disk: "d \<in> set ds \<Longrightarrow> panics_if (broken_stat ds) (partition_disk d)"
  unfolding partition_disk_def
  by (intro panics_andThen panics_ignore panics_Verify; (assumption | rule panics_returns))
    (auto intro!: returns_intros)

lemma panics_rootioPartition: "panics_if (broken_stat (Disks (storage_of md))) (rootioPartition md)"
  unfolding rootioPartition_def Let_def
  by (intro panics_andThen panics_for_each panics_partition_disk; (assumption | rule panics_returns))
    (auto intro!: returns_intros td.oper_returns)

text \<open>
  C27: Partitioning goes on after errors: it never ends the process, it panics only if a
  disk's \<open>stat\<close> fails strangely, and otherwise it has looked for every array, member and
  spare, opened every disk, and started on every valid array and volume group.
\<close>

theorem rootioPartition_best_effort:
  "case fst (rootioPartition md k t) of
     Ret u \<Rightarrow>
       (\<Union>r\<in>set (RAIDs (storage_of md)). array_calls r)
       \<union> (\<lambda>d. DiskOpen (disk_Device d)) ` set (Disks (storage_of md))
       \<union> array_first ` {r \<in> set (RAIDs (storage_of md)). ValidateRAID r = None}
       \<union> vg_first ` {vg \<in> set (VolumeGroups (storage_of md)). ValidateVolumeGroup vg = None}
       \<subseteq> set (snd (rootioPartition md k t))
   | Exit n \<Rightarrow> False
   | Panic p \<Rightarrow> broken_stat (Disks (storage_of md)) k"
proof -
  let ?s = "storage_of md"
  let ?R = "\<lambda>r. if ValidateRAID r = None then {array_first r} else {}"
  let ?V = "\<lambda>vg. if ValidateVolumeGroup vg = None then {vg_first vg} else {}"
  have r: "tries (?R r) (ignore (CreateRAID r))" for r
    using growsI [OF CreateRAID_creation [of r]]
    by (auto intro!: tries_ignore tries_CreateRAID tries_empty grows_ignore)
  have v: "tries (?V vg) (ignore (storage_CreateVolumeGroup vg))" for vg
    using growsI [OF vg_creation_emits [of vg]]
    by (auto intro!: tries_ignore tries_vg tries_empty grows_ignore)
  have "tries ({} \<union> ((\<Union>r\<in>set (RAIDs ?s). array_calls r) \<union> ((\<Union>d\<in>set (Disks ?s). {DiskOpen (disk_Device d)})
      \<union> ((\<Union>r\<in>set (RAIDs ?s). ?R r) \<union> (\<Union>vg\<in>set (VolumeGroups ?s). ?V vg))))) (rootioPartition md)"
    unfolding rootioPartition_def Let_def
    by (intro tries_andThen tries_for_each tries_stop_arrays tries_partition_disk r v
        tries_empty growsI [OF teardown_emits])
  note tried = triesD [OF this, unfolded Un_empty_left]
  have *: "fst (rootioPartition md k t) = Ret () \<Longrightarrow>
      (\<Union>r\<in>set (RAIDs ?s). array_calls r) \<union> ((\<Union>d\<in>set (Disks ?s). {DiskOpen (disk_Device d)})
      \<union> ((\<Union>r\<in>set (RAIDs ?s). ?R r) \<union> (\<Union>vg\<in>set (VolumeGroups ?s). ?V vg)))
      \<subseteq> set (snd (rootioPartition md k t))"
    by (rule tried)
  show ?thesis
  proof (cases "fst (rootioPartition md k t)")
    case (Ret u)
    with * show ?thesis by (auto split: if_splits)
  qed (use panics_rootioPartition [of md] in \<open>auto simp: panics_if_def dest!: spec [of _ k] spec [of _ t]\<close>)
qed

subsection \<open>Writing \<open>/etc/fstab\<close>\<close>

definition fstab_call :: "call \<Rightarrow> bool" where
  "fstab_call c = (case c of WriteFile p d m \<Rightarrow> p = ''/etc/fstab'' \<and> m = mode_0644 | _ \<Rightarrow> False)"

interpretation rf: rooted_action rootioFstab ret
    "\<lambda>k md. Some (root_gate k ''BLOCK_DEVICE'' ''FS_TYPE'' (Filesystems (storage_of md)))"
    "\<lambda>k md. must_ok (sys (WriteFile ''/etc/fstab'' (Render (Filesystems (storage_of md))) mode_0644))"
    "\<lambda>_. False" fstab_call "''BLOCK_DEVICE''" "''FS_TYPE''"
proof
  fix d k t
  show "rootioFstab d k t = bind (ret d) (\<lambda>md k t.
      case Some (root_gate k ''BLOCK_DEVICE'' ''FS_TYPE'' (Filesystems (storage_of md))) of
        None \<Rightarrow> (Ret (), t)
      | Some cs \<Rightarrow> andThen (must_all cs)
          (must_ok (sys (WriteFile ''/etc/fstab'' (Render (Filesystems (storage_of md))) mode_0644))) k t) k t"
    by (simp add: rootioFstab_def Let_def getenv_bind must_Enter)
qed (auto intro!: emits_intros root_gate_enters simp: fstab_call_def)

definition fstab_plan :: "kernel \<Rightarrow> Metadata \<Rightarrow> call list" where
  "fstab_plan k md =
     (let fs = Filesystems (storage_of md) in
      map fst (enter_plan (env k ''BLOCK_DEVICE'', env k ''FS_TYPE'', fs))
      @ [WriteFile ''/etc/fstab'' (Render fs) mode_0644])"

text \<open>
  C32: The \<open>fstab\<close> command writes the rendered table as its very last call, inside the new
  root, after everything before it succeeded; the first failing call ends the process
  with status 1.
\<close>

theorem rootioFstab_run:
  "if all_ok k t (fstab_plan k md)
   then rootioFstab md k t = (Ret (), t @ fstab_plan k md)
   else (\<exists>n. n < length (fstab_plan k md) \<and> all_ok k t (take n (fstab_plan k md))
      \<and> rootioFstab md k t = (Exit 1, t @ take (Suc n) (fstab_plan k md)))"
proof -
  define fs where "fs = Filesystems (storage_of md)"
  define ss where "ss = enter_plan (env k ''BLOCK_DEVICE'', env k ''FS_TYPE'', fs)
     @ [(WriteFile ''/etc/fstab'' (Render fs) mode_0644, \<lambda>e. e)]"
  have plan: "fstab_plan k md = map fst ss"
    by (simp add: fstab_plan_def ss_def fs_def Let_def)
  obtain e t1 where enter: "script (enter_plan (env k ''BLOCK_DEVICE'', env k ''FS_TYPE'', fs)) k t = (Ret e, t1)"
    using returnsD [OF en.oper_returns [of "(env k ''BLOCK_DEVICE'', env k ''FS_TYPE'', fs)"], of k t]
    by (auto simp: Enter_script)
  have "rootioFstab md k t =
     (case script ss k t of (r, t') \<Rightarrow> (if r = Ret None then Ret () else Exit 1, t'))"
    using enter
    by (cases e) (simp_all add: rootioFstab_def ss_def script_append fs_def [symmetric] Let_def Enter_script
        bind_def getenv_def env_def [symmetric] andThen_def must_ok_def check_def sys_def
        log_fatal_def os_exit_def ret_def split: option.split)
  with script_ok [of k t ss] script_fail [of k t ss] show ?thesis
    unfolding plan by (cases "all_ok k t (map fst ss)") auto
qed

text \<open>
  Formatting goes through the filesystems in order and survives every failing
  command, but an unsupported format ends it by a panic: the command returns exactly when
  every format is supported.
\<close>

theorem rootioFormat_returns_iff:
  "fst (rootioFormat md k t) = Ret () \<longleftrightarrow>
     (\<lambda>f. m_Format (fs_Mount f)) ` set (Filesystems (storage_of md)) \<subseteq> supported_formats"
proof -
  have "fst (for_each fs (\<lambda>f. ignore (FileSystemCreate f)) k t) = Ret () \<longleftrightarrow>
     (\<forall>f\<in>set fs. m_Format (fs_Mount f) \<in> supported_formats)" for fs
  proof (induction fs arbitrary: t)
    case (Cons f fs)
    show ?case
    proof (cases "m_Format (fs_Mount f) \<in> supported_formats")
      case True
      with FileSystemCreate_run [of f k t] obtain e t' where "FileSystemCreate f k t = (Ret e, t')"
        by auto
      with True Cons show ?thesis by (simp add: andThen_def ignore_def bind_def ret_def)
    next
      case False
      with FileSystemCreate_run [of f k t] show ?thesis
        by (simp add: andThen_def ignore_def bind_def)
    qed
  qed (simp add: ret_def)
  then show ?thesis by (simp add: rootioFormat_def image_subset_iff)
qed

subsection \<open>The program\<close>

text \<open>
  The commands in the order \<open>init\<close> adds them.  Which one runs is decided by the package \<open>cobra\<close>:
  the parameter \<open>dispatch\<close> is what it makes of the command line, given the names of the commands:
  an error, or nothing to run (a help text), or the name of a command.  \<open>version\<close> only prints.
\<close>

record command =
  Use :: string
  Short :: string
  RunCmd :: "Metadata \<Rightarrow> unit act"

definition rootioVersion :: "Metadata \<Rightarrow> unit act" where
  "rootioVersion md = ret ()"

definition rootioCmd :: "command list" where
  "rootioCmd =
     [\<lparr>Use = ''wipe'', Short = ''Use rootio to wipe disks based upon metadata'', RunCmd = rootioWipe\<rparr>,
      \<lparr>Use = ''format'', Short = ''Use rootio to format disks based upon metadata'', RunCmd = rootioFormat\<rparr>,
      \<lparr>Use = ''partition'', Short = ''Use rootio to partition disks based upon metadata'', RunCmd = rootioPartition\<rparr>,
      \<lparr>Use = ''mount'', Short = ''Use rootio to mount disks based upon metadata'', RunCmd = rootioMount\<rparr>,
      \<lparr>Use = ''fstab'', Short = ''Generate /etc/fstab from storage.filesystems metadata'', RunCmd = rootioFstab\<rparr>,
      \<lparr>Use = ''version'', Short = ''Version and Release information about the rootio storage manager'', RunCmd = rootioVersion\<rparr>]"

type_synonym dispatcher = "string list \<Rightarrow> goerr + string option"

definition rootio_Execute :: "dispatcher \<Rightarrow> Metadata \<Rightarrow> unit act" where
  "rootio_Execute dispatch md =
     (case dispatch (map Use rootioCmd) of
        Inl err \<Rightarrow> os_exit 1
      | Inr None \<Rightarrow> ret ()
      | Inr (Some name) \<Rightarrow>
          (case find (\<lambda>c. Use c = name) rootioCmd of None \<Rightarrow> ret () | Some c \<Rightarrow> RunCmd c md))"

text \<open>\<open>init\<close> runs before \<open>main\<close>.\<close>

definition rootio :: "(goerr + string \<Rightarrow> goerr + Metadata) \<Rightarrow> decoder \<Rightarrow> dispatcher \<Rightarrow> unit act" where
  "rootio unmarshal decode dispatch = bind (rootio_init unmarshal decode) (rootio_Execute dispatch)"

lemma rootioCmd_names: "map Use rootioCmd = [''wipe'', ''format'', ''partition'', ''mount'', ''fstab'', ''version'']"
  by (simp add: rootioCmd_def)

lemma rootioCmd_find:
  "(case find (\<lambda>c. Use c = name) rootioCmd of None \<Rightarrow> ret () | Some c \<Rightarrow> RunCmd c md) =
     (if name = ''wipe'' then rootioWipe md
      else if name = ''format'' then rootioFormat md
      else if name = ''partition'' then rootioPartition md
      else if name = ''mount'' then rootioMount md
      else if name = ''fstab'' then rootioFstab md
      else ret ())"
  by (simp add: rootioCmd_def rootioVersion_def eq_commute [of _ name])

text \<open>The loading on its own, before an error of it ends the process.\<close>

definition load_metadata :: "(goerr + string \<Rightarrow> goerr + Metadata) \<Rightarrow> decoder \<Rightarrow> kernel \<Rightarrow> call list \<Rightarrow> (goerr + Metadata) res \<times> call list" where
  "load_metadata unmarshal decode k t =
     (if env k ''TEST'' \<noteq> [] then test_metadata unmarshal k t else RetrieveData decode k t)"

lemma test_metadata_returns: "returns (test_metadata u)"
  unfolding test_metadata_def by (intro returns_intros)

lemma load_metadata_run: "\<exists>r t'. load_metadata u d k t = (Ret r, t')"
  unfolding load_metadata_def using returnsD [OF test_metadata_returns] returnsD [OF RetrieveData_returns] by simp

lemma rootio_load:
  "rootio u d dispatch k t = (case load_metadata u d k t of
     (Ret (Inr md), t') \<Rightarrow> rootio_Execute dispatch md k t' | (r, t') \<Rightarrow> (Exit 1, t'))"
proof -
  obtain r t' where l: "load_metadata u d k t = (Ret r, t')" using load_metadata_run by blast
  then have "bind (if env k ''TEST'' \<noteq> [] then test_metadata u else RetrieveData d) f k t = f r k t'"
    for f :: "goerr + Metadata \<Rightarrow> Metadata act"
    by (intro bind_run) (simp add: load_metadata_def split: if_splits)
  then have "rootio_init u d k t = (case r of Inl err \<Rightarrow> (Exit 1, t') | Inr md \<Rightarrow> (Ret md, t'))"
    by (simp add: rootio_init_def getenv_bind log_fatal_def os_exit_def ret_def split: sum.split)
  with l show ?thesis by (cases r) (simp_all add: rootio_def bind_def)
qed

text \<open>
  C33: Every use of the program needs the metadata: when it cannot be loaded, the process exits with
  status 1 after the calls of the loading, even when only the version or a help text was asked for.
  With the metadata, a command line that \<open>cobra\<close> refuses exits with status 1, and the name of a
  command runs exactly that command; \<open>version\<close> and a help text make no call of their own.
\<close>

theorem rootio_outcome:
  "rootio u d dispatch k t =
     (case load_metadata u d k t of
        (Ret (Inr md), t') \<Rightarrow>
          (case dispatch [''wipe'', ''format'', ''partition'', ''mount'', ''fstab'', ''version''] of
             Inl err \<Rightarrow> (Exit 1, t')
           | Inr None \<Rightarrow> (Ret (), t')
           | Inr (Some name) \<Rightarrow>
               if name = ''wipe'' then rootioWipe md k t'
               else if name = ''format'' then rootioFormat md k t'
               else if name = ''partition'' then rootioPartition md k t'
               else if name = ''mount'' then rootioMount md k t'
               else if name = ''fstab'' then rootioFstab md k t'
               else (Ret (), t'))
      | (r, t') \<Rightarrow> (Exit 1, t'))"
proof -
  obtain r t' where l: "load_metadata u d k t = (Ret r, t')" using load_metadata_run by blast
  show ?thesis
  proof (cases r)
    case (Inl err)
    with l show ?thesis by (simp add: rootio_load)
  next
    case (Inr md)
    with l have run: "rootio u d dispatch k t = rootio_Execute dispatch md k t'" by (simp add: rootio_load)
    show ?thesis
      unfolding l Inr run rootio_Execute_def rootioCmd_names
      by (cases "dispatch [''wipe'', ''format'', ''partition'', ''mount'', ''fstab'', ''version'']")
        (simp_all add: rootioCmd_find os_exit_def ret_def split: option.split)
  qed
qed

text \<open>Without a mirror host, \<open>rootio version\<close> fails like any other command, and makes no call.\<close>

lemma rootio_version_needs_metadata:
  assumes "env k ''TEST'' = []" and "env k ''MIRROR_HOST'' = []"
  shows "rootio u d (\<lambda>_. Inr (Some ''version'')) k t = (Exit 1, t)"
proof -
  have "New k t = (Ret (Inl (Errorf ''metadata: MIRROR_HOST env var is required'' [])), t)"
    using assms(2) by (simp add: New_def getenv_bind ret_def)
  then have "RetrieveData d k t = (Ret (Inl (Errorf ''metadata: MIRROR_HOST env var is required'' [])), t)"
    by (simp add: RetrieveData_def bind_def ret_def)
  with assms(1) show ?thesis by (simp add: rootio_load load_metadata_def)
qed

end
