(* ===== verification/GoRegexp.thy ===== *)
theory GoRegexp
  imports GoStrings "HOL-Library.Sublist"
begin

text \<open>
  Go's \<open>regexp.ReplaceAllString\<close> for the expressions of the program.  An expression is
  given by its matcher at a position: the groups of the match at the front of the text,
  group 0 first, or \<^const>\<open>None\<close>.  The expressions have no named groups and never match the
  empty string.  The replacement is a template in which \<open>$\<close> stands for a group.
\<close>

type_synonym groups = "string option list"
type_synonym matcher = "string \<Rightarrow> groups option"

definition name_char :: "char \<Rightarrow> bool" where
  "name_char c \<longleftrightarrow> is_letter c \<or> is_digit c \<or> c = CHR ''_''"

text \<open>
  The name behind a \<open>$\<close>, bare or in braces, and the text behind it; letters are taken to
  be ASCII.
\<close>

definition extract_name :: "string \<Rightarrow> (string \<times> string) option" where
  "extract_name s =
     (let brace = HasPrefix s ''{'';
          str = (if brace then tl s else s);
          name = takeWhile name_char str;
          rest = dropWhile name_char str
      in if name = [] then None
         else if brace then (if HasPrefix rest ''}'' then Some (name, tl rest) else None)
         else Some (name, rest))"

definition group_value :: "groups \<Rightarrow> string \<Rightarrow> string" where
  "group_value gs name =
     (if list_all is_digit name \<and> (hd name \<noteq> CHR ''0'' \<or> length name = 1) then
        (case parse_digits 10 0 name of
           Some n \<Rightarrow> if n < length gs then (case gs ! n of Some g \<Rightarrow> g | None \<Rightarrow> []) else []
         | None \<Rightarrow> [])
      else [])"

lemma extract_name_shorter: "extract_name s = Some (name, rest) \<Longrightarrow> length rest \<le> length s"
  using length_dropWhile_le [of name_char s] length_dropWhile_le [of name_char "tl s"]
  by (auto simp: extract_name_def Let_def split: if_splits)

function Expand :: "groups \<Rightarrow> string \<Rightarrow> string" where
  "Expand gs [] = []"
| "Expand gs (c # t) =
     (if c \<noteq> CHR ''$'' then c # Expand gs t
      else if HasPrefix t ''$'' then CHR ''$'' # Expand gs (tl t)
      else (case extract_name t of
              None \<Rightarrow> CHR ''$'' # Expand gs t
            | Some (name, rest) \<Rightarrow> group_value gs name @ Expand gs rest))"
  by pat_completeness auto
termination
  by (relation "measure (\<lambda>(gs, t). length t)") (auto dest: extract_name_shorter)

lemma Expand_plain [simp]: "CHR ''$'' \<notin> set t \<Longrightarrow> Expand gs t = t"
  by (induction t) auto

lemma Expand_plain_append [simp]: "CHR ''$'' \<notin> set t \<Longrightarrow> Expand gs (t @ u) = t @ Expand gs u"
  by (induction t) auto

text \<open>Replacing the leftmost, non-overlapping matches.\<close>

definition matched :: "groups \<Rightarrow> string" where
  "matched gs = (case gs of Some m # _ \<Rightarrow> m | _ \<Rightarrow> [])"

function ReplaceMatches :: "matcher \<Rightarrow> string \<Rightarrow> string \<Rightarrow> string" where
  "ReplaceMatches m template [] = []"
| "ReplaceMatches m template (c # s) =
     (case m (c # s) of
        None \<Rightarrow> c # ReplaceMatches m template s
      | Some gs \<Rightarrow> Expand gs template @ ReplaceMatches m template (drop (length (matched gs) - 1) s))"
  by pat_completeness auto
termination
  by (relation "measure (\<lambda>(m, t, s). length s)") auto

declare ReplaceMatches.simps(2) [simp del]

lemma ReplaceMatches_match:
  "m (x @ r) = Some gs \<Longrightarrow> matched gs = x \<Longrightarrow> x \<noteq> [] \<Longrightarrow>
   ReplaceMatches m t (x @ r) = Expand gs t @ ReplaceMatches m t r"
  by (cases x) (simp_all add: ReplaceMatches.simps(2))

lemma ReplaceMatches_skip: "m (c # s) = None \<Longrightarrow> ReplaceMatches m t (c # s) = c # ReplaceMatches m t s"
  by (simp add: ReplaceMatches.simps(2))

lemma ReplaceMatches_skips:
  "(\<And>c y. c \<in> set x \<Longrightarrow> m (c # y) = None) \<Longrightarrow> ReplaceMatches m t (x @ r) = x @ ReplaceMatches m t r"
  by (induction x) (simp_all add: ReplaceMatches_skip)

text \<open>
  An expression that starts with the text \<open>w\<close> has no match in a text without \<open>w\<close>, not even one
  that reaches into what follows, if that starts with an \<open>h\<close> no end of \<open>w\<close> runs into.
\<close>

definition no_overlap :: "string \<Rightarrow> string \<Rightarrow> bool" where
  "no_overlap w h \<longleftrightarrow> list_all (\<lambda>n. \<not> prefix (drop n w) h \<and> \<not> prefix h (drop n w)) [1..<length w]"

lemma ReplaceMatches_gap:
  assumes "\<not> Contains g w" and "\<And>s. \<not> HasPrefix s w \<Longrightarrow> m s = None"
    and "r = [] \<or> (\<exists>h. no_overlap w h \<and> prefix h r)"
  shows "ReplaceMatches m t (g @ r) = g @ ReplaceMatches m t r"
  using assms(1)
proof (induction g)
  case (Cons c g)
  have "\<not> prefix w (c # g @ r)"
  proof
    assume w: "prefix w (c # g @ r)"
    have "\<not> prefix w (c # g)"
    proof
      assume "prefix w (c # g)"
      then obtain v where "c # g = [] @ w @ v" by (auto elim: prefixE)
      then show False using Cons.prems by (metis Contains_iff)
    qed
    with w prefix_append [of w "c # g" r] obtain y where y: "w = (c # g) @ y" "prefix y r" by auto
    with \<open>\<not> prefix w (c # g)\<close> have ne: "y \<noteq> []" by auto
    with y assms(3) obtain h where h: "no_overlap w h" "prefix h r" by auto
    have "prefix y h \<or> prefix h y" using y(2) h(2) by (rule prefix_same_cases)
    moreover have "length (c # g) < length w" using y(1) ne by simp
    then have "length (c # g) \<in> set [1..<length w]" by simp
    moreover have "drop (length (c # g)) w = y" using y(1) by simp
    ultimately show False using h(1) unfolding no_overlap_def list_all_iff by metis
  qed
  then have "\<not> HasPrefix (c # g @ r) w" by (auto simp: HasPrefix_iff prefix_def)
  then have "m (c # g @ r) = None" by (rule assms(2))
  moreover have "\<not> Contains g w" using Cons.prems by simp
  ultimately show ?case using Cons.IH by (simp add: ReplaceMatches_skip)
qed simp

end
