(* ===== verification/Users.thy ===== *)
theory Users
  imports GoRegexp Chroot
begin

text \<open>
  The \<open>user-manage\<close> action: the package \<open>internal/users\<close>, which rewrites \<open>sshd_config\<close>,
  creates users, sets passwords and installs keys, and the main program that applies the
  metadata inside the new root.
\<close>

subsection \<open>Directives of \<open>sshd_config\<close>\<close>

text \<open>
  The expression \<open>(?m)^#?[ \t]*directive[ \t]+.*$\<close>.  A match spans one whole line, since
  it starts behind a line break and \<open>.\<close> matches everything but one; so matching and
  replacing go line by line.
\<close>

definition blank :: "char \<Rightarrow> bool" where
  "blank c \<longleftrightarrow> c = CHR '' '' \<or> c = CHR 0x09"

definition directive_line :: "string \<Rightarrow> string \<Rightarrow> bool" where
  "directive_line directive line =
     (let l = dropWhile blank (TrimPrefix line ''#'');
          rest = drop (length directive) l
      in HasPrefix l directive \<and> rest \<noteq> [] \<and> blank (hd rest))"

definition matches :: "string \<Rightarrow> string \<Rightarrow> bool" where
  "matches directive s \<longleftrightarrow> list_ex (directive_line directive) (Split s NL)"

definition replace_lines :: "string \<Rightarrow> string \<Rightarrow> string \<Rightarrow> string" where
  "replace_lines directive template s =
     Join (map (\<lambda>l. if directive_line directive l then Expand [Some l] template else l) (Split s NL)) NL"

definition replaceDirective :: "string \<Rightarrow> string \<Rightarrow> string \<Rightarrow> string" where
  "replaceDirective s directive val =
     (if matches directive s then
        let s' = (if \<not> HasPrefix s NL then NL @ s else s)
        in replace_lines directive (directive @ '' '' @ val) s'
      else
        let s' = (if \<not> HasSuffix s NL then s @ NL else s)
        in s' @ directive @ '' '' @ val @ NL)"

definition RewriteSSHDConfig :: "string \<Rightarrow> SSHD option \<Rightarrow> string" where
  "RewriteSSHDConfig inp s =
     (case s of
        None \<Rightarrow> inp
      | Some d \<Rightarrow>
          let out = (if PermitRootLogin d \<noteq> []
                     then replaceDirective inp ''PermitRootLogin'' (PermitRootLogin d) else inp)
          in (case PasswordAuthentication d of
                None \<Rightarrow> out
              | Some b \<Rightarrow> replaceDirective out ''PasswordAuthentication'' (if b then ''yes'' else ''no'')))"

subsection \<open>Users, passwords and keys\<close>

definition SetPassword :: "string \<Rightarrow> string \<Rightarrow> goerr option act" where
  "SetPassword user cryptedPassword =
     sys (Run ''chpasswd'' [''-e''] (Some (user @ '':'' @ cryptedPassword @ NL)))"

definition users_run :: "string \<Rightarrow> string list \<Rightarrow> goerr option act" where
  "users_run name args = sys (Run name args None)"

definition EnsureUser :: "User \<Rightarrow> goerr option act" where
  "EnsureUser u =
     bind (sys (Run ''id'' [''-u'', user_Username u] None)) (\<lambda>err.
     case err of
       None \<Rightarrow> ret None
     | Some e \<Rightarrow>
         let shell = (if user_Shell u = [] then ''/bin/bash'' else user_Shell u)
         in users_run ''useradd'' [''-m'', ''-s'', shell, user_Username u])"

definition AddToGroup :: "string \<Rightarrow> string \<Rightarrow> goerr option act" where
  "AddToGroup user grp = users_run ''gpasswd'' [''-a'', user, grp]"

definition WriteAuthorizedKeys :: "string \<Rightarrow> string list \<Rightarrow> goerr option act" where
  "WriteAuthorizedKeys user keys =
     (if length keys = 0 then ret None
      else
        let home = (if user \<noteq> ''root'' then PathJoin [''/home'', user] else ''/root'');
            sshDir = PathJoin [home, ''.ssh''];
            path = PathJoin [sshDir, ''authorized_keys''];
            body = Join keys NL @ NL
        in check (sys (MkdirAll sshDir mode_0700)) (Wrapf ''mkdir %s: %w'' [sshDir])
          (check (sys (WriteFile path body mode_0600)) (Wrapf ''write %s: %w'' [path])
          (users_run ''chown'' [''-R'', user @ '':'' @ user, sshDir])))"

subsection \<open>The main program\<close>

definition sshdConfig :: string where "sshdConfig = ''/etc/ssh/sshd_config''"

text \<open>One turn of the loop over the users.\<close>

definition apply_user :: "User \<Rightarrow> unit act" where
  "apply_user u =
     andThen (must_ok (EnsureUser u))
    (andThen (if user_CryptedPassword u \<noteq> []
              then must_ok (SetPassword (user_Username u) (user_CryptedPassword u)) else ret ())
    (andThen (must_ok (WriteAuthorizedKeys (user_Username u) (user_SSHAuthorizedKeys u)))
    (if user_Sudo u then must_ok (AddToGroup (user_Username u) ''sudo'') else ret ())))"

text \<open>Everything after the new root is entered.\<close>

definition apply_instance :: "Instance \<Rightarrow> unit act" where
  "apply_instance inst =
     andThen (if inst_CryptedRootPassword inst \<noteq> []
              then must_ok (SetPassword ''root'' (inst_CryptedRootPassword inst)) else ret ())
    (andThen (must_ok (WriteAuthorizedKeys ''root'' (inst_SSHKeys inst)))
    (andThen (for_each (inst_Users inst) apply_user)
    (case inst_SSHD inst of
       None \<Rightarrow> ret ()
     | Some sshd \<Rightarrow>
         bind (sys_read sshdConfig) (\<lambda>r.
         case r of
           Inl err \<Rightarrow> log_fatal
         | Inr inp \<Rightarrow>
             must_ok (sys (WriteFile sshdConfig (RewriteSSHDConfig inp (Some sshd)) mode_0644))))))"

definition user_manage :: "decoder \<Rightarrow> unit act" where
  "user_manage decode =
     bind (must_metadata decode) (\<lambda>md.
     let inst = md_Instance md in
     bind (getenv ''BLOCK_DEVICE'') (\<lambda>dev.
     bind (getenv ''FS_TYPE'') (\<lambda>fsType.
     andThen (must_ok (Enter dev fsType (Filesystems (inst_Storage inst))))
       (apply_instance inst))))"

subsection \<open>What a replacement does to the lines\<close>

text \<open>A directive as the program uses them, and a value that is one line without \<open>$\<close>.\<close>

definition directive_ok :: "string \<Rightarrow> bool" where
  "directive_ok d \<longleftrightarrow> d \<noteq> [] \<and> hd d \<noteq> CHR ''#'' \<and> \<not> blank (hd d) \<and> CHR 0x0A \<notin> set d \<and> CHR ''$'' \<notin> set d"

definition value_ok :: "string \<Rightarrow> bool" where
  "value_ok v \<longleftrightarrow> CHR 0x0A \<notin> set v \<and> CHR ''$'' \<notin> set v"

lemma directive_line_own: "directive_ok d \<Longrightarrow> directive_line d (d @ '' '' @ v)"
  by (cases d) (auto simp: directive_ok_def directive_line_def TrimPrefix_def blank_def HasPrefix_def)

lemma directive_line_Nil [simp]: "directive_ok d \<Longrightarrow> \<not> directive_line d []"
  by (cases d) (auto simp: directive_ok_def directive_line_def TrimPrefix_def)

lemmas Split_NL_append = Split_char_concat [of _ "CHR 0x0A"]

definition set_line :: "string \<Rightarrow> string \<Rightarrow> string \<Rightarrow> string" where
  "set_line d v l = (if directive_line d l then d @ '' '' @ v else l)"

lemma replace_lines_plain:
  assumes "directive_ok d" and "value_ok v"
  shows "Split (replace_lines d (d @ '' '' @ v) s) NL = map (set_line d v) (Split s NL)"
proof -
  have "CHR ''$'' \<notin> set (d @ '' '' @ v)" using assms by (simp add: directive_ok_def value_ok_def)
  then have t: "Expand [Some l] (d @ '' '' @ v) = d @ '' '' @ v" for l by (rule Expand_plain)
  have "\<forall>l\<in>set (map (set_line d v) (Split s NL)). CHR 0x0A \<notin> set l"
    using assms by (auto simp: set_line_def directive_ok_def value_ok_def dest: Split_char_pieces)
  then have "Split (Join (map (set_line d v) (Split s NL)) NL) NL = map (set_line d v) (Split s NL)"
    by (intro Split_Join_char) auto
  moreover have "replace_lines d (d @ '' '' @ v) s = Join (map (set_line d v) (Split s NL)) NL"
    unfolding replace_lines_def t set_line_def [abs_def] ..
  ultimately show ?thesis by simp
qed

lemma replaceDirective_present:
  assumes "directive_ok d" and "value_ok v" and "matches d s"
  shows "Split (replaceDirective s d v) NL =
     (if HasPrefix s NL then [] else [[]]) @ map (set_line d v) (Split s NL)"
proof -
  have "Split (CHR 0x0A # s) NL = [] # Split s NL" by simp
  moreover have "set_line d v [] = []" using assms(1) by (simp add: set_line_def)
  ultimately show ?thesis
    using assms(3) replace_lines_plain [OF assms(1,2), of s] replace_lines_plain [OF assms(1,2), of "CHR 0x0A # s"]
    unfolding replaceDirective_def Let_def by (auto simp del: Split_char_simps)
qed

lemma replaceDirective_absent:
  assumes "directive_ok d" and "value_ok v" and "\<not> matches d s"
  shows "Split (replaceDirective s d v) NL =
     (if HasSuffix s NL then butlast (Split s NL) else Split s NL) @ [d @ '' '' @ v, []]"
proof -
  have new: "CHR 0x0A \<notin> set (d @ '' '' @ v)" using assms by (simp add: directive_ok_def value_ok_def)
  define u where "u = (if HasSuffix s NL then butlast s else s)"
  have out: "replaceDirective s d v = u @ CHR 0x0A # ((d @ '' '' @ v) @ CHR 0x0A # [])"
    using assms(3) by (auto simp: replaceDirective_def u_def HasSuffix_iff)
  have "Split u NL = (if HasSuffix s NL then butlast (Split s NL) else Split s NL)"
  proof (cases "HasSuffix s NL")
    case True
    then have "s = u @ CHR 0x0A # []" by (auto simp: u_def HasSuffix_iff)
    then have "Split s NL = Split u NL @ [[]]" using Split_NL_append [of u "[]"] by simp
    with True show ?thesis by simp
  qed (simp add: u_def)
  then show ?thesis
    unfolding out Split_NL_append Split_char_free [OF new] by simp
qed

text \<open>
  The two laws of a replacement: the lines of the directive are now its new line only, and
  every other line that is not empty is kept, in order.
\<close>

lemma replaceDirective_own:
  assumes "directive_ok d" and "value_ok v"
  shows "set (filter (directive_line d) (Split (replaceDirective s d v) NL)) = {d @ '' '' @ v}"
proof (cases "matches d s")
  case True
  then show ?thesis
    using directive_line_own [OF assms(1), of v] assms(1)
    unfolding replaceDirective_present [OF assms True] matches_def
    by (auto simp: set_line_def list_ex_iff image_iff split: if_splits)
next
  case False
  then have "\<not> directive_line d l" if "l \<in> set (Split s NL)" for l
    using that by (simp add: matches_def list_ex_iff)
  then show ?thesis
    using directive_line_own [OF assms(1), of v] assms(1)
    unfolding replaceDirective_absent [OF assms False]
    by (auto dest: in_set_butlastD)
qed

lemma filter_butlast_empty: "xs \<noteq> [] \<Longrightarrow> last xs = [] \<Longrightarrow> \<not> P [] \<Longrightarrow> filter P (butlast xs) = filter P xs"
  by (metis append_butlast_last_id append_Nil2 filter.simps filter_append)

lemma last_Split_suffix: "HasSuffix s NL \<Longrightarrow> last (Split s NL) = []"
  using Split_NL_append [of _ "[]"] by (auto simp: HasSuffix_iff)

lemma replaceDirective_others:
  assumes "directive_ok d" and "value_ok v"
    and "\<not> P []" and "\<And>l. P l \<Longrightarrow> \<not> directive_line d l"
  shows "filter P (Split (replaceDirective s d v) NL) = filter P (Split s NL)"
proof (cases "matches d s")
  case True
  have "filter P (map (set_line d v) ls) = filter P ls" for ls
    using assms(4) directive_line_own [OF assms(1), of v] by (induction ls) (auto simp: set_line_def)
  then show ?thesis
    unfolding replaceDirective_present [OF assms(1,2) True] using assms(3) by simp
next
  case False
  have "\<not> P (d @ '' '' @ v)" using assms(4) directive_line_own [OF assms(1)] by blast
  then show ?thesis
    unfolding replaceDirective_absent [OF assms(1,2) False]
    using assms(3) filter_butlast_empty [of "Split s NL" P] last_Split_suffix [of s] by simp
qed

lemma directives_ok: "directive_ok ''PermitRootLogin''" "directive_ok ''PasswordAuthentication''"
  by (simp_all add: directive_ok_def blank_def)

lemma directives_apart:
  "directive_line ''PermitRootLogin'' l \<Longrightarrow> \<not> directive_line ''PasswordAuthentication'' l"
  by (auto simp: directive_line_def Let_def HasPrefix_iff)

definition other_line :: "string \<Rightarrow> bool" where
  "other_line l \<longleftrightarrow> l \<noteq> [] \<and> \<not> directive_line ''PermitRootLogin'' l \<and> \<not> directive_line ''PasswordAuthentication'' l"

definition own_lines :: "string \<Rightarrow> string \<Rightarrow> string list" where
  "own_lines d s = filter (directive_line d) (Split s NL)"

lemma rewrite_login:
  assumes "value_ok v"
  shows "set (own_lines ''PermitRootLogin'' (replaceDirective s ''PermitRootLogin'' v)) = {''PermitRootLogin '' @ v}"
    and "own_lines ''PasswordAuthentication'' (replaceDirective s ''PermitRootLogin'' v) = own_lines ''PasswordAuthentication'' s"
    and "filter other_line (Split (replaceDirective s ''PermitRootLogin'' v) NL) = filter other_line (Split s NL)"
  using replaceDirective_own [OF directives_ok(1) assms, of s]
    replaceDirective_others [OF directives_ok(1) assms, of "directive_line ''PasswordAuthentication''" s]
    replaceDirective_others [OF directives_ok(1) assms, of other_line s]
    directives_apart directives_ok
  by (auto simp: own_lines_def other_line_def)

lemma rewrite_password:
  assumes "value_ok v"
  shows "set (own_lines ''PasswordAuthentication'' (replaceDirective s ''PasswordAuthentication'' v)) = {''PasswordAuthentication '' @ v}"
    and "own_lines ''PermitRootLogin'' (replaceDirective s ''PasswordAuthentication'' v) = own_lines ''PermitRootLogin'' s"
    and "filter other_line (Split (replaceDirective s ''PasswordAuthentication'' v) NL) = filter other_line (Split s NL)"
  using replaceDirective_own [OF directives_ok(2) assms, of s]
    replaceDirective_others [OF directives_ok(2) assms, of "directive_line ''PermitRootLogin''" s]
    replaceDirective_others [OF directives_ok(2) assms, of other_line s]
    directives_apart directives_ok
  by (auto simp: own_lines_def other_line_def)



lemma matches_replaced:
  assumes "directive_ok d" and "value_ok v" shows "matches d (replaceDirective s d v)"
proof -
  have "d @ '' '' @ v \<in> set (filter (directive_line d) (Split (replaceDirective s d v) NL))"
    unfolding replaceDirective_own [OF assms] by simp
  then show ?thesis by (auto simp: matches_def list_ex_iff)
qed

lemma Split_inj: "Split a NL = Split b NL \<Longrightarrow> a = b"
  by (metis Join_Split)

lemma HasPrefix_NL_Split: "HasPrefix s NL \<longleftrightarrow> (\<exists>xs. xs \<noteq> [] \<and> Split s NL = [] # xs)"
proof (cases s)
  case (Cons c cs)
  obtain x xs where x: "Split cs NL = x # xs" by (cases "Split cs NL") simp_all
  show ?thesis by (cases "c = CHR 0x0A") (simp_all add: Cons x)
qed simp

text \<open>
  Replacing a directive again changes nothing once the directive is in the file and
  the file starts with a line break, which the first replacement of a present directive
  sees to; so after at most two rounds the file is stable.
\<close>

theorem replaceDirective_stable:
  assumes "directive_ok d" and "value_ok v"
  defines "f \<equiv> \<lambda>s. replaceDirective s d v"
  shows "(if matches d s then f (f s) = f s else f (f (f s)) = f (f s))"
proof -
  have idem: "f (f s) = f s" if "matches d s" for s
  proof (rule Split_inj)
    have "map (set_line d v) (map (set_line d v) ls) = map (set_line d v) ls" for ls
      using directive_line_own [OF assms(1)] by (simp add: set_line_def)
    moreover have "HasPrefix (f s) NL"
      using replaceDirective_present [OF assms(1,2) that] assms(1)
      by (auto simp: HasPrefix_NL_Split f_def set_line_def)
    ultimately show "Split (f (f s)) NL = Split (f s) NL"
      using replaceDirective_present [OF assms(1,2) that] assms(1)
        replaceDirective_present [OF assms(1,2) matches_replaced [OF assms(1,2)], of s]
      by (auto simp: f_def set_line_def)
  qed
  moreover have "matches d (f s)" unfolding f_def by (rule matches_replaced [OF assms(1,2)])
  ultimately show ?thesis by simp
qed

theorem replaceDirective_stable_witness:
  "replaceDirective (replaceDirective ''UsePAM no'' ''UsePAM'' ''yes'') ''UsePAM'' ''yes''
     = replaceDirective ''UsePAM no'' ''UsePAM'' ''yes''"
proof -
  have "directive_ok ''UsePAM''" "value_ok ''yes''" "matches ''UsePAM'' ''UsePAM no''"
    by (simp_all add: directive_ok_def value_ok_def matches_def directive_line_def blank_def TrimPrefix_def)
  with replaceDirective_stable [of "''UsePAM''" "''yes''" "''UsePAM no''"] show ?thesis by simp
qed

subsection \<open>Authorized keys\<close>

definition home_of :: "string \<Rightarrow> string" where
  "home_of user = (if user = ''root'' then ''/root'' else ''/home/'' @ user)"

definition keys_plan :: "string \<times> string list \<Rightarrow> step list" where
  "keys_plan = (\<lambda>(user, keys).
     let sshDir = home_of user @ ''/.ssh''; path = sshDir @ ''/authorized_keys'' in
     [(MkdirAll sshDir mode_0700, Wrapf ''mkdir %s: %w'' [sshDir]),
      (WriteFile path (Join keys NL @ NL) mode_0600, Wrapf ''write %s: %w'' [path]),
      (Run ''chown'' [''-R'', user @ '':'' @ user, sshDir] None, \<lambda>e. e)])"

lemma clean_below:
  assumes "\<forall>e\<in>set es. ordinary e" and "es \<noteq> []"
  shows "Clean (CHR ''/'' # Join es ''/'') = CHR ''/'' # Join es ''/''"
  using path_elems_rooted_Join [OF assms(1)] by (simp add: Clean_abs IsAbs_def)

lemma ordinary_names: "ordinary ''home''" "ordinary ''root''" "ordinary ''.ssh''" "ordinary ''authorized_keys''"
  by (simp_all add: ordinary_def)

lemma key_paths:
  assumes "ordinary user"
  shows "PathJoin [''/home'', user] = ''/home/'' @ user"
    and "PathJoin [home_of user, ''.ssh''] = home_of user @ ''/.ssh''"
    and "PathJoin [home_of user @ ''/.ssh'', ''authorized_keys''] = home_of user @ ''/.ssh/authorized_keys''"
  using assms clean_below [of "[''home'', user]"] clean_below [of "[''root'', ''.ssh'']"]
    clean_below [of "[''home'', user, ''.ssh'']"] clean_below [of "[''root'', ''.ssh'', ''authorized_keys'']"]
    clean_below [of "[''home'', user, ''.ssh'', ''authorized_keys'']"]
  by (simp_all add: PathJoin_def home_of_def ordinary_names)

lemma WriteAuthorizedKeys_script:
  assumes "ordinary user"
  shows "WriteAuthorizedKeys user keys = (if keys = [] then ret None else script (keys_plan (user, keys)))"
proof -
  have h: "(if user \<noteq> ''root'' then PathJoin [''/home'', user] else ''/root'') = home_of user"
    using key_paths(1) [OF assms] by (simp add: home_of_def)
  have p: "home_of user @ ''/.ssh'' @ ''/authorized_keys'' = home_of user @ ''/.ssh/authorized_keys''" by simp
  show ?thesis
    unfolding WriteAuthorizedKeys_def h Let_def key_paths(2) [OF assms] key_paths(3) [OF assms]
    by (simp add: keys_plan_def users_run_def Let_def)
qed

text \<open>
  For a user name that is a plain file name, keys are installed by exactly three
  calls: the \<open>.ssh\<close> directory of the user's home with mode 0700, the key file below it with
  mode 0600, and a recursive \<open>chown\<close> to the user; the installation succeeds exactly when all
  three do, and the file's lines are the keys.
\<close>

theorem WriteAuthorizedKeys_plan:
  assumes "ordinary user" and "keys \<noteq> []" and "\<forall>key\<in>set keys. CHR 0x0A \<notin> set key"
  shows "(fst (WriteAuthorizedKeys user keys k t) = Ret None \<longleftrightarrow> all_ok k t (map fst (keys_plan (user, keys))))
    \<and> prefix (snd (WriteAuthorizedKeys user keys k t)) (t @ map fst (keys_plan (user, keys)))
    \<and> map fst (keys_plan (user, keys)) =
        [MkdirAll (home_of user @ ''/.ssh'') mode_0700,
         WriteFile (home_of user @ ''/.ssh/authorized_keys'') (Join keys NL @ NL) mode_0600,
         Run ''chown'' [''-R'', user @ '':'' @ user, home_of user @ ''/.ssh''] None]
    \<and> Split (Join keys NL @ NL) NL = keys @ [[]]"
proof -
  let ?ss = "keys_plan (user, keys)"
  have w: "WriteAuthorizedKeys user keys = script ?ss"
    using WriteAuthorizedKeys_script [OF assms(1)] assms(2) by simp
  have "Split (Join keys NL @ NL) NL = Split (Join keys NL) NL @ [[]]"
    using Split_NL_append [of "Join keys NL" "[]"] by simp
  also have "Split (Join keys NL) NL = keys" using assms(2,3) by (intro Split_Join_char) auto
  finally have sp: "Split (Join keys NL @ NL) NL = keys @ [[]]" .
  have pl: "map fst ?ss = [MkdirAll (home_of user @ ''/.ssh'') mode_0700,
         WriteFile (home_of user @ ''/.ssh/authorized_keys'') (Join keys NL @ NL) mode_0600,
         Run ''chown'' [''-R'', user @ '':'' @ user, home_of user @ ''/.ssh''] None]"
    by (simp add: keys_plan_def Let_def)
  have "prefix (snd (script ?ss k t)) (t @ map fst ?ss)
      \<and> (fst (script ?ss k t) = Ret None \<longleftrightarrow> all_ok k t (map fst ?ss))"
    using script_ok [of k t ?ss] script_fail [of k t ?ss]
    by (cases "all_ok k t (map fst ?ss)") (auto simp: take_is_prefix)
  with pl sp show ?thesis unfolding w by blast
qed

theorem WriteAuthorizedKeys_plan_witness:
  "fst (WriteAuthorizedKeys ''core'' [''ssh-ed25519 AAAA'', ''ssh-rsa BBBB''] quiet []) = Ret None"
  using WriteAuthorizedKeys_plan [of "''core''" "[''ssh-ed25519 AAAA'', ''ssh-rsa BBBB'']" quiet "[]"]
  by (simp add: ordinary_def)

subsection \<open>Whose password is set\<close>

text \<open>
  What \<open>chpasswd\<close> reads: one entry on each line, the name up to the first colon and the password
  behind it.
\<close>

definition chpasswd_entry :: "string \<Rightarrow> string \<times> string" where
  "chpasswd_entry l = (case Cut l '':'' of None \<Rightarrow> (l, []) | Some e \<Rightarrow> e)"

definition chpasswd_entries :: "string \<Rightarrow> (string \<times> string) list" where
  "chpasswd_entries inp = map chpasswd_entry (butlast (Split inp NL))"

lemma chpasswd_entry_eq: "chpasswd_entry (u @ CHR '':'' # h) = (u, h) \<longleftrightarrow> CHR '':'' \<notin> set u"
proof (cases "CHR '':'' \<in> set u")
  case True
  then obtain a b where u: "u = a @ CHR '':'' # b" and a: "CHR '':'' \<notin> set a" by (auto dest: split_list_first)
  have "Cut (a @ CHR '':'' # (b @ CHR '':'' # h)) '':'' = Some (a, b @ CHR '':'' # h)"
    using Cut_absent_head [OF a, of "[]" "b @ CHR '':'' # h"] by simp
  then show ?thesis using True by (simp add: chpasswd_entry_def u)
next
  case False
  with Cut_absent_head [OF False, of "[]" h] show ?thesis by (simp add: chpasswd_entry_def)
qed

text \<open>
  C25: \<open>SetPassword\<close> hands its user and password to \<open>chpasswd\<close> as exactly one entry if and only if the
  name has neither a colon nor a line break and the password no line break.  Otherwise the password
  goes to another account, and a line break adds entries for further ones; nothing in the program
  checks the names of the metadata.
\<close>

theorem SetPassword_entries:
  "\<exists>inp. SetPassword user pw = sys (Run ''chpasswd'' [''-e''] (Some inp))
     \<and> (chpasswd_entries inp = [(user, pw)] \<longleftrightarrow> CHR '':'' \<notin> set user \<and> CHR 0x0A \<notin> set user \<and> CHR 0x0A \<notin> set pw)"
proof -
  define l where "l = user @ CHR '':'' # pw"
  have inp: "user @ '':'' @ pw @ NL = l @ CHR 0x0A # []" by (simp add: l_def)
  have "chpasswd_entries (l @ CHR 0x0A # []) = map chpasswd_entry (Split l NL)"
    by (simp only: chpasswd_entries_def Split_NL_append) simp
  moreover have "map chpasswd_entry (Split l NL) = [(user, pw)] \<longleftrightarrow> CHR '':'' \<notin> set user \<and> CHR 0x0A \<notin> set l"
  proof (cases "CHR 0x0A \<in> set l")
    case True
    then obtain a b where "l = a @ CHR 0x0A # b" by (auto dest: split_list)
    then have "Split l NL = Split a NL @ Split b NL" by (simp only: Split_NL_append)
    moreover have "Split a NL \<noteq> []" "Split b NL \<noteq> []" by simp_all
    ultimately show ?thesis using True by (cases "Split a NL"; cases "Split b NL") auto
  next
    case False
    then show ?thesis by (simp add: Split_char_free chpasswd_entry_eq l_def)
  qed
  ultimately show ?thesis
    by (intro exI [of _ "l @ CHR 0x0A # []"]) (auto simp: SetPassword_def inp l_def)
qed

text \<open>A name with a colon and a line break sets the password of another account.\<close>

lemma SetPassword_two_accounts:
  assumes "CHR '':'' \<notin> set u \<union> set v" and "CHR 0x0A \<notin> set u \<union> set x \<union> set v \<union> set pw"
  shows "chpasswd_entries ((u @ '':'' @ x @ NL @ v) @ '':'' @ pw @ NL) = [(u, x), (v, pw)]"
proof -
  define a where "a = u @ CHR '':'' # x"
  define b where "b = v @ CHR '':'' # pw"
  have "Split (a @ CHR 0x0A # (b @ CHR 0x0A # [])) NL = [a, b, []]"
    using assms by (simp only: Split_NL_append) (simp add: Split_char_free a_def b_def)
  moreover have "chpasswd_entry a = (u, x)" "chpasswd_entry b = (v, pw)"
    using assms by (simp_all add: a_def b_def chpasswd_entry_eq)
  ultimately show ?thesis by (simp add: chpasswd_entries_def a_def b_def)
qed

subsection \<open>The order of the action\<close>

text \<open>
  The calls inside the new root.  What a program gets on its standard input is a line for
  \<open>chpasswd\<close>; no other program gets any input.
\<close>

definition user_call :: "call \<Rightarrow> bool" where
  "user_call c =
     (case c of
        Run p args (Some inp) \<Rightarrow> p = ''chpasswd'' \<and> args = [''-e''] \<and> HasSuffix inp NL
      | Run p args None \<Rightarrow> p \<in> {''id'', ''useradd'', ''gpasswd'', ''chown''}
      | MkdirAll _ m \<Rightarrow> m = mode_0700
      | WriteFile p _ m \<Rightarrow> m = mode_0600 \<or> p = sshdConfig \<and> m = mode_0644
      | ReadFile p \<Rightarrow> p = sshdConfig
      | _ \<Rightarrow> False)"

lemma WriteAuthorizedKeys_emits: "emits user_call (WriteAuthorizedKeys u ks)"
  by (auto simp: WriteAuthorizedKeys_def users_run_def user_call_def Let_def intro!: emits_intros)

lemma SetPassword_emits: "emits user_call (SetPassword u pw)"
  by (auto simp: SetPassword_def user_call_def HasSuffix_iff intro!: emits_intros)

lemma EnsureUser_emits: "emits user_call (EnsureUser u)"
  by (auto simp: EnsureUser_def users_run_def user_call_def Let_def intro!: emits_intros)

lemma AddToGroup_emits: "emits user_call (AddToGroup u g)"
  by (auto simp: AddToGroup_def users_run_def user_call_def intro!: emits_intros)

lemma apply_instance_emits: "emits user_call (apply_instance inst)"
  unfolding apply_instance_def apply_user_def
  by (intro emits_intros SetPassword_emits WriteAuthorizedKeys_emits EnsureUser_emits AddToGroup_emits)
    (simp_all add: user_call_def)

interpretation um: rooted_action user_manage must_metadata
    "\<lambda>k md. Some (root_gate k ''BLOCK_DEVICE'' ''FS_TYPE'' (Filesystems (inst_Storage (md_Instance md))))"
    "\<lambda>k md. apply_instance (md_Instance md)" is_http user_call "''BLOCK_DEVICE''" "''FS_TYPE''"
proof
  fix d k t
  show "user_manage d k t = bind (must_metadata d) (\<lambda>m k t.
      case Some (root_gate k ''BLOCK_DEVICE'' ''FS_TYPE'' (Filesystems (inst_Storage (md_Instance m)))) of
        None \<Rightarrow> (Ret (), t) | Some cs \<Rightarrow> andThen (must_all cs) (apply_instance (md_Instance m)) k t) k t"
    unfolding user_manage_def Let_def by (rule bind_same) (simp add: getenv_bind must_Enter)
qed (auto intro: must_metadata_emits apply_instance_emits root_gate_enters)

text \<open>
  The action first asks the metadata service, then enters the new root, and only
  there touches accounts, keys and \<open>sshd_config\<close>; password hashes reach \<open>chpasswd\<close> by its
  standard input, never as an argument, and key files and directories are private.
\<close>

theorem user_manage_phases: "phases [is_http, enter_call, user_call] (user_manage decode)"
  unfolding user_manage_def Let_def
  by (intro phases_emits_bind phases_getenv phases_emits_andThen phases_emits emits_must_ok
      must_metadata_emits Enter_calls apply_instance_emits)

end
