(* ===== verification/Grub.thy ===== *)
theory Grub
  imports GoOS
begin

text \<open>
  The package \<open>kexec/cmd/grub\<close>: reading the boot entries and the default entry out of a
  \<open>grub.cfg\<close>.  Go's index expressions panic out of range, so the parser's result is a sum:
  \<open>Inl\<close> the text of the panic, \<open>Inr\<close> the value.
\<close>

record Config =
  cfg_Name :: string
  cfg_Kernel :: string
  cfg_Initramfs :: string
  cfg_KernelArgs :: string
  cfg_Multiboot :: string
  cfg_MultibootArgs :: string
  cfg_Modules :: "string list"

definition new_Config :: Config where
  "new_Config = \<lparr>cfg_Name = [], cfg_Kernel = [], cfg_Initramfs = [], cfg_KernelArgs = [],
     cfg_Multiboot = [], cfg_MultibootArgs = [], cfg_Modules = []\<rparr>"

definition trimQuote :: "string \<Rightarrow> string" where
  "trimQuote s =
     (let s1 = (if s \<noteq> [] \<and> hd s = CHR 0x22 then tl s else s)
      in if s1 \<noteq> [] \<and> last s1 = CHR 0x22 then butlast s1 else s1)"

text \<open>
  The variables of the loop.  \<open>cfg\<close> is nil until the first \<open>menuentry\<close>, which is also
  when \<open>inMenuEntry\<close> becomes true.
\<close>

record parser =
  configs :: "Config list"
  defaultConfig :: int
  inMenuEntry :: bool
  cfg :: "Config option"

definition start_parser :: parser where
  "start_parser = \<lparr>configs = [], defaultConfig = 0, inMenuEntry = False, cfg = None\<rparr>"

definition index_panic :: string where
  "index_panic = ''index out of range''"

text \<open>The valid boot entries: those with a kernel and an initial RAM disk.\<close>

definition bootable :: "Config \<Rightarrow> bool" where
  "bootable c \<longleftrightarrow> cfg_Kernel c \<noteq> [] \<and> cfg_Initramfs c \<noteq> []"

definition save_cfg :: "parser \<Rightarrow> parser" where
  "save_cfg p =
     (case cfg p of
        None \<Rightarrow> p
      | Some c \<Rightarrow> if bootable c then p\<lparr>configs := configs p @ [c]\<rparr> else p)"

text \<open>The \<open>set default=\<close> lines.\<close>

definition set_default :: "string list \<Rightarrow> parser \<Rightarrow> string + parser" where
  "set_default sline p =
     (if sline ! 0 = ''set'' then
        if length sline < 2 then Inl index_panic
        else if Contains (sline ! 1) ''default'' then
          let defaultCfgEntry = Split (sline ! 1) ''='' in
          if defaultCfgEntry ! 0 = ''default'' then
            if length defaultCfgEntry < 2 then Inl index_panic
            else Inr (p\<lparr>defaultConfig :=
                   (case ParseInt64 (trimQuote (defaultCfgEntry ! 1)) 8 of Some n \<Rightarrow> n | None \<Rightarrow> 0)\<rparr>)
          else Inr p
        else Inr p
      else Inr p)"

definition unescape :: "string \<Rightarrow> string" where
  "unescape s = ReplaceAll s (CHR 0x5C # ''$'') ''$''"

definition entry_name :: "string list \<Rightarrow> string" where
  "entry_name sline =
     (if 1 < length sline then hd (Split (unescape (Join (drop 1 sline) '' '')) ''--'') else [])"

definition command_line :: "string list \<Rightarrow> string" where
  "command_line sline = unescape (Join (drop 2 sline) '' '')"

text \<open>The switch over the directives of a boot entry.\<close>

definition directive :: "string list \<Rightarrow> Config \<Rightarrow> Config" where
  "directive sline c =
     (let word = sline ! 0 in
      if word \<in> {''linux'', ''linux16'', ''linuxefi''}
      then c\<lparr>cfg_Kernel := sline ! 1, cfg_KernelArgs := command_line sline\<rparr>
      else if word \<in> {''initrd'', ''initrd16'', ''initrdefi''}
      then c\<lparr>cfg_Initramfs := sline ! 1\<rparr>
      else if word \<in> {''multiboot'', ''multiboot2''}
      then c\<lparr>cfg_Multiboot := sline ! 1, cfg_MultibootArgs := command_line sline\<rparr>
      else if word \<in> {''module'', ''module2''}
      then (let cmdline = command_line sline;
                m = (if cmdline \<noteq> [] then sline ! 1 @ '' '' @ cmdline else sline ! 1)
            in c\<lparr>cfg_Modules := cfg_Modules c @ [m]\<rparr>)
      else c)"

text \<open>One turn of the loop.\<close>

definition parse_line :: "string \<Rightarrow> parser \<Rightarrow> string + parser" where
  "parse_line line p =
     (let sline = Fields (TrimLeft line '' '') in
      if length sline = 0 then Inr p
      else
        (case set_default sline p of
           Inl e \<Rightarrow> Inl e
         | Inr p1 \<Rightarrow>
             if sline ! 0 = ''menuentry'' then
               Inr ((save_cfg p1)\<lparr>inMenuEntry := True,
                      cfg := Some (new_Config\<lparr>cfg_Name := entry_name sline\<rparr>)\<rparr>)
             else if inMenuEntry p1 then
               if length sline < 2 then Inr p1
               else Inr (p1\<lparr>cfg := map_option (directive sline) (cfg p1)\<rparr>)
             else Inr p1))"

fun parse_lines :: "string list \<Rightarrow> parser \<Rightarrow> string + parser" where
  "parse_lines [] p = Inr p"
| "parse_lines (line # ls) p =
     (case parse_line line p of Inl e \<Rightarrow> Inl e | Inr p' \<Rightarrow> parse_lines ls p')"

definition ParseGrubCfg :: "string \<Rightarrow> string + Config list \<times> int" where
  "ParseGrubCfg grubcfg =
     (case parse_lines (Split grubcfg NL) start_parser of
        Inl e \<Rightarrow> Inl e
      | Inr p \<Rightarrow> Inr (configs (if inMenuEntry p then save_cfg p else p), defaultConfig p))"

text \<open>A nil pointer is \<open>Inr None\<close>.\<close>

definition GetDefaultConfig :: "string \<Rightarrow> string + Config option" where
  "GetDefaultConfig grubcfg =
     (case ParseGrubCfg grubcfg of
        Inl e \<Rightarrow> Inl e
      | Inr (cs, index) \<Rightarrow>
          if cs = [] then Inr None
          else if 0 \<le> index \<and> index < int (length cs) then Inr (Some (cs ! nat index))
          else Inl index_panic)"

subsection \<open>The invariant of the parser\<close>

text \<open>
  Only boot entries that can be started are kept, and there is a current entry exactly inside a
  \<open>menuentry\<close>, so the pointer is never nil where the loop writes through it.
\<close>

definition parser_ok :: "parser \<Rightarrow> bool" where
  "parser_ok p \<longleftrightarrow> list_all bootable (configs p) \<and> (inMenuEntry p \<longleftrightarrow> cfg p \<noteq> None)"

lemma start_parser_ok: "parser_ok start_parser"
  by (simp add: parser_ok_def start_parser_def)

lemma save_cfg_ok: "parser_ok p \<Longrightarrow> parser_ok (save_cfg p)"
  by (auto simp: parser_ok_def save_cfg_def split: option.split)

lemma set_default_ok: "set_default sline p = Inr p' \<Longrightarrow> parser_ok p \<Longrightarrow> parser_ok p'"
  by (auto simp: set_default_def Let_def parser_ok_def split: if_splits)

lemma parse_line_ok: "parse_line line p = Inr p' \<Longrightarrow> parser_ok p \<Longrightarrow> parser_ok p'"
proof -
  assume run: "parse_line line p = Inr p'" and ok: "parser_ok p"
  show "parser_ok p'"
  proof (cases "Fields (TrimLeft line '' '') = []")
    case True
    with run ok show ?thesis by (simp add: parse_line_def)
  next
    case False
    with run obtain p1 where p1: "set_default (Fields (TrimLeft line '' '')) p = Inr p1"
      by (auto simp: parse_line_def Let_def split: sum.splits)
    from set_default_ok [OF this ok] have "parser_ok p1" "parser_ok (save_cfg p1)" by (simp_all add: save_cfg_ok)
    with run False p1 show ?thesis by (auto simp: parse_line_def Let_def parser_ok_def split: if_splits)
  qed
qed

lemma parse_lines_ok: "parse_lines ls p = Inr p' \<Longrightarrow> parser_ok p \<Longrightarrow> parser_ok p'"
  by (induction ls arbitrary: p) (auto split: sum.splits dest: parse_line_ok)

lemma ParseGrubCfg_ok: "ParseGrubCfg grubcfg = Inr (cs, d) \<Longrightarrow> list_all bootable cs"
proof -
  assume "ParseGrubCfg grubcfg = Inr (cs, d)"
  then obtain p where p: "parse_lines (Split grubcfg NL) start_parser = Inr p"
    and cs: "cs = configs (if inMenuEntry p then save_cfg p else p)"
    by (auto simp: ParseGrubCfg_def split: sum.splits)
  from parse_lines_ok [OF p start_parser_ok] have "parser_ok p" "parser_ok (save_cfg p)" by (simp_all add: save_cfg_ok)
  then show ?thesis by (simp add: cs parser_ok_def)
qed


definition one_entry :: string where
  "one_entry = ''menuentry a'' @ NL @ ''linux k'' @ NL @ ''initrd i''"

lemma one_entry_default:
  "GetDefaultConfig one_entry = Inr (Some (new_Config\<lparr>cfg_Name := ''a'', cfg_Kernel := ''k'', cfg_Initramfs := ''i''\<rparr>))"
  by code_simp


subsection \<open>When the parser panics\<close>

definition fatal_words :: "string list \<Rightarrow> bool" where
  "fatal_words ws \<longleftrightarrow> ws = [''set''] \<or> (\<exists>rest. ws = ''set'' # ''default'' # rest)"

lemma Split_eq_default:
  "hd (Split w ''='') = ''default'' \<and> length (Split w ''='') < 2 \<longleftrightarrow> w = ''default''"
proof
  assume a: "hd (Split w ''='') = ''default'' \<and> length (Split w ''='') < 2"
  then have "Split w ''='' = [''default'']"
    by (cases "Split w ''=''"; cases "tl (Split w ''='')") simp_all
  with Join_Split [of w "''=''"] show "w = ''default''" by simp
next
  assume "w = ''default''"
  then show "hd (Split w ''='') = ''default'' \<and> length (Split w ''='') < 2" by simp
qed

lemma Contains_self: "Contains s s"
  using Contains_iff [of s s] by (metis append_Nil append_Nil2)

lemma set_default_Inl:
  "sline \<noteq> [] \<Longrightarrow> set_default sline p = Inl e \<longleftrightarrow> fatal_words sline \<and> e = index_panic"
proof -
  assume "sline \<noteq> []"
  then obtain w ws where s: "sline = w # ws" by (cases sline) simp_all
  show ?thesis
  proof (cases ws)
    case Nil
    then show ?thesis by (auto simp: set_default_def fatal_words_def s)
  next
    case (Cons x rest)
    have hd0: "Split x ''='' ! 0 = hd (Split x ''='')" by (simp add: hd_conv_nth del: Split_char_simps)
    show ?thesis
      using Split_eq_default [of x] Contains_self [of "''default''"]
      unfolding set_default_def fatal_words_def s Cons Let_def
      by (auto simp: hd0 simp del: Split_char_simps split: if_splits)
  qed
qed

lemma parse_line_Inl: "(\<exists>e. parse_line line p = Inl e) \<longleftrightarrow> fatal_words (Fields line)"
proof (cases "Fields line = []")
  case True
  then show ?thesis by (simp add: parse_line_def Let_def Fields_TrimLeft fatal_words_def)
next
  case False
  then have "(\<exists>e. parse_line line p = Inl e) \<longleftrightarrow> (\<exists>e. set_default (Fields line) p = Inl e)"
    by (cases "set_default (Fields line) p") (simp_all add: parse_line_def Let_def Fields_TrimLeft)
  with set_default_Inl [OF False, of p] show ?thesis by simp
qed

lemma parse_lines_Inl: "(\<exists>e. parse_lines ls p = Inl e) \<longleftrightarrow> list_ex (\<lambda>l. fatal_words (Fields l)) ls"
proof (induction ls arbitrary: p)
  case (Cons l ls)
  then show ?case
    using parse_line_Inl [of l p] by (cases "parse_line l p") auto
qed simp

text \<open>
  C37: The parser panics exactly on files with a line that is a lone \<open>set\<close>, or that sets
  \<open>default\<close> without a value (\<open>set default\<close>): both index past the words of the line.
\<close>

theorem ParseGrubCfg_panics_iff:
  "(\<exists>e. ParseGrubCfg g = Inl e) \<longleftrightarrow>
     list_ex (\<lambda>line. Fields line = [''set''] \<or> take 2 (Fields line) = [''set'', ''default'']) (Split g NL)"
proof -
  have "fatal_words ws \<longleftrightarrow> ws = [''set''] \<or> take 2 ws = [''set'', ''default'']" for ws
    by (cases ws; cases "tl ws") (auto simp: fatal_words_def)
  moreover have "(\<exists>e. ParseGrubCfg g = Inl e) \<longleftrightarrow> (\<exists>e. parse_lines (Split g NL) start_parser = Inl e)"
    by (auto simp: ParseGrubCfg_def split: sum.splits)
  ultimately show ?thesis by (simp add: parse_lines_Inl)
qed

subsection \<open>The entries of a file\<close>

text \<open>
  The abstract reading of a file, over the words of its lines: every \<open>menuentry\<close> line
  starts a section that goes up to the next one; the directives of the section are applied
  to a fresh entry; the entries with kernel and RAM disk remain.  The default is that of
  the last \<open>set default=\<close> line.
\<close>

definition is_entry :: "string list \<Rightarrow> bool" where
  "is_entry ws \<longleftrightarrow> ws \<noteq> [] \<and> hd ws = ''menuentry''"

fun sections :: "string list list \<Rightarrow> (string list \<times> string list list) list" where
  "sections [] = []"
| "sections (ws # wss) =
     (if is_entry ws then (ws, takeWhile (\<lambda>x. \<not> is_entry x) wss) # sections wss else sections wss)"

definition apply_line :: "Config \<Rightarrow> string list \<Rightarrow> Config" where
  "apply_line c ws = (if length ws < 2 then c else directive ws c)"

definition section_config :: "string list \<times> string list list \<Rightarrow> Config" where
  "section_config = (\<lambda>(h, body). foldl apply_line (new_Config\<lparr>cfg_Name := entry_name h\<rparr>) body)"

definition entries :: "string list list \<Rightarrow> Config list" where
  "entries wss = filter bootable (map section_config (sections wss))"

definition default_of :: "int \<Rightarrow> string list \<Rightarrow> int" where
  "default_of d ws =
     (case ws of
        s # x # _ \<Rightarrow>
          if s = ''set'' \<and> hd (Split x ''='') = ''default''
          then (case ParseInt64 (trimQuote (Split x ''='' ! 1)) 8 of Some n \<Rightarrow> n | None \<Rightarrow> 0) else d
      | _ \<Rightarrow> d)"

lemma hd_Split_prefix: "hd (Split x ''='') = d \<Longrightarrow> Contains x d"
proof -
  assume d: "hd (Split x ''='') = d"
  obtain y ys where sp: "Split x ''='' = y # ys" by (cases "Split x ''=''") simp_all
  have "x = Join (y # ys) ''=''" using Join_Split [of x "''=''"] sp by simp
  then have "\<exists>r. x = y @ r" by (cases ys) auto
  with d sp show ?thesis by (auto simp: Contains_iff intro: exI [of _ "[]"])
qed

lemma set_default_Inr:
  "sline \<noteq> [] \<Longrightarrow> set_default sline p = Inr p' \<Longrightarrow> p' = p\<lparr>defaultConfig := default_of (defaultConfig p) sline\<rparr>"
proof -
  assume "sline \<noteq> []" and *: "set_default sline p = Inr p'"
  then obtain w ws where s: "sline = w # ws" by (cases sline) simp_all
  show ?thesis
  proof (cases ws)
    case Nil
    with * show ?thesis by (auto simp: set_default_def default_of_def s split: if_splits)
  next
    case (Cons x rest)
    have hd0: "Split x ''='' ! 0 = hd (Split x ''='')" by (simp add: hd_conv_nth del: Split_char_simps)
    from * hd_Split_prefix [of x "''default''"] show ?thesis
      unfolding set_default_def default_of_def s Cons Let_def
      by (auto simp: hd0 simp del: Split_char_simps split: if_splits)
  qed
qed

definition finish :: "parser \<Rightarrow> Config list" where
  "finish p = configs (save_cfg p)"

lemma parse_line_Inr:
  assumes "parse_line line p = Inr p'" and "inMenuEntry p \<longleftrightarrow> cfg p \<noteq> None"
  defines "ws \<equiv> Fields line"
  shows "defaultConfig p' = default_of (defaultConfig p) ws
    \<and> (inMenuEntry p' \<longleftrightarrow> cfg p' \<noteq> None)
    \<and> (if is_entry ws then configs p' = finish p \<and> cfg p' = Some (new_Config\<lparr>cfg_Name := entry_name ws\<rparr>)
       else configs p' = configs p \<and> cfg p' = map_option (\<lambda>c. apply_line c ws) (cfg p))"
proof (cases "ws = []")
  case True
  with assms show ?thesis
    by (auto simp: parse_line_def Let_def Fields_TrimLeft default_of_def is_entry_def apply_line_def
        option.map_ident)
next
  case False
  with assms(1) obtain p1 where sd: "set_default ws p = Inr p1"
    by (cases "set_default ws p") (auto simp: parse_line_def Let_def Fields_TrimLeft ws_def)
  have p1: "p1 = p\<lparr>defaultConfig := default_of (defaultConfig p) ws\<rparr>"
    by (rule set_default_Inr [OF False sd])
  have e: "is_entry ws \<longleftrightarrow> ws ! 0 = ''menuentry''"
    using False by (simp add: is_entry_def hd_conv_nth)
  have p': "p' = (if is_entry ws then (save_cfg p1)\<lparr>inMenuEntry := True,
                    cfg := Some (new_Config\<lparr>cfg_Name := entry_name ws\<rparr>)\<rparr>
             else if inMenuEntry p1 then
               if length ws < 2 then p1 else p1\<lparr>cfg := map_option (directive ws) (cfg p1)\<rparr>
             else p1)"
    using assms(1) False sd
    by (simp add: parse_line_def Let_def Fields_TrimLeft ws_def e [unfolded ws_def] split: if_splits)
  show ?thesis
    using assms(2) unfolding p' p1
    by (cases "cfg p") (auto simp: finish_def save_cfg_def apply_line_def)
qed

lemma sections_Cons_other: "\<not> is_entry ws \<Longrightarrow> sections (ws # wss) = sections wss"
  by simp

lemma parse_lines_Inr:
  "parse_lines ls p = Inr p' \<Longrightarrow> inMenuEntry p \<longleftrightarrow> cfg p \<noteq> None \<Longrightarrow>
   defaultConfig p' = foldl default_of (defaultConfig p) (map Fields ls)
   \<and> (inMenuEntry p' \<longleftrightarrow> cfg p' \<noteq> None)
   \<and> finish p' = finish (p\<lparr>cfg := map_option (\<lambda>c. foldl apply_line c (takeWhile (\<lambda>x. \<not> is_entry x) (map Fields ls))) (cfg p)\<rparr>)
       @ entries (map Fields ls)"
proof (induction ls arbitrary: p)
  case Nil
  then show ?case by (simp add: entries_def finish_def option.map_ident)
next
  case (Cons l ls)
  then obtain p1 where p1: "parse_line l p = Inr p1" and rest: "parse_lines ls p1 = Inr p'"
    by (cases "parse_line l p") simp_all
  note step = parse_line_Inr [OF p1 Cons.prems(2)]
  have IH: "defaultConfig p' = foldl default_of (defaultConfig p1) (map Fields ls)
   \<and> (inMenuEntry p' \<longleftrightarrow> cfg p' \<noteq> None)
   \<and> finish p' = finish (p1\<lparr>cfg := map_option (\<lambda>c. foldl apply_line c (takeWhile (\<lambda>x. \<not> is_entry x) (map Fields ls))) (cfg p1)\<rparr>)
       @ entries (map Fields ls)"
    using Cons.IH [OF rest] step by blast
  have fin: "finish (q\<lparr>cfg := c\<rparr>) = configs q @ (case c of None \<Rightarrow> [] | Some x \<Rightarrow> filter bootable [x])" for q c
    by (cases c) (simp_all add: finish_def save_cfg_def)
  show ?case
  proof (cases "is_entry (Fields l)")
    case True
    with IH step show ?thesis
      by (simp add: fin entries_def section_config_def) (cases "cfg p", simp_all add: finish_def save_cfg_def)
  next
    case False
    with IH step show ?thesis
      by (cases "cfg p") (simp_all add: fin entries_def)
  qed
qed

lemma ParseGrubCfg_sections:
  assumes "parse_lines (Split g NL) start_parser = Inr p"
  shows "ParseGrubCfg g = Inr (entries (map Fields (Split g NL)), foldl default_of 0 (map Fields (Split g NL)))"
proof -
  have "inMenuEntry start_parser \<longleftrightarrow> cfg start_parser \<noteq> None" by (simp add: start_parser_def)
  note r = parse_lines_Inr [OF assms this]
  have "finish p = entries (map Fields (Split g NL))"
    using r by (simp add: finish_def save_cfg_def start_parser_def)
  moreover have "configs (if inMenuEntry p then save_cfg p else p) = finish p"
    using r by (auto simp: finish_def save_cfg_def)
  ultimately show ?thesis using r assms by (simp add: ParseGrubCfg_def start_parser_def)
qed

lemma ParseGrubCfg_safe:
  assumes "\<not> list_ex (\<lambda>l. fatal_words (Fields l)) (Split g NL)"
  shows "ParseGrubCfg g = Inr (entries (map Fields (Split g NL)), foldl default_of 0 (map Fields (Split g NL)))"
proof (cases "parse_lines (Split g NL) start_parser")
  case (Inl e)
  with assms parse_lines_Inl [of "Split g NL" start_parser] show ?thesis by blast
next
  case (Inr p)
  then show ?thesis by (rule ParseGrubCfg_sections)
qed

text \<open>
  C16: A file that does not make the parser panic is read section by section: the result
  lists the valid entries in file order, each made of the directives between its
  \<open>menuentry\<close> line and the next, and the default is that of the last \<open>set default=\<close> line.
\<close>

theorem ParseGrubCfg_reads:
  "case ParseGrubCfg g of
     Inl e \<Rightarrow> list_ex (fatal_words \<circ> Fields) (Split g NL)
   | Inr (cs, d) \<Rightarrow>
       cs = entries (map Fields (Split g NL)) \<and> list_all bootable cs
       \<and> d = foldl default_of 0 (map Fields (Split g NL))"
proof (cases "list_ex (\<lambda>l. fatal_words (Fields l)) (Split g NL)")
  case True
  then obtain e where "parse_lines (Split g NL) start_parser = Inl e"
    using parse_lines_Inl [of "Split g NL" start_parser] by blast
  with True show ?thesis by (simp add: ParseGrubCfg_def comp_def)
next
  case False
  then show ?thesis by (simp add: ParseGrubCfg_safe entries_def list_all_iff)
qed

subsection \<open>Reading back a written file\<close>

definition plain_word :: "string \<Rightarrow> bool" where
  "plain_word w \<longleftrightarrow> list_all graphic w \<and> w \<noteq> [] \<and> CHR 0x5C \<notin> set w"

definition plain_config :: "Config \<Rightarrow> bool" where
  "plain_config c \<longleftrightarrow>
     plain_word (cfg_Name c) \<and> \<not> Contains (cfg_Name c) ''--''
     \<and> plain_word (cfg_Kernel c) \<and> plain_word (cfg_Initramfs c)
     \<and> list_all plain_word (Fields (cfg_KernelArgs c))
     \<and> Join (Fields (cfg_KernelArgs c)) '' '' = cfg_KernelArgs c
     \<and> cfg_Multiboot c = [] \<and> cfg_MultibootArgs c = [] \<and> cfg_Modules c = []"

definition entry_words :: "Config \<Rightarrow> string list list" where
  "entry_words c =
     [[''menuentry'', cfg_Name c], ''linux'' # cfg_Kernel c # Fields (cfg_KernelArgs c),
      [''initrd'', cfg_Initramfs c], [''}'']]"

definition file_words :: "Config list \<Rightarrow> nat \<Rightarrow> string list list" where
  "file_words cs d =
     [''set'', ''default='' @ [CHR 0x22] @ FormatUint d @ [CHR 0x22]] # concat (map entry_words cs)"

definition write_cfg :: "Config list \<Rightarrow> nat \<Rightarrow> string" where
  "write_cfg cs d = Join (map (\<lambda>ws. Join ws '' '') (file_words cs d)) NL"

lemma set_Join: "x \<in> set (Join ws sep) \<Longrightarrow> x \<in> set sep \<or> (\<exists>w\<in>set ws. x \<in> set w)"
  by (induction ws sep rule: Join.induct) auto

lemma unescape_plain: "CHR 0x5C \<notin> set s \<Longrightarrow> unescape s = s"
  using Contains_subset [of s "CHR 0x5C # ''$''"] by (auto simp: unescape_def intro: ReplaceAll_absent)

lemma section_config_entry:
  assumes "plain_config c"
  shows "section_config ([''menuentry'', cfg_Name c], tl (entry_words c)) = c"
proof -
  have n: "entry_name [''menuentry'', cfg_Name c] = cfg_Name c"
    using assms unescape_plain [of "cfg_Name c"] Split_not_Contains [of "cfg_Name c" "''--''"]
    by (simp add: entry_name_def plain_config_def plain_word_def)
  have "CHR 0x5C \<notin> set (cfg_KernelArgs c)"
    using assms set_Join [of "CHR 0x5C" "Fields (cfg_KernelArgs c)" "'' ''"]
    by (auto simp: plain_config_def list_all_iff plain_word_def)
  then have a: "unescape (cfg_KernelArgs c) = cfg_KernelArgs c" by (rule unescape_plain)
  have j: "Join (Fields (cfg_KernelArgs c)) '' '' = cfg_KernelArgs c"
    using assms by (simp add: plain_config_def)
  show ?thesis
    using assms
    by (simp add: section_config_def entry_words_def apply_line_def directive_def command_line_def
        n a j new_Config_def plain_config_def)
qed

lemma entries_written:
  "list_all plain_config cs \<Longrightarrow> entries (concat (map entry_words cs)) = cs
     \<and> takeWhile (\<lambda>x. \<not> is_entry x) (concat (map entry_words cs)) = []"
proof (induction cs)
  case Nil
  then show ?case by (simp add: entries_def)
next
  case (Cons c cs)
  then have IH: "entries (concat (map entry_words cs)) = cs"
      "takeWhile (\<lambda>x. \<not> is_entry x) (concat (map entry_words cs)) = []" by auto
  from Cons.prems have c: "plain_config c" by simp
  have "entries (entry_words c @ wss) = c # entries wss"
    if "takeWhile (\<lambda>x. \<not> is_entry x) wss = []" for wss
    using section_config_entry [OF c] that c
    by (simp add: entries_def entry_words_def is_entry_def takeWhile_append bootable_def plain_config_def plain_word_def)
  from this [OF IH(2)] IH(1) have "entries (concat (map entry_words (c # cs))) = c # cs" by simp
  moreover have "takeWhile (\<lambda>x. \<not> is_entry x) (concat (map entry_words (c # cs))) = []"
    by (simp add: entry_words_def is_entry_def)
  ultimately show ?case by blast
qed

lemma field_literals:
  "field_word ''set''" "field_word ''menuentry''" "field_word ''linux''" "field_word ''initrd''" "field_word ''}''"
  by (simp_all add: field_word_def graphic_def)

lemma plain_field: "plain_word w \<Longrightarrow> field_word w"
  by (simp add: plain_word_def field_word_def)

lemma entry_words_ok:
  assumes "plain_config c" and "ws \<in> set (entry_words c)"
  shows "list_all field_word ws"
proof -
  have "list_all field_word (Fields (cfg_KernelArgs c))"
    using assms(1) by (auto simp: plain_config_def list_all_iff plain_field)
  moreover have "field_word (cfg_Name c)" "field_word (cfg_Kernel c)" "field_word (cfg_Initramfs c)"
    using assms(1) by (simp_all add: plain_config_def plain_field)
  moreover have "ws = [''menuentry'', cfg_Name c] \<or> ws = ''linux'' # cfg_Kernel c # Fields (cfg_KernelArgs c)
      \<or> ws = [''initrd'', cfg_Initramfs c] \<or> ws = [''}'']"
    using assms(2) by (simp add: entry_words_def)
  ultimately show ?thesis by (elim disjE) (simp_all only: list.pred_inject field_literals simp_thms)
qed

lemma default_word_ok: "field_word (''default='' @ [CHR 0x22] @ FormatUint d @ [CHR 0x22])"
proof -
  have "graphic (digit_char n)" if "n < 10" for n
    using that by (simp add: graphic_def digit_char_def)
  then have "list_all graphic (FormatUint d)"
    using FormatUint_digits [of _ d] by (auto simp: list_all_iff)
  then show ?thesis by (simp add: field_word_def graphic_def)
qed

lemma file_words_ok:
  assumes "list_all plain_config cs" and "ws \<in> set (file_words cs d)" and "w \<in> set ws"
  shows "list_all graphic w \<and> w \<noteq> []"
proof -
  have "ws = [''set'', ''default='' @ [CHR 0x22] @ FormatUint d @ [CHR 0x22]] \<or> (\<exists>c\<in>set cs. ws \<in> set (entry_words c))"
    using assms(2) by (simp add: file_words_def)
  then have "list_all field_word ws"
  proof
    assume "ws = [''set'', ''default='' @ [CHR 0x22] @ FormatUint d @ [CHR 0x22]]"
    then show ?thesis by (simp only: list.pred_inject field_literals default_word_ok simp_thms)
  next
    assume "\<exists>c\<in>set cs. ws \<in> set (entry_words c)"
    then obtain c where "c \<in> set cs" "ws \<in> set (entry_words c)" by blast
    with assms(1) entry_words_ok [of c ws] show ?thesis by (auto simp: list_all_iff)
  qed
  with assms(3) show ?thesis by (auto simp: list_all_iff field_word_def)
qed

lemma default_written: "foldl default_of d (concat (map entry_words cs)) = d"
  by (induction cs) (simp_all add: entry_words_def default_of_def)

lemma default_quoted:
  "default_of 0 [''set'', ''default='' @ [CHR 0x22] @ FormatUint d @ [CHR 0x22]] =
     (case ParseInt64 (FormatUint d) 8 of Some n \<Rightarrow> n | None \<Rightarrow> 0)"
proof -
  have "digit_char n \<noteq> CHR ''=''" if "n < 10" for n
  proof -
    from that have "of_char (digit_char n) = 48 + n" by (simp add: digit_char_def)
    with that show ?thesis by auto
  qed
  then have "CHR ''='' \<notin> set ([CHR 0x22] @ FormatUint d @ [CHR 0x22])"
    using FormatUint_digits [of "CHR ''=''" d] by force
  from Split_char_free [OF this]
  have "Split (''default'' @ CHR ''='' # ([CHR 0x22] @ FormatUint d @ [CHR 0x22])) ''='' =
      [''default'', [CHR 0x22] @ FormatUint d @ [CHR 0x22]]"
    unfolding Split_char_append by simp
  then have sp: "Split (''default='' @ [CHR 0x22] @ FormatUint d @ [CHR 0x22]) ''='' =
      [''default'', [CHR 0x22] @ FormatUint d @ [CHR 0x22]]" by simp
  have "trimQuote ([CHR 0x22] @ FormatUint d @ [CHR 0x22]) = FormatUint d"
    by (simp add: trimQuote_def Let_def)
  then show ?thesis unfolding default_of_def list.case sp by simp
qed

lemma written_words:
  assumes "list_all plain_config cs"
  shows "map Fields (Split (write_cfg cs d) NL) = file_words cs d"
proof -
  let ?wss = "file_words cs d"
  have w: "\<forall>ws\<in>set ?wss. \<forall>w\<in>set ws. list_all graphic w \<and> w \<noteq> []"
    using file_words_ok [OF assms] by blast
  have noNL: "CHR 0x0A \<notin> set (Join ws '' '')" if "ws \<in> set ?wss" for ws
    using set_Join [of "CHR 0x0A" ws "'' ''"] w that graphic_not_NL by fastforce
  have ne: "?wss \<noteq> []" by (simp add: file_words_def)
  have lines: "Split (write_cfg cs d) NL = map (\<lambda>ws. Join ws '' '') ?wss"
    unfolding write_cfg_def by (rule Split_Join_char) (use noNL ne in auto)
  have "map Fields (map (\<lambda>ws. Join ws '' '') ?wss) = ?wss"
    using w by (simp add: map_idI Fields_Join)
  with lines show ?thesis by (simp only:)
qed

lemma file_words_safe: "\<not> list_ex fatal_words (file_words cs d)"
  by (auto simp: list_ex_iff file_words_def entry_words_def fatal_words_def)

lemma written_safe:
  assumes "list_all plain_config cs"
  shows "\<not> list_ex (\<lambda>l. fatal_words (Fields l)) (Split (write_cfg cs d) NL)"
proof -
  have "list_ex (\<lambda>l. fatal_words (Fields l)) (Split (write_cfg cs d) NL) \<longleftrightarrow> list_ex fatal_words (file_words cs d)"
    unfolding written_words [OF assms, symmetric] by (simp add: list_ex_iff)
  then show ?thesis by (simp add: file_words_safe)
qed

lemma entries_file: "list_all plain_config cs \<Longrightarrow> entries (file_words cs d) = cs"
  using entries_written by (simp add: file_words_def entries_def is_entry_def)

lemma default_file: "d < 8 \<Longrightarrow> foldl default_of 0 (file_words cs d) = int d"
proof -
  assume d: "d < 8"
  then have "digit_char d \<noteq> CHR ''-''" "digit_char d \<noteq> CHR ''+''"
    using digit_char_not_sign [of d] by auto
  with d have "ParseInt64 (FormatUint d) 8 = Some (int d)"
    by (simp add: FormatUint_rec [of d] ParseInt64_def ParseUint_def digit_val_digit_char)
  then show ?thesis unfolding file_words_def foldl_Cons default_written default_quoted by simp
qed

lemmas written_facts = ParseGrubCfg_safe [OF written_safe] written_words entries_file default_file

lemma GetDefaultConfig_written:
  "list_all plain_config cs \<Longrightarrow> d < 8 \<Longrightarrow> d < length cs \<Longrightarrow>
   GetDefaultConfig (write_cfg cs d) = Inr (Some (cs ! d))"
  by (auto simp: GetDefaultConfig_def written_facts)

text \<open>
  C30: A file written with a \<open>set default="d"\<close> line and plain boot entries reads back: the
  parser returns exactly these entries in order, and the default if it is below eight.
\<close>

theorem ParseGrubCfg_roundtrip:
  assumes "list_all plain_config cs" and "d < 8"
  shows "ParseGrubCfg (write_cfg cs d) = Inr (cs, int d)"
  using assms by (simp add: written_facts)

definition example_cfg :: Config where
  "example_cfg = new_Config\<lparr>cfg_Name := ''Ubuntu'', cfg_Kernel := ''/boot/vmlinuz'',
     cfg_Initramfs := ''/boot/initrd.img'', cfg_KernelArgs := ''root=LABEL=ROOT ro''\<rparr>"

theorem ParseGrubCfg_roundtrip_witness:
  "ParseGrubCfg (write_cfg [example_cfg, example_cfg\<lparr>cfg_Name := ''Rescue''\<rparr>] 1) =
     Inr ([example_cfg, example_cfg\<lparr>cfg_Name := ''Rescue''\<rparr>], 1)"
proof -
  have f: "Fields ''root=LABEL=ROOT ro'' = [''root=LABEL=ROOT'', ''ro'']"
    using Fields_Join [of "[''root=LABEL=ROOT'', ''ro'']"] by (simp add: graphic_def)
  have "list_all plain_config [example_cfg, example_cfg\<lparr>cfg_Name := ''Rescue''\<rparr>]"
    by (simp add: example_cfg_def new_Config_def plain_config_def plain_word_def f graphic_def)
  from ParseGrubCfg_roundtrip [OF this, of 1] show ?thesis by simp
qed

lemma octal_smaller:
  "8 \<le> n \<Longrightarrow> parse_digits 8 0 (FormatUint n) = Some m \<Longrightarrow> m < n"
proof -
  have le: "parse_digits 8 0 (FormatUint n) = Some m \<Longrightarrow> m \<le> n" for n m
  proof (induction n arbitrary: m rule: FormatUint.induct)
    case (1 n)
    show ?case
    proof (cases "n < 10")
      case True
      with "1.prems" show ?thesis
        by (subst (asm) FormatUint.simps) (auto simp: digit_val_digit_char split: if_splits)
    next
      case False
      with "1.prems" obtain q where q: "parse_digits 8 0 (FormatUint (n div 10)) = Some q"
          "m = q * 8 + n mod 10"
        by (subst (asm) FormatUint.simps)
          (auto simp: parse_digits_append digit_val_digit_char split: option.splits if_splits)
      from "1.IH" [OF False q(1)] have "q \<le> n div 10" .
      with q(2) mult_div_mod_eq [of 10 n] show ?thesis by linarith
    qed
  qed
  assume "8 \<le> n" and m: "parse_digits 8 0 (FormatUint n) = Some m"
  show "m < n"
  proof (cases "n < 10")
    case True
    with m \<open>8 \<le> n\<close> show ?thesis
      by (subst (asm) FormatUint.simps) (auto simp: digit_val_digit_char split: if_splits)
  next
    case False
    with m obtain q where q: "parse_digits 8 0 (FormatUint (n div 10)) = Some q" "m = q * 8 + n mod 10"
      by (subst (asm) FormatUint.simps)
        (auto simp: parse_digits_append digit_val_digit_char split: option.splits if_splits)
    from le [OF q(1)] q(2) False mult_div_mod_eq [of 10 n] show ?thesis by linarith
  qed
qed

text \<open>
  A default of eight or more is never read as written, since it is parsed as an octal
  number: the parser takes a smaller entry instead.
\<close>

theorem ParseGrubCfg_default_octal:
  assumes "list_all plain_config cs" and "8 \<le> d"
  shows "foldl default_of 0 (file_words cs d) < int d
    \<and> (case ParseGrubCfg (write_cfg cs d) of Inl e \<Rightarrow> True | Inr (es, i) \<Rightarrow> i < int d)"
proof -
  have "(case ParseInt64 (FormatUint d) 8 of Some n \<Rightarrow> n | None \<Rightarrow> 0) < int d"
  proof -
    obtain c s where fu: "FormatUint d = c # s" by (cases "FormatUint d") auto
    then have "\<exists>e<10. c = digit_char e" using FormatUint_digits [of c d] by simp
    then have "c \<noteq> CHR ''-''" "c \<noteq> CHR ''+''" using digit_char_not_sign by auto
    then have "ParseInt64 (FormatUint d) 8 = (case ParseUint (FormatUint d) 8 64 of None \<Rightarrow> None
      | Some m \<Rightarrow> if m < 2 ^ 63 then Some (int m) else None)"
      by (simp add: ParseInt64_def fu Let_def split: option.splits)
    then show ?thesis
      using octal_smaller [OF assms(2)] assms(2)
      by (auto simp: ParseUint_def split: option.splits)
  qed
  then have "foldl default_of 0 (file_words cs d) < int d"
    unfolding file_words_def foldl_Cons default_written default_quoted .
  then show ?thesis by (simp add: ParseGrubCfg_safe [OF written_safe [OF assms(1)]] written_words [OF assms(1)])
qed

theorem ParseGrubCfg_default_octal_witness:
  "case ParseGrubCfg (write_cfg [example_cfg] 10) of Inl e \<Rightarrow> True | Inr (es, i) \<Rightarrow> i < 10"
proof -
  have f: "Fields ''root=LABEL=ROOT ro'' = [''root=LABEL=ROOT'', ''ro'']"
    using Fields_Join [of "[''root=LABEL=ROOT'', ''ro'']"] by (simp add: graphic_def)
  have "list_all plain_config [example_cfg]"
    by (simp add: example_cfg_def new_Config_def plain_config_def plain_word_def f graphic_def)
  from ParseGrubCfg_default_octal [OF this, of 10] show ?thesis by (simp only: of_nat_numeral)
qed

end
