(* ===== verification/Kexec.thy ===== *)
theory Kexec
  imports Grub Stages
begin

text \<open>
  The \<open>kexec\<close> action (\<open>kexec/cmd/kexec.go\<close>): it mounts the block device, finds kernel,
  RAM disk and command line in the environment or in the \<open>grub.cfg\<close> on the device, loads
  them and reboots into them.
\<close>

text \<open>The paths and the command line: from the environment, or from the default boot entry.\<close>

definition boot_files :: "string \<Rightarrow> string \<Rightarrow> string \<Rightarrow> string \<Rightarrow> (string \<times> string \<times> string) act" where
  "boot_files kernelPath initrdPath cmdLine grubCfgPath =
     (if kernelPath = [] then
        bind (sys_read (Sprintf ''%s/%s'' [mountAction, grubCfgPath])) (\<lambda>grubFile.
        case grubFile of
          Inl err \<Rightarrow> log_fatal
        | Inr text \<Rightarrow>
            (case GetDefaultConfig text of
               Inl p \<Rightarrow> panic p
             | Inr None \<Rightarrow> log_fatal
             | Inr (Some bootConfig) \<Rightarrow>
                 ret (PathJoin [mountAction, cfg_Kernel bootConfig],
                      PathJoin [mountAction, cfg_Initramfs bootConfig],
                      if cmdLine = [] then cfg_KernelArgs bootConfig else cmdLine)))
      else ret (PathJoin [mountAction, kernelPath], PathJoin [mountAction, initrdPath], cmdLine))"

definition load_and_reboot :: "string \<times> string \<times> string \<Rightarrow> unit act" where
  "load_and_reboot = (\<lambda>(kernelMountPath, initrdMountPath, cmdLine).
     andThen (must_ok (sys (OpenFile kernelMountPath [O_RDONLY] 0)))
    (andThen (must_ok (sys (OpenFile initrdMountPath [O_RDONLY] 0)))
    (andThen (must_ok (sys (KexecFileLoad kernelMountPath initrdMountPath cmdLine)))
    (ignore (sys Reboot)))))"

definition kexecCmd :: "unit act" where
  "kexecCmd =
     bind (getenv ''BLOCK_DEVICE'') (\<lambda>blockDevice.
     bind (getenv ''FS_TYPE'') (\<lambda>filesystemType.
     bind (getenv ''KERNEL_PATH'') (\<lambda>kernelPath.
     bind (getenv ''INITRD_PATH'') (\<lambda>initrdPath.
     bind (getenv ''CMD_LINE'') (\<lambda>cmdLine.
     bind (getenv ''GRUBCFG_PATH'') (\<lambda>path.
     if blockDevice = [] then log_fatal
     else
       let grubCfgPath = (if path = [] then ''boot/grub/grub.cfg'' else path) in
       andThen (must_ok (sys (Mkdir mountAction ModeDir)))
      (andThen (must_ok (sys (call.Mount blockDevice mountAction filesystemType 0)))
      (bind (boot_files kernelPath initrdPath cmdLine grubCfgPath) load_and_reboot))))))))"

text \<open>
  \<open>Execute\<close>, which is all that \<open>main\<close> calls: what the package \<open>cobra\<close> makes of the command line is a
  parameter, an error or whether the command runs at all (it does not for a help text).
\<close>

definition kexec :: "goerr + bool \<Rightarrow> unit act" where
  "kexec dispatch =
     (case dispatch of
        Inl err \<Rightarrow> os_exit 1
      | Inr run \<Rightarrow> if run then kexecCmd else ret ())"

subsection \<open>Booting the default entry\<close>

lemma load_and_reboot_plan:
  "load_and_reboot (kp, ip, cmd) =
     andThen (must_all [OpenFile kp [O_RDONLY] 0, OpenFile ip [O_RDONLY] 0, KexecFileLoad kp ip cmd])
       (ignore (sys Reboot))"
  by (simp add: load_and_reboot_def andThen_assoc)

lemma default_boot_files:
  "GetDefaultConfig content = Inr (Some c) \<Longrightarrow> (\<And>h p. k_read k h p = Inr content) \<Longrightarrow>
   boot_files [] i [] path k t =
     (Ret (PathJoin [mountAction, cfg_Kernel c], PathJoin [mountAction, cfg_Initramfs c], cfg_KernelArgs c),
      t @ [ReadFile (mountAction @ CHR ''/'' # path)])"
  by (simp add: boot_files_def bind_def sys_read_def ret_def)

subsection \<open>The stages of the action\<close>

definition kexec_ask :: "unit \<Rightarrow> unit act" where
  "kexec_ask u = bind (getenv ''BLOCK_DEVICE'') (\<lambda>dev. if dev = [] then log_fatal else ret ())"

definition boot :: "kernel \<Rightarrow> unit act" where
  "boot k = bind (boot_files (env k ''KERNEL_PATH'') (env k ''INITRD_PATH'') (env k ''CMD_LINE'')
     (if env k ''GRUBCFG_PATH'' = [] then ''boot/grub/grub.cfg'' else env k ''GRUBCFG_PATH'')) load_and_reboot"

definition boot_call :: "call \<Rightarrow> bool" where
  "boot_call c =
     (case c of ReadFile _ \<Rightarrow> True | OpenFile _ fl _ \<Rightarrow> fl = [O_RDONLY] | KexecFileLoad _ _ _ \<Rightarrow> True | Reboot \<Rightarrow> True | _ \<Rightarrow> False)"

lemma boot_emits: "emits boot_call (boot k)"
  unfolding boot_def
proof (rule emits_bind)
  show "emits boot_call (boot_files a b c d)" for a b c d
    unfolding boot_files_def by (intro emits_intros emits_panic) (simp add: boot_call_def)
  show "emits boot_call (load_and_reboot f)" for f
    by (cases f) (auto simp: load_and_reboot_def boot_call_def intro!: emits_intros)
qed

interpretation kx: staged_action "\<lambda>u. kexecCmd" kexec_ask
    "\<lambda>k u. Some (single_mount (env k ''BLOCK_DEVICE'') (env k ''FS_TYPE''))" "\<lambda>k u. boot k" "\<lambda>_. False" boot_call
proof
  fix u :: unit and k t
  show "kexecCmd k t = bind (kexec_ask u) (\<lambda>m k t.
      case Some (single_mount (env k ''BLOCK_DEVICE'') (env k ''FS_TYPE'')) of
        None \<Rightarrow> (Ret (), t) | Some cs \<Rightarrow> andThen (must_all cs) (boot k) k t) k t"
  proof (cases "env k ''BLOCK_DEVICE'' = []")
    case True
    then have "kexec_ask u k t = (Exit 1, t)" "kexecCmd k t = (Exit 1, t)"
      by (simp_all add: kexec_ask_def kexecCmd_def getenv_bind log_fatal_def os_exit_def)
    then show ?thesis by (simp add: bind_def)
  next
    case False
    then have "kexec_ask u k t = (Ret (), t)" by (simp add: kexec_ask_def getenv_bind ret_def)
    then have "bind (kexec_ask u) f k t = f () k t" for f :: "unit \<Rightarrow> unit act" by (rule bind_run)
    with False show ?thesis
      by (simp add: kexecCmd_def getenv_bind Let_def single_mount_def andThen_assoc boot_def)
  qed
qed (auto intro!: emits_intros boot_emits simp: kexec_ask_def)


definition boot_kernel :: kernel where
  "boot_kernel = quiet\<lparr>k_env := [''BLOCK_DEVICE'' \<mapsto> ''/dev/sda1'', ''FS_TYPE'' \<mapsto> ''ext4''],
     k_read := (\<lambda>_ _. Inr (write_cfg [example_cfg] 0))\<rparr>"


end
