(* ===== verification/Cexec.thy ===== *)
theory Cexec
  imports Chroot
begin

text \<open>
  The \<open>cexec\<close> action (\<open>cexec/main.go\<close>): it mounts a block device with the sibling
  filesystems, optionally changes root into it, and runs command lines there.  Every
  \<open>defer\<close> of the source is a \<^const>\<open>with_defer\<close> around the rest of the function, so deferred
  calls run last in, first out.
\<close>

record settings =
  set_blockDevice :: string
  set_filesystemType :: string
  set_chroot :: string
  set_defaultInterpreter :: string
  set_cmdLine :: string
  set_updateResolvConf :: bool

definition checkRequiredFields :: "settings \<Rightarrow> string list" where
  "checkRequiredFields s =
     (if set_blockDevice s = [] then [''block-device''] else [])
     @ (if set_filesystemType s = [] then [''fs-type''] else [])
     @ (if set_cmdLine s = [] then [''cmd-line''] else [])"

subsection \<open>The new root\<close>

definition resolv_conf :: "string \<Rightarrow> string" where
  "resolv_conf path = PathJoin [path, ''etc/resolv.conf'']"

definition bind_dir :: "string \<Rightarrow> string \<Rightarrow> goerr option act \<Rightarrow> goerr option act" where
  "bind_dir path sub c =
     (let target = PathJoin [path, sub] in
      check (sys (call.Mount (''/'' @ sub) target [] MS_BIND))
        (Wrapf ''couldn't mount /%s to %v: %w'' [sub, target]) c)"

definition mountSpecialDirs :: "settings \<Rightarrow> string \<Rightarrow> goerr option act" where
  "mountSpecialDirs s path =
     (if path = [] then ret (Some (Errorf ''mount path cannot be empty'' []))
      else
        bind_dir path ''dev'' (bind_dir path ''proc'' (bind_dir path ''sys''
         (if set_updateResolvConf s then
            check (sys (call.Mount ''/etc/resolv.conf'' (resolv_conf path) [] (MS_BIND OR MS_RDONLY)))
              (Wrapf ''couldn't mount /etc/resolv.conf to %v: %w'' [resolv_conf path]) (ret None)
          else ret None))))"

definition unmount_dir :: "string \<Rightarrow> goerr option act \<Rightarrow> goerr option act" where
  "unmount_dir target c = check (sys (Unmount target 0)) (Wrapf ''couldn't unmount %v: %w'' [target]) c"

definition umountSpecialDirs :: "settings \<Rightarrow> string \<Rightarrow> goerr option act" where
  "umountSpecialDirs s path =
     unmount_dir (PathJoin [path, ''dev'']) (unmount_dir (PathJoin [path, ''proc''])
      (unmount_dir (PathJoin [path, ''sys''])
        (if set_updateResolvConf s then unmount_dir (resolv_conf path) (ret None) else ret None)))"

definition backupFile :: "string \<Rightarrow> goerr option act" where
  "backupFile file =
     check (sys (Rename file (file @ ''.backup''))) (Wrapf ''error backing up %v: %w'' [file]) (ret None)"

definition restoreFile :: "string \<Rightarrow> goerr option act" where
  "restoreFile file =
     check (sys (Rename (file @ ''.backup'') file)) (Wrapf ''error restoring %v: %w'' [file]) (ret None)"

text \<open>The result of a successful change is the directory to go back to.\<close>

definition chroot :: "string \<Rightarrow> (goerr + string) act" where
  "chroot path =
     bind sys_getwd (\<lambda>d.
     case d of
       Inl err \<Rightarrow> ret (Inl err)
     | Inr cwd \<Rightarrow>
         bind (sys (OpenFile cwd [O_RDONLY] 0)) (\<lambda>e.
         case e of
           Some err \<Rightarrow> ret (Inl err)
         | None \<Rightarrow>
             bind (sys (Chroot path)) (\<lambda>e.
             case e of
               Some err \<Rightarrow> andThen (ignore (sys (Close cwd))) (ret (Inl err))
             | None \<Rightarrow>
                 bind (sys (Chdir ''/'')) (\<lambda>e.
                 case e of
                   Some err \<Rightarrow> andThen (ignore (sys (Close cwd))) (ret (Inl err))
                 | None \<Rightarrow> ret (Inr cwd)))))"

definition exitChroot :: "string \<Rightarrow> goerr option act" where
  "exitChroot root =
     with_defer (ignore (sys (Close root)))
       (check (sys (Fchdir root)) (\<lambda>err. err) (sys (Chroot ''.'')))"

text \<open>The two conditional blocks, with the rest of the function as \<open>c\<close>.\<close>

definition with_resolv :: "settings \<Rightarrow> goerr option act \<Rightarrow> goerr option act" where
  "with_resolv s c =
     (if set_updateResolvConf s then
        let resolv = PathJoin [mountAction, ''etc'', ''resolv.conf''] in
        check (backupFile resolv)
          (Wrapf ''error backing up resolv.conf, resolv.conf will not work in the chroot: %w'' [])
       (with_defer (ignore (restoreFile resolv))
          (check (sys (Create resolv))
             (Wrapf ''error creating resolv.conf, resolv.conf will not work in the chroot: %w'' []) c))
      else c)"

definition with_chroot :: "settings \<Rightarrow> goerr option act \<Rightarrow> goerr option act" where
  "with_chroot s c =
     (if set_chroot s \<noteq> [] then
        with_resolv s
          (check (mountSpecialDirs s mountAction) (\<lambda>err. err)
          (with_defer (ignore (umountSpecialDirs s mountAction))
             (bind (chroot mountAction) (\<lambda>r.
              case r of
                Inl err \<Rightarrow> ret (Some (Wrapf ''error changing root to [%s], error: %w'' [mountAction] err))
              | Inr root \<Rightarrow> with_defer (ignore (exitChroot root)) c))))
      else c)"

subsection \<open>The commands\<close>

text \<open>Go prints a slice of strings with \<open>%v\<close> between brackets, separated by blanks.\<close>

definition debugCMD :: "string list \<Rightarrow> string" where
  "debugCMD words = Sprintf ''%s %v'' [hd words, ''['' @ Join (tl words) '' '' @ '']'']"

definition run_command :: "string list \<Rightarrow> goerr option act" where
  "run_command words =
     check (sys (Start (hd words) (tl words))) (Wrapf ''error starting [%s] [%w]'' [debugCMD words])
    (check (sys (Wait (hd words) (tl words))) (Wrapf ''error running [%s] [%w]'' [debugCMD words])
    (ret None))"

definition interpreter_variable :: string where
  "interpreter_variable = CHR 0x22 # ''DEFAULT_INTERPRETER'' @ [CHR 0x22]"

definition run_commands :: "settings \<Rightarrow> goerr option act" where
  "run_commands s =
     (if set_defaultInterpreter s \<noteq> [] then
        let di = Split (set_defaultInterpreter s) '' '' in
        if length di = 0
        then ret (Some (Errorf (''error parsing ['' @ interpreter_variable @ ''] [%s]'') [set_defaultInterpreter s]))
        else
          bind (sys_stat (hd di)) (\<lambda>st.
          if missing st
          then ret (Some (Errorf (''unable to find the ['' @ interpreter_variable @ ''] [%s], check chroot and interpreter path'')
                 [set_defaultInterpreter s]))
          else run_command (di @ [set_cmdLine s]))
      else
        for_err (Split (set_cmdLine s) '';'') (\<lambda>cl. run_command (Split cl '' '')))"

subsection \<open>The action\<close>

definition mount_siblings :: "decoder \<Rightarrow> goerr option act" where
  "mount_siblings decode =
     bind (getenv ''MIRROR_HOST'') (\<lambda>host.
     if host \<noteq> [] then
       bind (cexec_fetchSiblings decode) (\<lambda>r.
       case r of
         Inl err \<Rightarrow> ret None
       | Inr extras \<Rightarrow>
           if 0 < length extras
           then check (MountExtras extras) (Wrapf ''mount sibling filesystems: %w'' []) (ret None)
           else ret None)
     else ret None)"

definition cexec :: "decoder \<Rightarrow> settings \<Rightarrow> goerr option act" where
  "cexec decode s =
     (if set_blockDevice s = []
      then ret (Some (Errorf ''no Block Device speified with Environment Variable [BLOCK_DEVICE]'' []))
      else
        check (sys (Mkdir mountAction ModeDir))
          (Wrapf ''error creating the mount point [%s], error: %w'' [mountAction])
       (check (sys (call.Mount (set_blockDevice s) mountAction (set_filesystemType s) 0))
          (\<lambda>err. Errorf ''error mounting [%s] -> [%s], error: %v'' [set_blockDevice s, mountAction, ErrorText err])
       (with_defer (ignore (sys (Unmount mountAction 0)))
          (check (mount_siblings decode) (\<lambda>err. err)
          (with_chroot s (run_commands s))))))"

text \<open>
  The main program.  Reading flags and environment is the package \<open>ff\<close>; \<open>parsed\<close> is its
  verdict, \<^const>\<open>None\<close> for an error.
\<close>

definition cexec_main :: "decoder \<Rightarrow> settings option \<Rightarrow> unit act" where
  "cexec_main decode parsed =
     (case parsed of
        None \<Rightarrow> os_exit 10
      | Some s \<Rightarrow>
          if 0 < length (checkRequiredFields s) then os_exit 20
          else bind (cexec decode s) (\<lambda>e. case e of Some err \<Rightarrow> os_exit 30 | None \<Rightarrow> ret ()))"

subsection \<open>What is left behind\<close>

lemma MountExtras_returns [returns_intros]: "returns (MountExtras fs)"
  by (rule mx.oper_returns)

lemma run_command_returns [returns_intros]: "returns (run_command w)"
  by (auto simp: run_command_def intro!: returns_intros)

lemma cexec_parts_return [returns_intros]:
  "returns (mountSpecialDirs s p)" "returns (umountSpecialDirs s p)" "returns (chroot p)" "returns (exitChroot p)"
  "returns (backupFile p)" "returns (restoreFile p)" "returns (run_commands s)" "returns (mount_siblings d)"
  by (auto simp: mountSpecialDirs_def bind_dir_def umountSpecialDirs_def unmount_dir_def chroot_def exitChroot_def
      backupFile_def restoreFile_def run_commands_def mount_siblings_def Let_def intro!: returns_intros)

lemma with_chroot_returns [returns_intros]: "returns c \<Longrightarrow> returns (with_chroot s c)"
  by (auto simp: with_chroot_def with_resolv_def Let_def intro!: returns_intros)

lemma cexec_returns: "returns (cexec d s)"
  unfolding cexec_def by (auto intro!: returns_intros)

text \<open>
  The status of the process tells the three kinds of failure apart, and the first two make no
  call: 10 for flags that do not parse, 20 for a required field that is empty, and 30 for an
  error of the run, whatever it was.
\<close>

lemma cexec_main_outcome:
  "cexec_main d parsed k t =
     (case parsed of
        None \<Rightarrow> (Exit 10, t)
      | Some s \<Rightarrow>
          if set_blockDevice s = [] \<or> set_filesystemType s = [] \<or> set_cmdLine s = [] then (Exit 20, t)
          else (if fst (cexec d s k t) = Ret None then Ret () else Exit 30, snd (cexec d s k t)))"
proof (cases parsed)
  case (Some s)
  obtain e t' where run: "cexec d s k t = (Ret e, t')" using returnsD [OF cexec_returns] by blast
  have "0 < length (checkRequiredFields s) \<longleftrightarrow> set_blockDevice s = [] \<or> set_filesystemType s = [] \<or> set_cmdLine s = []"
    by (simp add: checkRequiredFields_def)
  with run show ?thesis
    by (cases e) (simp_all add: cexec_main_def Some bind_def os_exit_def ret_def)
qed (simp add: cexec_main_def os_exit_def)

text \<open>The calls of a run: the only mount points that are ever unmounted are the action's own.\<close>

definition own_unmount :: "call \<Rightarrow> bool" where
  "own_unmount c =
     (case c of
        Unmount p fl \<Rightarrow> p \<in> {''/mountAction'', ''/mountAction/dev'', ''/mountAction/proc'', ''/mountAction/sys'',
          ''/mountAction/etc/resolv.conf''} \<and> fl = 0
      | _ \<Rightarrow> True)"

lemma special_paths:
  "PathJoin [mountAction, ''dev''] = ''/mountAction/dev''" "PathJoin [mountAction, ''proc''] = ''/mountAction/proc''"
  "PathJoin [mountAction, ''sys''] = ''/mountAction/sys''" "resolv_conf mountAction = ''/mountAction/etc/resolv.conf''"
  "PathJoin [mountAction, ''etc'', ''resolv.conf''] = ''/mountAction/etc/resolv.conf''"
  by (simp_all add: resolv_conf_def mountAction_def path_eval HasPrefix_def)

lemma MountExtras_own: "emits own_unmount (MountExtras fs)"
  by (auto simp: MountExtras_def own_unmount_def Let_def intro!: emits_intros)

lemma cexec_parts_emit:
  "emits own_unmount (mountSpecialDirs s mountAction)" "emits own_unmount (umountSpecialDirs s mountAction)"
  "emits own_unmount (chroot p)" "emits own_unmount (exitChroot p)" "emits own_unmount (backupFile p)"
  "emits own_unmount (restoreFile p)" "emits own_unmount (run_commands s)"
  by (auto simp: mountSpecialDirs_def bind_dir_def umountSpecialDirs_def unmount_dir_def chroot_def exitChroot_def
      backupFile_def restoreFile_def run_commands_def run_command_def Let_def own_unmount_def special_paths
      intro!: emits_intros)

lemma mount_siblings_own: "emits own_unmount (mount_siblings d)"
proof -
  have "emits own_unmount (cexec_fetchSiblings d)"
    by (rule emits_weaken [OF cexec_fetchSiblings_emits]) (auto simp: is_http_def own_unmount_def split: call.splits)
  then show ?thesis unfolding mount_siblings_def by (intro emits_intros MountExtras_own)
qed

lemma with_chroot_own: "emits own_unmount (with_chroot s (run_commands s))"
  unfolding with_chroot_def with_resolv_def Let_def special_paths
  by (auto intro!: emits_intros cexec_parts_emit simp: own_unmount_def)

text \<open>
  Once the block device is mounted, the action's last call is to unmount it, whatever
  happened in between; if it cannot be mounted nothing else is done.
\<close>

theorem cexec_unmounts:
  "let pre = [Mkdir mountAction ModeDir, call.Mount (set_blockDevice s) mountAction (set_filesystemType s) 0] in
   if set_blockDevice s = [] then snd (cexec d s k t) = t
   else if all_ok k t pre
   then (\<exists>e mid. cexec d s k t = (Ret e, t @ pre @ mid @ [Unmount mountAction 0]))
   else (\<exists>e n. cexec d s k t = (Ret (Some e), t @ take (Suc n) pre))"
proof -
  let ?mk = "Mkdir mountAction ModeDir"
  let ?mt = "call.Mount (set_blockDevice s) mountAction (set_filesystemType s) 0"
  let ?rest = "check (mount_siblings d) (\<lambda>err. err) (with_chroot s (run_commands s))"
  have r: "returns ?rest" by (intro returns_intros)
  have g: "emits (\<lambda>_. True) ?rest"
    using emits_check [OF mount_siblings_own with_chroot_own] by (rule emits_weaken) simp
  consider "set_blockDevice s = []" | "set_blockDevice s \<noteq> []" "k_err k t ?mk \<noteq> None"
    | "set_blockDevice s \<noteq> []" "k_err k t ?mk = None" "k_err k (t @ [?mk]) ?mt \<noteq> None"
    | "set_blockDevice s \<noteq> []" "k_err k t ?mk = None" "k_err k (t @ [?mk]) ?mt = None" by blast
  then show ?thesis
  proof cases
    case 1
    then show ?thesis by (simp add: cexec_def ret_def)
  next
    case 2
    then obtain err where "k_err k t ?mk = Some err" by blast
    with 2 show ?thesis
      by (auto simp: cexec_def check_def bind_def sys_def ret_def intro: exI [of _ 0])
  next
    case 3
    then obtain err where "k_err k (t @ [?mk]) ?mt = Some err" by blast
    with 3 show ?thesis
      by (simp add: cexec_def check_def bind_def sys_def ret_def) (rule exI [of _ 1], simp)
  next
    case 4
    from with_defer_last [OF r g, of k "t @ [?mk, ?mt]" "Unmount mountAction 0"]
    obtain x mid where "with_defer (ignore (sys (Unmount mountAction 0))) ?rest k (t @ [?mk, ?mt]) =
        (Ret x, (t @ [?mk, ?mt]) @ mid @ [Unmount mountAction 0])" by blast
    with 4 have "cexec d s k t = (Ret x, (t @ [?mk, ?mt]) @ mid @ [Unmount mountAction 0])"
      by (simp add: cexec_def check_run [OF sys_run])
    with 4 show ?thesis by simp
  qed
qed

text \<open>
  The action unmounts nothing but its own five mount points; the sibling filesystems
  it mounts below \<open>/mountAction\<close> stay mounted.
\<close>

theorem cexec_never_unmounts_siblings: "emits own_unmount (cexec d s)"
  unfolding cexec_def
  by (intro emits_intros mount_siblings_own with_chroot_own) (simp_all add: own_unmount_def mountAction_def)

subsection \<open>Commands run in order\<close>

definition command_steps :: "string list \<Rightarrow> step list" where
  "command_steps words =
     [(Start (hd words) (tl words), Wrapf ''error starting [%s] [%w]'' [debugCMD words]),
      (Wait (hd words) (tl words), Wrapf ''error running [%s] [%w]'' [debugCMD words])]"

definition commands_plan :: "string \<Rightarrow> step list" where
  "commands_plan cmdLine = concat (map (\<lambda>cl. command_steps (Split cl '' '')) (Split cmdLine '';''))"

lemma run_command_script: "run_command words = script (command_steps words)"
  by (simp add: run_command_def command_steps_def)

interpretation cm: fail_fast "\<lambda>cmdLine. for_err (Split cmdLine '';'') (\<lambda>cl. run_command (Split cl '' ''))" commands_plan
  by unfold_locales (simp add: run_command_script script_concat commands_plan_def del: Split.simps)

text \<open>
  Without an interpreter the parts of the command line between semicolons are run one
  after the other, each split at blanks into program and arguments and waited for; the run
  succeeds exactly when every start and every wait does, and stops at the first that does
  not.
\<close>

theorem run_commands_sequence:
  "let plan = concat (map (\<lambda>cl. let w = Split cl '' '' in [Start (hd w) (tl w), Wait (hd w) (tl w)])
        (Split (set_cmdLine s) '';''));
       r = run_commands (s\<lparr>set_defaultInterpreter := []\<rparr>) k t in
   (fst r = Ret None \<longleftrightarrow> all_ok k t plan)
   \<and> (\<exists>n. snd r = t @ take n plan \<and> 0 < n)"
proof -
  let ?r = "run_commands (s\<lparr>set_defaultInterpreter := []\<rparr>) k t"
  define plan where "plan = concat (map (\<lambda>cl. let w = Split cl '' '' in [Start (hd w) (tl w), Wait (hd w) (tl w)])
        (Split (set_cmdLine s) '';''))"
  have plan: "map fst (commands_plan (set_cmdLine s)) = plan"
    by (simp add: plan_def commands_plan_def command_steps_def map_concat comp_def Let_def)
  have r: "?r = script (commands_plan (set_cmdLine s)) k t"
    using cm.oper_script [of "set_cmdLine s"] by (simp add: run_commands_def)
  have ne: "0 < length plan"
    using Split_not_Nil [of "set_cmdLine s" "'';''"] unfolding plan_def
    by (cases "Split (set_cmdLine s) '';''") (simp_all add: Let_def)
  have "\<exists>n. snd ?r = t @ take n plan \<and> 0 < n"
  proof (cases "all_ok k t plan")
    case True
    then have "snd ?r = t @ take (length plan) plan"
      using script_ok [of k t "commands_plan (set_cmdLine s)"] by (simp add: r plan)
    with ne show ?thesis by blast
  next
    case False
    then show ?thesis using script_fail [of k t "commands_plan (set_cmdLine s)"] plan unfolding r by fastforce
  qed
  moreover have "fst ?r = Ret None \<longleftrightarrow> all_ok k t plan"
    using script_ok [of k t "commands_plan (set_cmdLine s)"] script_fail [of k t "commands_plan (set_cmdLine s)"]
    unfolding r plan by (cases "all_ok k t plan") auto
  ultimately show ?thesis unfolding plan_def Let_def by blast
qed

subsection \<open>A whole session in the new root\<close>

text \<open>A kernel that lets everything but the programs succeed, with a fixed working directory.\<close>

definition sys_ok :: "kernel \<Rightarrow> string \<Rightarrow> bool" where
  "sys_ok k cwd \<longleftrightarrow> (\<forall>h c. (case c of Start _ _ \<Rightarrow> True | Wait _ _ \<Rightarrow> True | _ \<Rightarrow> k_err k h c = None))
     \<and> (\<forall>h. k_cwd k h = Inr cwd)"

definition special_mounts :: "settings \<Rightarrow> call list" where
  "special_mounts s =
     [call.Mount ''/dev'' ''/mountAction/dev'' [] MS_BIND, call.Mount ''/proc'' ''/mountAction/proc'' [] MS_BIND,
      call.Mount ''/sys'' ''/mountAction/sys'' [] MS_BIND]
     @ (if set_updateResolvConf s
        then [call.Mount ''/etc/resolv.conf'' ''/mountAction/etc/resolv.conf'' [] (MS_BIND OR MS_RDONLY)] else [])"

definition special_unmounts :: "settings \<Rightarrow> call list" where
  "special_unmounts s =
     [Unmount ''/mountAction/dev'' 0, Unmount ''/mountAction/proc'' 0, Unmount ''/mountAction/sys'' 0]
     @ (if set_updateResolvConf s then [Unmount ''/mountAction/etc/resolv.conf'' 0] else [])"

definition enter_root :: "string \<Rightarrow> call list" where
  "enter_root cwd = [Getwd, OpenFile cwd [O_RDONLY] 0, Chroot ''/mountAction'', Chdir ''/'']"

definition leave_root :: "string \<Rightarrow> call list" where
  "leave_root cwd = [Fchdir cwd, Chroot ''.'', Close cwd]"

definition session_setup :: "settings \<Rightarrow> string \<Rightarrow> call list" where
  "session_setup s cwd =
     [Mkdir ''/mountAction'' ModeDir, call.Mount (set_blockDevice s) ''/mountAction'' (set_filesystemType s) 0]
     @ (if set_updateResolvConf s
        then [Rename ''/mountAction/etc/resolv.conf'' ''/mountAction/etc/resolv.conf.backup'',
              Create ''/mountAction/etc/resolv.conf''] else [])
     @ special_mounts s @ enter_root cwd"

definition session_cleanup :: "settings \<Rightarrow> string \<Rightarrow> call list" where
  "session_cleanup s cwd =
     leave_root cwd @ special_unmounts s
     @ (if set_updateResolvConf s
        then [Rename ''/mountAction/etc/resolv.conf.backup'' ''/mountAction/etc/resolv.conf''] else [])
     @ [Unmount ''/mountAction'' 0]"

lemma sys_okD:
  assumes "sys_ok k cwd"
  shows "k_err k h (call.Mount a b c f) = None" "k_err k h (Mkdir a m) = None" "k_err k h (Unmount a f) = None"
    "k_err k h (Rename a b) = None" "k_err k h (Create a) = None" "k_err k h (OpenFile a fl m) = None"
    "k_err k h (Chroot a) = None" "k_err k h (Chdir a) = None" "k_err k h (Fchdir a) = None"
    "k_err k h (Close a) = None" "k_cwd k h = Inr cwd"
proof -
  from assms have *: "case c of Start _ _ \<Rightarrow> True | Wait _ _ \<Rightarrow> True | _ \<Rightarrow> k_err k h c = None" for h c
    unfolding sys_ok_def by blast
  show "k_err k h (call.Mount a b c f) = None" using * [of h "call.Mount a b c f"] by simp
  show "k_err k h (Mkdir a m) = None" using * [of h "Mkdir a m"] by simp
  show "k_err k h (Unmount a f) = None" using * [of h "Unmount a f"] by simp
  show "k_err k h (Rename a b) = None" using * [of h "Rename a b"] by simp
  show "k_err k h (Create a) = None" using * [of h "Create a"] by simp
  show "k_err k h (OpenFile a fl m) = None" using * [of h "OpenFile a fl m"] by simp
  show "k_err k h (Chroot a) = None" using * [of h "Chroot a"] by simp
  show "k_err k h (Chdir a) = None" using * [of h "Chdir a"] by simp
  show "k_err k h (Fchdir a) = None" using * [of h "Fchdir a"] by simp
  show "k_err k h (Close a) = None" using * [of h "Close a"] by simp
  show "k_cwd k h = Inr cwd" using assms unfolding sys_ok_def by blast
qed

lemma session_parts:
  assumes "sys_ok k cwd"
  shows "mountSpecialDirs s mountAction k t = (Ret None, t @ special_mounts s)"
    and "chroot mountAction k t = (Ret (Inr cwd), t @ enter_root cwd)"
    and "ignore (exitChroot cwd) k t = (Ret (), t @ leave_root cwd)"
    and "ignore (umountSpecialDirs s mountAction) k t = (Ret (), t @ special_unmounts s)"
    and "backupFile f k t = (Ret None, t @ [Rename f (f @ ''.backup'')])"
    and "ignore (restoreFile f) k t = (Ret (), t @ [Rename (f @ ''.backup'') f])"
proof -
  note ok = sys_okD [OF assms]
  have "mountAction \<noteq> []" by (simp add: mountAction_def)
  then show "mountSpecialDirs s mountAction k t = (Ret None, t @ special_mounts s)"
    by (cases "set_updateResolvConf s")
      (simp_all add: mountSpecialDirs_def bind_dir_def Let_def special_paths check_run [OF sys_run] ok ret_apply special_mounts_def)
  show "chroot mountAction k t = (Ret (Inr cwd), t @ enter_root cwd)"
    by (simp add: chroot_def bind_def sys_getwd_def sys_def ok ret_def enter_root_def) (simp add: mountAction_def)
  show "ignore (exitChroot cwd) k t = (Ret (), t @ leave_root cwd)"
    by (simp add: exitChroot_def ignore_def bind_def with_defer_def check_def sys_def ok ret_def leave_root_def)
  show "ignore (umountSpecialDirs s mountAction) k t = (Ret (), t @ special_unmounts s)"
    by (rule ignore_run [of _ _ _ None])
      (cases "set_updateResolvConf s",
        simp_all add: umountSpecialDirs_def unmount_dir_def special_paths check_run [OF sys_run] ok ret_apply special_unmounts_def)
  show "backupFile f k t = (Ret None, t @ [Rename f (f @ ''.backup'')])"
    by (simp add: backupFile_def check_run [OF sys_run] ok ret_apply)
  show "ignore (restoreFile f) k t = (Ret (), t @ [Rename (f @ ''.backup'') f])"
    by (rule ignore_run [of _ _ _ None]) (simp add: restoreFile_def check_run [OF sys_run] ok ret_apply)
qed

text \<open>The special mounts, the new root, some work in it, and the way back.\<close>

abbreviation rooted :: "settings \<Rightarrow> goerr option act \<Rightarrow> goerr option act" where
  "rooted s c \<equiv> check (mountSpecialDirs s mountAction) (\<lambda>err. err)
     (with_defer (ignore (umountSpecialDirs s mountAction))
       (bind (chroot mountAction) (\<lambda>r.
        case r of
          Inl err \<Rightarrow> ret (Some (Wrapf ''error changing root to [%s], error: %w'' [mountAction] err))
        | Inr root \<Rightarrow> with_defer (ignore (exitChroot root)) c)))"

lemma rooted_session:
  assumes "sys_ok k cwd" and "c k (u @ special_mounts s @ enter_root cwd) = (Ret r, t')"
  shows "rooted s c k u = (Ret r, t' @ leave_root cwd @ special_unmounts s)"
proof -
  note parts = session_parts [OF assms(1)]
  let ?t = "u @ special_mounts s"
  let ?in = "bind (chroot mountAction) (\<lambda>r. case r of
      Inl err \<Rightarrow> ret (Some (Wrapf ''error changing root to [%s], error: %w'' [mountAction] err))
    | Inr root \<Rightarrow> with_defer (ignore (exitChroot root)) c)"
  have "with_defer (ignore (exitChroot cwd)) c k (?t @ enter_root cwd) = (Ret r, t' @ leave_root cwd)"
    by (rule with_defer_run [where d = "ignore (exitChroot cwd)" and k = k, OF _ parts(3)]) (use assms(2) in simp)
  then have "?in k ?t = (Ret r, t' @ leave_root cwd)"
    by (subst bind_run) (rule parts(2), simp)
  then have "with_defer (ignore (umountSpecialDirs s mountAction)) ?in k ?t =
      (Ret r, (t' @ leave_root cwd) @ special_unmounts s)"
    by (rule with_defer_run [where d = "ignore (umountSpecialDirs s mountAction)" and k = k, OF _ parts(4)])
  then show ?thesis by (subst check_run) (rule parts(1), simp)
qed

lemma with_chroot_session:
  assumes "sys_ok k cwd" and "set_chroot s \<noteq> []"
    and "c k (t @ drop 2 (session_setup s cwd)) = (Ret r, t')"
  shows "with_chroot s c k t = (Ret r, t' @ butlast (session_cleanup s cwd))"
proof (cases "set_updateResolvConf s")
  case False
  with assms(2,3) rooted_session [OF assms(1), of c t s r t'] show ?thesis
    by (simp add: with_chroot_def with_resolv_def session_setup_def session_cleanup_def butlast_append)
next
  case True
  let ?f = "''/mountAction/etc/resolv.conf''"
  let ?b = "''/mountAction/etc/resolv.conf.backup''"
  let ?t = "t @ [Rename ?f ?b, Create ?f]"
  note parts = session_parts [OF assms(1)]
  have rooted: "rooted s c k ?t = (Ret r, t' @ leave_root cwd @ special_unmounts s)"
    by (rule rooted_session [OF assms(1)]) (use assms(3) True in \<open>simp add: session_setup_def\<close>)
  have "check (sys (Create ?f)) w (rooted s c) k (t @ [Rename ?f ?b]) = (Ret r, t' @ leave_root cwd @ special_unmounts s)" for w
    using rooted by (simp add: check_step sys_okD [OF assms(1)])
  moreover have "ignore (restoreFile ?f) k u = (Ret (), u @ [Rename ?b ?f])" for u
    using parts(6) [of ?f u] by simp
  ultimately have "with_defer (ignore (restoreFile ?f)) (check (sys (Create ?f)) w (rooted s c)) k (t @ [Rename ?f ?b])
      = (Ret r, (t' @ leave_root cwd @ special_unmounts s) @ [Rename ?b ?f])" for w
    by (rule with_defer_run)
  moreover have "check (backupFile ?f) w d k t = d k (t @ [Rename ?f ?b])" for w d
    using parts(5) [of ?f t] by (intro check_run) simp
  ultimately have "with_chroot s c k t = (Ret r, (t' @ leave_root cwd @ special_unmounts s) @ [Rename ?b ?f])"
    using True assms(2)
    by (simp only: with_chroot_def with_resolv_def Let_def special_paths if_True simp_thms not_False_eq_True)
  then show ?thesis using True by (simp add: session_cleanup_def butlast_append)
qed


definition example_settings :: settings where
  "example_settings = \<lparr>set_blockDevice = ''/dev/sda3'', set_filesystemType = ''ext4'', set_chroot = ''y'',
     set_defaultInterpreter = ''/bin/sh -c'', set_cmdLine = ''apt-get update'', set_updateResolvConf = True\<rparr>"


end
