(* ===== verification/Grub2disk.thy ===== *)
theory Grub2disk
  imports Chroot
begin

text \<open>
  The \<open>grub2disk\<close> action (\<open>grub2disk/main.go\<close> and the package \<open>grub2disk/grub\<close>): installing
  GRUB into the target root in BIOS or EFI mode.
\<close>

subsection \<open>Arguments and paths\<close>

definition BuildEFIInstallArgs :: "string \<Rightarrow> string list" where
  "BuildEFIInstallArgs bootloaderID =
     [''--target=x86_64-efi'', ''--efi-directory=/boot/efi'', ''--bootloader-id='' @ bootloaderID,
      ''--recheck'', ''--no-nvram'']"

definition FallbackSource :: "string \<Rightarrow> string" where
  "FallbackSource bootloaderID = ''/boot/efi/EFI/'' @ bootloaderID @ ''/shimx64.efi''"

definition FallbackSourceGrub :: "string \<Rightarrow> string" where
  "FallbackSourceGrub bootloaderID = ''/boot/efi/EFI/'' @ bootloaderID @ ''/grubx64.efi''"

definition BuildEFIBootMgrArgs :: "string \<Rightarrow> int \<Rightarrow> string \<Rightarrow> string list" where
  "BuildEFIBootMgrArgs disk part bootloaderID =
     [''--create'', ''--disk'', disk, ''--part'', Itoa part, ''--label'', bootloaderID, ''--loader'',
      CHR 0x5C # ''EFI'' @ CHR 0x5C # bootloaderID @ CHR 0x5C # ''shimx64.efi'']"

text \<open>The loop that looks for the trailing digits is a \<^const>\<open>dropWhile\<close> from the end.\<close>

definition parseEFIPartition :: "string \<Rightarrow> string \<times> int" where
  "parseEFIPartition p =
     (let digits = rev (takeWhile is_digit (rev p));
          disk = rev (dropWhile is_digit (rev p))
      in if digits = [] then ([], 0)
         else (case Atoi digits of
                 None \<Rightarrow> ([], 0)
               | Some n \<Rightarrow> (TrimSuffix disk ''p'', n)))"

definition envOr :: "string \<Rightarrow> string \<Rightarrow> string act" where
  "envOr key def = bind (getenv key) (\<lambda>v. ret (if v \<noteq> [] then v else def))"

definition grub_run :: "string \<Rightarrow> string list \<Rightarrow> goerr option act" where
  "grub_run name args = sys (Run name args None)"

definition must :: "string \<Rightarrow> string list \<Rightarrow> unit act" where
  "must name args = must_ok (grub_run name args)"

subsection \<open>The two modes\<close>

definition doBIOS :: "unit act" where
  "doBIOS =
     bind (getenv ''GRUB_DISK'') (\<lambda>disk.
     if disk = [] then log_fatal
     else
       andThen (must ''grub-install'' [disk])
         (must ''grub-mkconfig'' [''-o'', ''/boot/grub/grub.cfg'']))"

text \<open>The registration of the boot entry, at the end.\<close>

definition register_nvram :: "string \<Rightarrow> string \<Rightarrow> unit act" where
  "register_nvram efiPart bootloaderID =
     bind (envOr ''REGISTER_NVRAM'' ''true'') (\<lambda>r.
     if r = ''true'' then
       (let (disk, part) = parseEFIPartition efiPart in
        if disk = [] then ret ()
        else ignore (grub_run ''efibootmgr'' (BuildEFIBootMgrArgs disk part bootloaderID)))
     else ret ())"

definition doEFI :: "unit act" where
  "doEFI =
     bind (getenv ''EFI_PARTITION'') (\<lambda>efiPart.
     if efiPart = [] then log_fatal
     else
       bind (envOr ''BOOTLOADER_ID'' ''ubuntu'') (\<lambda>bootloaderID.
       andThen (must_ok (sys (MkdirAll ''/boot/efi'' mode_0755)))
      (andThen (must_ok (grub_run ''mount'' [efiPart, ''/boot/efi'']))
      (with_defer (ignore (grub_run ''umount'' [''/boot/efi'']))
         (andThen (must ''grub-install'' (BuildEFIInstallArgs bootloaderID))
         (andThen (must ''update-grub'' [])
         (andThen (must_ok (sys (MkdirAll ''/boot/efi/EFI/BOOT'' mode_0755)))
         (bind (sys_stat (FallbackSource bootloaderID)) (\<lambda>st.
          let src = (case st of Inl err \<Rightarrow> FallbackSourceGrub bootloaderID | Inr m \<Rightarrow> FallbackSource bootloaderID) in
          andThen (must_ok (grub_run ''cp'' [src, ''/boot/efi/EFI/BOOT/BOOTX64.EFI'']))
         (andThen (ignore (grub_run ''cp'' [FallbackSourceGrub bootloaderID, ''/boot/efi/EFI/BOOT/grubx64.efi'']))
         (register_nvram efiPart bootloaderID)))))))))))"

definition grub2disk :: "decoder \<Rightarrow> unit act" where
  "grub2disk decode =
     bind (envOr ''MODE'' ''bios'') (\<lambda>mode.
     bind (getenv ''GRUB_INSTALL_PATH'') (\<lambda>blockDev.
     bind (getenv ''FS_TYPE'') (\<lambda>fsType.
     if blockDev = [] then log_fatal
     else
       bind (fetchSiblings decode) (\<lambda>extras.
       andThen (must_ok (Enter blockDev fsType extras))
         (if mode = ''bios'' then doBIOS else if mode = ''efi'' then doEFI else log_fatal)))))"

subsection \<open>Reading the partition\<close>

text \<open>
  A partition path is cut into its disk and its number: for a disk path whose last
  character is neither a digit nor \<open>p\<close>, the number follows directly, and for one that ends
  in a digit (NVMe) it follows a \<open>p\<close>.
\<close>

theorem parseEFIPartition_inverse:
  assumes "d \<noteq> []" and "n < 2 ^ 63"
  shows "(if is_digit (last d) then parseEFIPartition (d @ ''p'' @ FormatUint n) = (d, int n)
    else if last d \<noteq> CHR ''p'' then parseEFIPartition (d @ FormatUint n) = (d, int n) else True)"
proof -
  have digits: "list_all is_digit (FormatUint n)" by (simp add: list_all_iff FormatUint_is_digit)
  have cut: "parseEFIPartition (x @ FormatUint n) = (TrimSuffix x ''p'', int n)"
    if x: "x \<noteq> []" "\<not> is_digit (last x)" for x
  proof -
    have all: "\<forall>c\<in>set (rev (FormatUint n)). is_digit c" using digits by (simp add: list_all_iff)
    have stop: "takeWhile is_digit (rev x) = []" "dropWhile is_digit (rev x) = rev x"
      using x by (cases x rule: rev_cases; simp)+
    have "takeWhile is_digit (rev (FormatUint n) @ rev x) = rev (FormatUint n) @ takeWhile is_digit (rev x)"
      by (rule takeWhile_append2) (use all in blast)
    then have "takeWhile is_digit (rev (x @ FormatUint n)) = rev (FormatUint n)" by (simp add: stop)
    moreover have "dropWhile is_digit (rev (FormatUint n) @ rev x) = dropWhile is_digit (rev x)"
      by (rule dropWhile_append2) (use all in blast)
    then have "dropWhile is_digit (rev (x @ FormatUint n)) = rev x" by (simp add: stop)
    ultimately show ?thesis
      using Atoi_FormatUint [OF assms(2)] by (simp add: parseEFIPartition_def Let_def)
  qed
  have p: "\<not> is_digit (CHR ''p'')" by (simp add: is_digit_def)
  have "TrimSuffix (d @ ''p'') ''p'' = d" by (rule TrimSuffix_append)
  with cut [of "d @ ''p''"] p have a: "parseEFIPartition (d @ ''p'' @ FormatUint n) = (d, int n)"
    by simp
  have b: "parseEFIPartition (d @ FormatUint n) = (d, int n)" if "\<not> is_digit (last d)" "last d \<noteq> CHR ''p''"
  proof -
    have "\<not> HasSuffix d ''p''" using that(2) by (auto simp: HasSuffix_iff)
    with cut [OF assms(1) that(1)] show ?thesis by (simp add: TrimSuffix_def)
  qed
  from a b show ?thesis by simp
qed

theorem parseEFIPartition_inverse_witness:
  "parseEFIPartition ''/dev/nvme0n1p1'' = (''/dev/nvme0n1'', 1) \<and> parseEFIPartition ''/dev/sda15'' = (''/dev/sda'', 15)"
proof -
  have f: "FormatUint (Suc 0) = ''1''" "FormatUint 15 = ''15''"
    by (simp_all add: FormatUint_rec digit_char_def char_of_def bit_iff_odd)
  show ?thesis
    using parseEFIPartition_inverse [of "''/dev/nvme0n1''" 1] parseEFIPartition_inverse [of "''/dev/sda''" 15]
    by (simp add: f is_digit_def)
qed

subsection \<open>The EFI installation\<close>

definition efi_id :: "kernel \<Rightarrow> string" where
  "efi_id k = env_or k ''BOOTLOADER_ID'' ''ubuntu''"

definition nvram_calls :: "kernel \<Rightarrow> call list" where
  "nvram_calls k =
     (let (disk, part) = parseEFIPartition (env k ''EFI_PARTITION'') in
      if env_or k ''REGISTER_NVRAM'' ''true'' = ''true'' \<and> disk \<noteq> []
      then [Run ''efibootmgr'' (BuildEFIBootMgrArgs disk part (efi_id k)) None] else [])"

definition efi_mount :: "kernel \<Rightarrow> call list" where
  "efi_mount k = [MkdirAll ''/boot/efi'' mode_0755, Run ''mount'' [env k ''EFI_PARTITION'', ''/boot/efi''] None]"

definition efi_install :: "kernel \<Rightarrow> call list" where
  "efi_install k = [Run ''grub-install'' (BuildEFIInstallArgs (efi_id k)) None, Run ''update-grub'' [] None,
     MkdirAll ''/boot/efi/EFI/BOOT'' mode_0755]"

text \<open>The copy of the loader for the firmware: the shim if \<open>stat\<close> finds it, else GRUB itself.\<close>

definition efi_fallback :: "kernel \<Rightarrow> goerr + 32 word \<Rightarrow> call" where
  "efi_fallback k st =
     Run ''cp'' [case st of Inl _ \<Rightarrow> FallbackSourceGrub (efi_id k) | Inr _ \<Rightarrow> FallbackSource (efi_id k),
       ''/boot/efi/EFI/BOOT/BOOTX64.EFI''] None"

definition efi_finish :: "kernel \<Rightarrow> call list" where
  "efi_finish k = Run ''cp'' [FallbackSourceGrub (efi_id k), ''/boot/efi/EFI/BOOT/grubx64.efi''] None # nvram_calls k"

lemma envOr_run: "bind (envOr v d) f k t = f (env_or k v d) k t"
  by (simp add: envOr_def bind_def getenv_def env_or_def ret_def split: option.split)

lemma register_nvram_run:
  "register_nvram (env k ''EFI_PARTITION'') (efi_id k) k t = (Ret (), t @ nvram_calls k)"
proof -
  obtain disk part where "parseEFIPartition (env k ''EFI_PARTITION'') = (disk, part)" by (rule prod.exhaust)
  then show ?thesis
    unfolding register_nvram_def envOr_run nvram_calls_def
    by (cases "env_or k ''REGISTER_NVRAM'' ''true'' = ''true''"; cases "disk = []")
      (simp_all add: grub_run_def ignore_def bind_def sys_def ret_def)
qed

definition efi_body :: "kernel \<Rightarrow> unit act" where
  "efi_body k =
     andThen (must_all (efi_install k))
      (bind (sys_stat (FallbackSource (efi_id k))) (\<lambda>st.
         andThen (must_all [efi_fallback k st])
        (andThen (ignore (sys (Run ''cp'' [FallbackSourceGrub (efi_id k), ''/boot/efi/EFI/BOOT/grubx64.efi''] None)))
        (register_nvram (env k ''EFI_PARTITION'') (efi_id k)))))"

lemma doEFI_body:
  assumes "env k ''EFI_PARTITION'' \<noteq> []"
  shows "doEFI k t = andThen (must_all (efi_mount k))
     (with_defer (ignore (sys (Run ''umount'' [''/boot/efi''] None))) (efi_body k)) k t"
proof -
  have "doEFI = bind (getenv ''EFI_PARTITION'') (\<lambda>p. if p = [] then log_fatal
      else bind (envOr ''BOOTLOADER_ID'' ''ubuntu'') (\<lambda>b.
        andThen (must_all [MkdirAll ''/boot/efi'' mode_0755, Run ''mount'' [p, ''/boot/efi''] None])
         (with_defer (ignore (sys (Run ''umount'' [''/boot/efi''] None)))
           (andThen (must_all [Run ''grub-install'' (BuildEFIInstallArgs b) None, Run ''update-grub'' [] None,
               MkdirAll ''/boot/efi/EFI/BOOT'' mode_0755])
            (bind (sys_stat (FallbackSource b)) (\<lambda>st.
              andThen (must_all [Run ''cp'' [case st of Inl _ \<Rightarrow> FallbackSourceGrub b | Inr _ \<Rightarrow> FallbackSource b,
                ''/boot/efi/EFI/BOOT/BOOTX64.EFI''] None])
             (andThen (ignore (sys (Run ''cp'' [FallbackSourceGrub b, ''/boot/efi/EFI/BOOT/grubx64.efi''] None)))
             (register_nvram p b))))))))"
    by (simp only: doEFI_def must_def grub_run_def must_all.simps andThen_assoc Let_def andThen_ret_right andThen_ret)
  note eq = this
  have "doEFI k t = bind (envOr ''BOOTLOADER_ID'' ''ubuntu'') (\<lambda>b.
        andThen (must_all [MkdirAll ''/boot/efi'' mode_0755, Run ''mount'' [env k ''EFI_PARTITION'', ''/boot/efi''] None])
         (with_defer (ignore (sys (Run ''umount'' [''/boot/efi''] None)))
           (andThen (must_all [Run ''grub-install'' (BuildEFIInstallArgs b) None, Run ''update-grub'' [] None,
               MkdirAll ''/boot/efi/EFI/BOOT'' mode_0755])
            (bind (sys_stat (FallbackSource b)) (\<lambda>st.
              andThen (must_all [Run ''cp'' [case st of Inl _ \<Rightarrow> FallbackSourceGrub b | Inr _ \<Rightarrow> FallbackSource b,
                ''/boot/efi/EFI/BOOT/BOOTX64.EFI''] None])
             (andThen (ignore (sys (Run ''cp'' [FallbackSourceGrub b, ''/boot/efi/EFI/BOOT/grubx64.efi''] None)))
             (register_nvram (env k ''EFI_PARTITION'') b))))))) k t"
    unfolding eq getenv_bind by (simp only: assms if_False)
  then show ?thesis
    unfolding envOr_run efi_id_def efi_body_def efi_mount_def efi_install_def efi_fallback_def .
qed

lemma efi_body_run:
  fixes k :: kernel
  defines "st \<equiv> \<lambda>t. k_stat k (t @ efi_install k) (FallbackSource (efi_id k))"
  defines "cp \<equiv> \<lambda>t. efi_fallback k (st t)"
  shows "if all_ok k t (efi_install k) \<and> k_err k (t @ efi_install k @ [Stat (FallbackSource (efi_id k))]) (cp t) = None
   then efi_body k k t = (Ret (), t @ efi_install k @ [Stat (FallbackSource (efi_id k)), cp t] @ efi_finish k)
   else (\<exists>done. efi_body k k t = (Exit 1, t @ done)
      \<and> prefix done (efi_install k @ [Stat (FallbackSource (efi_id k)), cp t]))"
proof -
  let ?shim = "Stat (FallbackSource (efi_id k))"
  let ?rest = "andThen (ignore (sys (Run ''cp'' [FallbackSourceGrub (efi_id k), ''/boot/efi/EFI/BOOT/grubx64.efi''] None)))
        (register_nvram (env k ''EFI_PARTITION'') (efi_id k))"
  have rest: "?rest k u = (Ret (), u @ efi_finish k)" for u
    by (simp add: ignore_step register_nvram_run efi_finish_def)
  have stat: "bind (sys_stat (FallbackSource (efi_id k))) (\<lambda>st. andThen (must_all [efi_fallback k st]) ?rest) k (t @ efi_install k)
      = andThen (must_all [cp t]) ?rest k (t @ efi_install k @ [?shim])"
    by (simp add: bind_def sys_stat_def cp_def st_def)
  note first = must_all_then [of k t "efi_install k"
      "bind (sys_stat (FallbackSource (efi_id k))) (\<lambda>st. andThen (must_all [efi_fallback k st]) ?rest)",
      folded efi_body_def, unfolded stat]
  note second = must_all_then [of k "t @ efi_install k @ [?shim]" "[cp t]" ?rest, unfolded rest]
  show ?thesis
  proof (cases "all_ok k t (efi_install k)")
    case False
    with first obtain h where "efi_body k k t = (Exit 1, t @ h)" "prefix h (efi_install k)" by (simp only: if_False) blast
    with False show ?thesis by (auto intro: prefix_prefix)
  next
    case True
    with first second show ?thesis
      by (cases "k_err k (t @ efi_install k @ [?shim]) (cp t)") auto
  qed
qed

text \<open>
  C35: An EFI installation mounts the system partition, installs and configures GRUB, copies
  the loader for the firmware (the shim if it is there, GRUB otherwise) and GRUB beside it,
  registers the boot entry if asked to and unmounts the partition.  If a call up to the
  firmware copy fails, the process exits with status 1, and the partition is not unmounted.
\<close>

theorem doEFI_run:
  fixes t :: "call list"
  assumes "env k ''EFI_PARTITION'' \<noteq> []"
  defines "install_at \<equiv> t @ efi_mount k"
  defines "shim \<equiv> Stat (FallbackSource (efi_id k))"
    and "cp \<equiv> efi_fallback k (k_stat k (install_at @ efi_install k) (FallbackSource (efi_id k)))"
  shows "if all_ok k t (efi_mount k) \<and> all_ok k install_at (efi_install k)
       \<and> k_err k (install_at @ efi_install k @ [shim]) cp = None
    then doEFI k t = (Ret (), install_at @ efi_install k @ [shim, cp] @ efi_finish k @ [Run ''umount'' [''/boot/efi''] None])
    else (\<exists>done. doEFI k t = (Exit 1, t @ done) \<and> prefix done (efi_mount k @ efi_install k @ [shim, cp]))"
proof -
  let ?umount = "ignore (sys (Run ''umount'' [''/boot/efi''] None))"
  note first = must_all_then [of k t "efi_mount k" "with_defer ?umount (efi_body k)", folded doEFI_body [OF assms(1)]]
  note body = efi_body_run [of k install_at, folded shim_def, folded cp_def]
  show ?thesis
  proof (cases "all_ok k t (efi_mount k)")
    case False
    with first obtain h where "doEFI k t = (Exit 1, t @ h)" "prefix h (efi_mount k)" by (simp only: if_False) blast
    with False show ?thesis by (auto intro: prefix_prefix)
  next
    case True
    with first have m: "doEFI k t = with_defer ?umount (efi_body k) k install_at" by (simp add: install_at_def)
    show ?thesis
    proof (cases "all_ok k install_at (efi_install k) \<and> k_err k (install_at @ efi_install k @ [shim]) cp = None")
      case ok: True
      with m True body show ?thesis by (simp add: with_defer_def ignore_sys)
    next
      case False
      with body obtain h where "efi_body k k install_at = (Exit 1, install_at @ h)" "prefix h (efi_install k @ [shim, cp])"
        by (simp only: if_False) blast
      with m False show ?thesis by (auto simp: with_defer_def install_at_def)
    qed
  qed
qed

definition efi_kernel :: kernel where
  "efi_kernel = quiet\<lparr>k_env := [''EFI_PARTITION'' \<mapsto> ''/dev/sda1'']\<rparr>"

theorem doEFI_run_witness:
  "fst (doEFI efi_kernel []) = Ret ()
   \<and> last (snd (doEFI efi_kernel [])) = Run ''umount'' [''/boot/efi''] None"
proof -
  have e: "env efi_kernel ''EFI_PARTITION'' \<noteq> []" by (simp add: efi_kernel_def env_def)
  have ok: "k_err efi_kernel h c = None" for h c by (simp add: efi_kernel_def)
  have all: "all_ok efi_kernel h cs" for h cs by (induction cs arbitrary: h) (simp_all add: ok)
  from doEFI_run [OF e, of "[]"] show ?thesis
    by (simp only: all ok simp_thms if_True) simp
qed

subsection \<open>The order of the action\<close>

text \<open>The programs and files inside the new root.\<close>

definition install_call :: "call \<Rightarrow> bool" where
  "install_call c =
     (case c of
        Run p args inp \<Rightarrow> p \<in> {''grub-install'', ''grub-mkconfig'', ''update-grub'', ''mount'', ''umount'', ''cp'', ''efibootmgr''} \<and> inp = None
      | MkdirAll p m \<Rightarrow> p \<in> {''/boot/efi'', ''/boot/efi/EFI/BOOT''} \<and> m = mode_0755
      | Stat p \<Rightarrow> HasPrefix p ''/boot/efi/EFI/''
      | _ \<Rightarrow> False)"

lemma register_nvram_emits: "emits install_call (register_nvram p b)"
  by (auto simp: register_nvram_def envOr_def grub_run_def install_call_def intro!: emits_intros split: prod.split)

lemma doBIOS_emits: "emits install_call doBIOS"
  by (auto simp: doBIOS_def must_def grub_run_def install_call_def intro!: emits_intros)

lemma shim_below: "install_call (Stat (FallbackSource b))"
  by (simp add: install_call_def FallbackSource_def HasPrefix_def)

lemma doEFI_emits: "emits install_call doEFI"
  unfolding doEFI_def envOr_def must_def grub_run_def Let_def
  by (intro emits_intros register_nvram_emits shim_below) (simp_all add: install_call_def)

definition grub_ask :: "decoder \<Rightarrow> Filesystem list act" where
  "grub_ask decode = bind (getenv ''GRUB_INSTALL_PATH'') (\<lambda>dev. if dev = [] then log_fatal else fetchSiblings decode)"

definition grub_install :: "string \<Rightarrow> unit act" where
  "grub_install mode = (if mode = ''bios'' then doBIOS else if mode = ''efi'' then doEFI else log_fatal)"

lemma grub_install_emits: "emits install_call (grub_install m)"
  unfolding grub_install_def by (intro emits_if emits_fatal doBIOS_emits doEFI_emits)

lemma grub_ask_emits: "emits is_http (grub_ask d)"
  unfolding grub_ask_def by (intro emits_intros fetchSiblings_emits)

interpretation gd: rooted_action grub2disk grub_ask
    "\<lambda>k x. Some (root_gate k ''GRUB_INSTALL_PATH'' ''FS_TYPE'' x)"
    "\<lambda>k x. grub_install (env_or k ''MODE'' ''bios'')" is_http install_call "''GRUB_INSTALL_PATH''" "''FS_TYPE''"
proof
  fix d k t
  show "grub2disk d k t = bind (grub_ask d) (\<lambda>x k t. case Some (root_gate k ''GRUB_INSTALL_PATH'' ''FS_TYPE'' x) of
      None \<Rightarrow> (Ret (), t) | Some cs \<Rightarrow> andThen (must_all cs) (grub_install (env_or k ''MODE'' ''bios'')) k t) k t"
    (is "_ = bind _ ?rest k t")
  proof (cases "env k ''GRUB_INSTALL_PATH'' = []")
    case True
    then have "grub_ask d k t = (Exit 1, t)" by (simp add: grub_ask_def getenv_bind log_fatal_def os_exit_def)
    with True show ?thesis
      by (simp add: grub2disk_def envOr_run getenv_bind log_fatal_def os_exit_def) (simp add: bind_def)
  next
    case False
    then have "bind (grub_ask d) ?rest k t = bind (fetchSiblings d) ?rest k t"
      by (intro bind_first) (simp add: grub_ask_def getenv_bind)
    moreover have "grub2disk d k t = bind (fetchSiblings d) ?rest k t"
      unfolding grub2disk_def envOr_run getenv_bind must_Enter grub_install_def [symmetric] if_not_P [OF False] option.case
      by (rule bind_same) (rule refl)
    ultimately show ?thesis by simp
  qed
qed (auto intro: grub_ask_emits grub_install_emits root_gate_enters)

text \<open>
  The action asks the metadata service, enters the target root, and only then runs the programs
  of an installation; without a block device it does nothing.
\<close>

theorem grub2disk_phases: "phases [is_http, enter_call, install_call] (grub2disk decode)"
proof -
  have go: "phases [enter_call, install_call] (andThen (must_ok (Enter dev fs x))
      (if m = ''bios'' then doBIOS else if m = ''efi'' then doEFI else log_fatal))" for dev fs x m
    by (intro phases_emits_andThen phases_emits emits_must_ok Enter_calls emits_if emits_fatal doBIOS_emits doEFI_emits)
  have "phases [is_http, enter_call, install_call] (if dev = [] then log_fatal
      else bind (fetchSiblings decode) (\<lambda>x. andThen (must_ok (Enter dev fs x))
        (if m = ''bios'' then doBIOS else if m = ''efi'' then doEFI else log_fatal)))" for dev fs m
    by (cases "dev = []") (simp_all add: phases_fatal phases_emits_bind [OF fetchSiblings_emits go])
  note body = this
  have env: "phases Ps (bind (envOr v d) f)" if "\<And>x. phases Ps (f x)" for Ps v d and f :: "string \<Rightarrow> unit act"
    unfolding phases_def envOr_run using that by (simp add: phases_def)
  show ?thesis unfolding grub2disk_def by (intro env phases_getenv body)
qed

end
