(* ===== verification/Writefile.thy ===== *)
theory Writefile
  imports Stages
begin

text \<open>
  The \<open>writefile\<close> action (\<open>writefile/main.go\<close>): it checks its inputs, mounts the device,
  creates the missing directories of the path, writes the file and sets its owner.
\<close>

definition isDir :: "32 word \<Rightarrow> bool" where
  "isDir mode \<longleftrightarrow> (mode AND S_IFMT) = S_IFDIR"

definition dirExists :: "string \<Rightarrow> string \<Rightarrow> (goerr + bool) act" where
  "dirExists mountPath path =
     bind (sys_stat (PathJoin [mountPath, path])) (\<lambda>info.
     case info of
       Inl err \<Rightarrow>
         if \<not> IsNotExist err then ret (Inl (Wrapf ''failed to stat path %s: %w'' [path] err))
         else ret (Inr False)
     | Inr mode \<Rightarrow>
         if \<not> isDir mode then ret (Inl (Errorf ''expected %s to be a path, but it is a file'' [path]))
         else ret (Inr True))"

definition ensureDir :: "string \<Rightarrow> string \<Rightarrow> 32 word \<Rightarrow> int \<Rightarrow> int \<Rightarrow> goerr option act" where
  "ensureDir mountPath path mode uid gid =
     bind (dirExists mountPath path) (\<lambda>r.
     case r of
       Inl err \<Rightarrow> ret (Some err)
     | Inr ex \<Rightarrow>
         if ex then ret None
         else
           let fqPath = PathJoin [mountPath, path] in
           check (sys (Mkdir fqPath mode)) (Wrapf ''failed to create directory %s: %w'' [path])
          (check (sys (Chown fqPath uid gid))
             (Wrapf ''failed to set ownership of directory %s to %d:%d: %w'' [path, Itoa uid, Itoa gid])
          (ret None)))"

text \<open>The values of \<open>basePath\<close> in the loop over the parts of a path.\<close>

fun base_paths :: "string \<Rightarrow> string list \<Rightarrow> string list" where
  "base_paths basePath [] = []"
| "base_paths basePath (part # parts) =
     (let b = PathJoin [basePath, part] in b # base_paths b parts)"

definition recursiveEnsureDir :: "string \<Rightarrow> string \<Rightarrow> 32 word \<Rightarrow> int \<Rightarrow> int \<Rightarrow> goerr option act" where
  "recursiveEnsureDir mountPath path mode uid gid =
     bind (dirExists mountPath path) (\<lambda>r.
     case r of
       Inl err \<Rightarrow> ret (Some err)
     | Inr ex \<Rightarrow>
         if ex then ret None
         else
           let pathParts = Split path ''/'' in
           if length pathParts = 1 \<and> hd pathParts = path then ret (Some (Errorf ''bad path'' []))
           else for_err (base_paths ''/'' pathParts) (\<lambda>b. ensureDir mountPath b mode uid gid))"

text \<open>
  The checked inputs: device, file system type, path, contents, the two modes, user and
  group.  Any failed check ends the process with status 1, as \<open>must_ok\<close> does: the source
  logs the error and calls \<open>os.Exit(1)\<close>.
\<close>

record inputs =
  in_blockDevice :: string
  in_filesystemType :: string
  in_filePath :: string
  in_contents :: string
  in_fileMode :: "32 word"
  in_dirMode :: "32 word"
  in_uid :: int
  in_gid :: int

definition validate :: "kernel \<Rightarrow> inputs option" where
  "validate k =
     (let blockDevice = env k ''DEST_DISK''; filePath = env k ''DEST_PATH'' in
      if blockDevice = [] then None
      else if \<not> IsAbs filePath then None
      else
        (case ParseUint (env k ''MODE'') 8 32 of
           None \<Rightarrow> None
         | Some modePrime \<Rightarrow>
             (case ParseUint (env k ''DIRMODE'') 8 32 of
                None \<Rightarrow> None
              | Some dirModePrime \<Rightarrow>
                  (case Atoi (env k ''UID'') of
                     None \<Rightarrow> None
                   | Some uid \<Rightarrow>
                       (case Atoi (env k ''GID'') of
                          None \<Rightarrow> None
                        | Some gid \<Rightarrow>
                            if length (snd (PathSplit filePath)) = 0 then None
                            else Some \<lparr>in_blockDevice = blockDevice, in_filesystemType = env k ''FS_TYPE'',
                                   in_filePath = filePath, in_contents = env k ''CONTENTS'',
                                   in_fileMode = of_nat modePrime, in_dirMode = of_nat dirModePrime,
                                   in_uid = uid, in_gid = gid\<rparr>)))))"

definition write_file :: "inputs \<Rightarrow> unit act" where
  "write_file i =
     andThen (must_ok (sys (Mkdir mountAction ModeDir)))
    (andThen (must_ok (sys (call.Mount (in_blockDevice i) mountAction (in_filesystemType i) 0)))
    (with_defer (ignore (sys (Unmount mountAction 0)))
       (andThen (must_ok (recursiveEnsureDir mountAction (fst (PathSplit (in_filePath i)))
                  (in_dirMode i) (in_uid i) (in_gid i)))
       (let fqFilePath = PathJoin [mountAction, in_filePath i] in
        andThen (must_ok (sys (WriteFile fqFilePath (in_contents i) (in_fileMode i))))
          (must_ok (sys (Chown fqFilePath (in_uid i) (in_gid i))))))))"

definition writefile :: "unit act" where
  "writefile = (\<lambda>k t. case validate k of None \<Rightarrow> os_exit 1 k t | Some i \<Rightarrow> write_file i k t)"

subsection \<open>Missing directories\<close>

text \<open>
  The abstract view: the set of directories there are, namely those of the beginning and
  those made since.  \<open>dir_kernel D k\<close> is a file system that has the directories \<open>D\<close> at the
  beginning, answers \<open>stat\<close> according to this set, and lets \<open>mkdir\<close> and \<open>chown\<close> succeed.
\<close>

definition dirs_after :: "string set \<Rightarrow> call list \<Rightarrow> string set" where
  "dirs_after D h = D \<union> {p. \<exists>m. Mkdir p m \<in> set h}"

definition dir_kernel :: "string set \<Rightarrow> kernel \<Rightarrow> bool" where
  "dir_kernel D k \<longleftrightarrow>
     (\<forall>h p. k_stat k h p = (if p \<in> dirs_after D h then Inr S_IFDIR else Inl (NotExist ''no such file or directory'')))
     \<and> (\<forall>h p m. k_err k h (Mkdir p m) = None) \<and> (\<forall>h p u g. k_err k h (Chown p u g) = None)"

lemma dirExists_abs:
  assumes "dir_kernel D k"
  shows "dirExists mnt p k t = (Ret (Inr (PathJoin [mnt, p] \<in> dirs_after D t)), t @ [Stat (PathJoin [mnt, p])])"
  using assms by (simp add: dirExists_def bind_def sys_stat_def ret_def dir_kernel_def isDir_def S_IFMT_def S_IFDIR_def
      IsNotExist_def)

lemma dirs_after_simps [simp]:
  "dirs_after D (h @ h') = dirs_after D h \<union> dirs_after {} h'"
  "dirs_after {} [] = {}" "dirs_after {} (Mkdir p m # h) = insert p (dirs_after {} h)"
  "dirs_after {} (Stat p # h) = dirs_after {} h" "dirs_after {} (Chown p u g # h) = dirs_after {} h"
  by (auto simp: dirs_after_def)

text \<open>The calls that make one directory, none if it is there.\<close>

definition make_calls :: "string set \<Rightarrow> string \<Rightarrow> 32 word \<Rightarrow> int \<Rightarrow> int \<Rightarrow> call list" where
  "make_calls D p mode uid gid = Stat p # (if p \<in> D then [] else [Mkdir p mode, Chown p uid gid])"

lemma ensureDir_abs:
  assumes "dir_kernel D k"
  shows "ensureDir mnt p mode uid gid k t =
    (Ret None, t @ make_calls (dirs_after D t) (PathJoin [mnt, p]) mode uid gid)"
  using assms dirExists_abs [OF assms, of mnt p t]
  by (simp add: ensureDir_def bind_def Let_def make_calls_def check_def sys_def ret_def dir_kernel_def)

fun make_all :: "string set \<Rightarrow> string list \<Rightarrow> 32 word \<Rightarrow> int \<Rightarrow> int \<Rightarrow> call list" where
  "make_all D [] mode uid gid = []"
| "make_all D (p # ps) mode uid gid = make_calls D p mode uid gid @ make_all (insert p D) ps mode uid gid"

lemma dirs_after_make: "dirs_after {} (make_calls D p mode uid gid) = {p} - D"
  by (auto simp: make_calls_def)

lemma ensure_all_abs:
  assumes "dir_kernel D k"
  shows "for_err bs (\<lambda>b. ensureDir mnt b mode uid gid) k t =
    (Ret None, t @ make_all (dirs_after D t) (map (\<lambda>b. PathJoin [mnt, b]) bs) mode uid gid)"
proof (induction bs arbitrary: t)
  case Nil
  then show ?case by (simp add: ret_def)
next
  case (Cons b bs)
  let ?p = "PathJoin [mnt, b]"
  have "dirs_after D (t @ make_calls (dirs_after D t) ?p mode uid gid) = insert ?p (dirs_after D t)"
    by (auto simp: dirs_after_make)
  with Cons.IH [of "t @ make_calls (dirs_after D t) ?p mode uid gid"] ensureDir_abs [OF assms, of mnt b mode uid gid t]
  show ?case by (simp add: check_def bind_def)
qed

lemma make_all_dirs: "dirs_after {} (make_all D ps mode uid gid) = set ps - D"
  by (induction ps arbitrary: D) (auto simp: dirs_after_make)

fun made :: "call list \<Rightarrow> string list" where
  "made [] = []"
| "made (Mkdir p m # h) = p # made h"
| "made (c # h) = made h"

lemma made_append [simp]: "made (g @ h) = made g @ made h"
proof (induction g)
  case (Cons c g)
  then show ?case by (cases c) simp_all
qed simp

lemma make_all_made: "subseq (made (make_all D ps mode uid gid)) ps
    \<and> distinct (made (make_all D ps mode uid gid)) \<and> set (made (make_all D ps mode uid gid)) = set ps - D"
proof (induction ps arbitrary: D)
  case (Cons p ps)
  from Cons [of "insert p D"] show ?case by (auto simp: make_calls_def)
qed simp


text \<open>Making the missing directories of \<open>/a/b/\<close> on a device that has the directory \<open>/a\<close> only.\<close>

definition half_made :: kernel where
  "half_made = quiet\<lparr>k_stat := (\<lambda>h p. if p \<in> dirs_after {''/m'', ''/m/a''} h then Inr S_IFDIR
     else Inl (NotExist ''no such file or directory''))\<rparr>"

lemma half_made_dirs: "dir_kernel {''/m'', ''/m/a''} half_made"
  by (simp add: dir_kernel_def half_made_def)

lemma half_made_targets:
  "map (\<lambda>b. PathJoin [''/m'', b]) (base_paths ''/'' (Split ''/a/b/'' ''/'')) = [''/m'', ''/m/a'', ''/m/a/b'', ''/m/a/b'']"
  "PathJoin [''/m'', ''/a/b/''] = ''/m/a/b''"
  by code_simp+


subsection \<open>The whole action\<close>

abbreviation directory_call :: "call \<Rightarrow> bool" where
  "directory_call c \<equiv> (case c of Stat p \<Rightarrow> True | Mkdir p m \<Rightarrow> True | Chown p u g \<Rightarrow> True | _ \<Rightarrow> False)"

lemma dirExists_emits: "emits directory_call (dirExists mnt p)"
  unfolding dirExists_def
  by (intro emits_bind emits_case_sum emits_if emits_ret emits_stat) simp

lemma ensureDir_emits: "emits directory_call (ensureDir mnt p mode uid gid)"
  unfolding ensureDir_def Let_def
  by (intro emits_bind emits_case_sum emits_if emits_ret emits_check emits_sys dirExists_emits) simp_all

lemma recursiveEnsureDir_emits: "emits directory_call (recursiveEnsureDir mnt p mode uid gid)"
  unfolding recursiveEnsureDir_def Let_def
  by (intro emits_bind emits_case_sum emits_if emits_ret emits_for_err dirExists_emits ensureDir_emits)

lemma dirExists_returns: "returns (dirExists mnt p)"
  unfolding dirExists_def by (intro returns_intros)

lemma recursiveEnsureDir_returns: "returns (recursiveEnsureDir mnt p mode uid gid)"
  unfolding recursiveEnsureDir_def ensureDir_def Let_def by (intro returns_intros dirExists_returns)

text \<open>Behind the mount: the directories, the file and its owner, each of which may end the process.\<close>

lemma write_body_run:
  assumes "dirs k u = (Ret r, u @ h)"
  shows "andThen (must_ok dirs) (andThen (must_ok (sys wr)) (must_ok (sys own))) k u =
     (case r of Some e \<Rightarrow> (Exit 1, u @ h) | None \<Rightarrow>
     (case k_err k (u @ h) wr of Some e \<Rightarrow> (Exit 1, u @ h @ [wr]) | None \<Rightarrow>
     (case k_err k (u @ h @ [wr]) own of Some e \<Rightarrow> (Exit 1, u @ h @ [wr, own])
      | None \<Rightarrow> (Ret (), u @ h @ [wr, own]))))"
  by (simp add: must_run [of dirs k u, OF assms] must_step must_end split: option.split)

lemma mounted_write_run:
  assumes dirs: "dirs k (t @ [mk, mnt]) = (Ret r, t @ [mk, mnt] @ h)"
    and un: "un \<notin> set h" "un \<notin> {mk, mnt, wr, own}"
  defines "act \<equiv> andThen (must_ok (sys mk)) (andThen (must_ok (sys mnt))
      (with_defer (ignore (sys un)) (andThen (must_ok dirs) (andThen (must_ok (sys wr)) (must_ok (sys own))))))"
  shows "if all_ok k t [mk, mnt] \<and> r = None \<and> all_ok k (t @ [mk, mnt] @ h) [wr, own]
    then act k t = (Ret (), t @ [mk, mnt] @ h @ [wr, own, un])
    else \<exists>h'. act k t = (Exit 1, t @ h') \<and> un \<notin> set h'"
proof (cases "all_ok k t [mk, mnt]")
  case False
  with un(2) show ?thesis by (auto simp: act_def must_step split: option.splits)
next
  case True
  let ?body = "andThen (must_ok dirs) (andThen (must_ok (sys wr)) (must_ok (sys own)))"
  from True have run: "act k t = with_defer (ignore (sys un)) ?body k (t @ [mk, mnt])"
    by (simp add: act_def must_step)
  have "dirs k (t @ [mk, mnt]) = (Ret r, (t @ [mk, mnt]) @ h)" using dirs by simp
  note body = write_body_run [where dirs = dirs and k = k and u = "t @ [mk, mnt]" and wr = wr and own = own, OF this]
  show ?thesis
    using True un by (auto simp: run with_defer_def body ignore_sys split: option.splits)
qed

text \<open>
  C34: The file is written in the order mkdir, mount, directories, write, chown, unmount, and the
  action succeeds only if every one of these but the unmount has; with bad inputs it exits with
  status 1 before any call.  On a failure it exits with status 1 as well and then never unmounts:
  \<open>os.Exit\<close> skips the deferred function, so a mounted device stays mounted.
\<close>

theorem writefile_outcome:
  "case validate k of
     None \<Rightarrow> writefile k t = (Exit 1, t)
   | Some i \<Rightarrow>
       (let mk = Mkdir mountAction ModeDir;
            mnt = call.Mount (in_blockDevice i) mountAction (in_filesystemType i) 0;
            file = PathJoin [mountAction, in_filePath i];
            wr = WriteFile file (in_contents i) (in_fileMode i);
            own = Chown file (in_uid i) (in_gid i)
        in \<exists>h. if fst (writefile k t) = Ret ()
             then snd (writefile k t) = t @ [mk, mnt] @ h @ [wr, own, Unmount mountAction 0]
               \<and> all_ok k t [mk, mnt] \<and> all_ok k (t @ [mk, mnt] @ h) [wr, own]
               \<and> recursiveEnsureDir mountAction (fst (PathSplit (in_filePath i))) (in_dirMode i) (in_uid i) (in_gid i)
                    k (t @ [mk, mnt]) = (Ret None, t @ [mk, mnt] @ h)
             else fst (writefile k t) = Exit 1 \<and> snd (writefile k t) = t @ h \<and> Unmount mountAction 0 \<notin> set h)"
proof (cases "validate k")
  case None
  then show ?thesis by (simp add: writefile_def os_exit_def)
next
  case (Some i)
  define mk where "mk = Mkdir mountAction ModeDir"
  define mnt where "mnt = call.Mount (in_blockDevice i) mountAction (in_filesystemType i) 0"
  define wr where "wr = WriteFile (PathJoin [mountAction, in_filePath i]) (in_contents i) (in_fileMode i)"
  define own where "own = Chown (PathJoin [mountAction, in_filePath i]) (in_uid i) (in_gid i)"
  define dirs where "dirs = recursiveEnsureDir mountAction (fst (PathSplit (in_filePath i)))
    (in_dirMode i) (in_uid i) (in_gid i)"
  have "returns dirs" and "emits directory_call dirs"
    unfolding dirs_def by (rule recursiveEnsureDir_returns, rule recursiveEnsureDir_emits)
  then obtain r h where dirs: "dirs k (t @ [mk, mnt]) = (Ret r, t @ [mk, mnt] @ h)"
    and h: "\<forall>c\<in>set h. directory_call c"
    by (rule returns_emitsE [where k = k and t = "t @ [mk, mnt]"]) simp
  have un: "Unmount mountAction 0 \<notin> set h" "Unmount mountAction 0 \<notin> {mk, mnt, wr, own}"
    using h by (auto simp: mk_def mnt_def wr_def own_def)
  have "writefile k t = andThen (must_ok (sys mk)) (andThen (must_ok (sys mnt))
      (with_defer (ignore (sys (Unmount mountAction 0)))
        (andThen (must_ok dirs) (andThen (must_ok (sys wr)) (must_ok (sys own)))))) k t"
    by (simp add: writefile_def Some write_file_def mk_def mnt_def wr_def own_def dirs_def Let_def)
  note run = mounted_write_run [where dirs = dirs and k = k and t = t and mk = mk and mnt = mnt and wr = wr and own = own,
      OF dirs un, folded this]
  show ?thesis
  proof (cases "all_ok k t [mk, mnt] \<and> r = None \<and> all_ok k (t @ [mk, mnt] @ h) [wr, own]")
    case True
    with run dirs show ?thesis by (simp add: Some Let_def flip: mk_def mnt_def wr_def own_def dirs_def)
  next
    case False
    with run obtain h' where "writefile k t = (Exit 1, t @ h')" "Unmount mountAction 0 \<notin> set h'"
      by (simp only: if_False) blast
    then show ?thesis by (auto simp: Some Let_def)
  qed
qed

subsection \<open>The stages of the action\<close>

definition validated :: "unit \<Rightarrow> inputs act" where
  "validated u = (\<lambda>k t. case validate k of None \<Rightarrow> (Exit 1, t) | Some i \<Rightarrow> (Ret i, t))"

definition write_mounted :: "inputs \<Rightarrow> unit act" where
  "write_mounted i =
     with_defer (ignore (sys (Unmount mountAction 0)))
       (andThen (must_ok (recursiveEnsureDir mountAction (fst (PathSplit (in_filePath i)))
                  (in_dirMode i) (in_uid i) (in_gid i)))
       (let fqFilePath = PathJoin [mountAction, in_filePath i] in
        andThen (must_ok (sys (WriteFile fqFilePath (in_contents i) (in_fileMode i))))
          (must_ok (sys (Chown fqFilePath (in_uid i) (in_gid i))))))"

definition file_call :: "call \<Rightarrow> bool" where
  "file_call c = (case c of Stat _ \<Rightarrow> True | Mkdir _ _ \<Rightarrow> True | Chown _ _ _ \<Rightarrow> True | WriteFile _ _ _ \<Rightarrow> True
     | Unmount p fl \<Rightarrow> p = mountAction \<and> fl = 0 | _ \<Rightarrow> False)"

lemma write_mounted_emits: "emits file_call (write_mounted i)"
proof -
  have "emits file_call (recursiveEnsureDir mountAction p m u g)" for p m u g
    by (rule emits_weaken [OF recursiveEnsureDir_emits]) (auto simp: file_call_def split: call.splits)
  then show ?thesis
    unfolding write_mounted_def Let_def by (intro emits_intros) (simp_all add: file_call_def)
qed

interpretation wf: staged_action "\<lambda>u. writefile" validated
    "\<lambda>k i. Some (single_mount (in_blockDevice i) (in_filesystemType i))" "\<lambda>k i. write_mounted i" "\<lambda>_. False" file_call
proof
  fix u :: unit and k t
  show "writefile k t = bind (validated u) (\<lambda>i k t.
      case Some (single_mount (in_blockDevice i) (in_filesystemType i)) of
        None \<Rightarrow> (Ret (), t) | Some cs \<Rightarrow> andThen (must_all cs) (write_mounted i) k t) k t"
    by (simp add: writefile_def validated_def bind_def write_file_def write_mounted_def single_mount_def andThen_assoc
        os_exit_def split: option.split)
next
  show "emits (\<lambda>_. False) (validated u)" for u
    by (auto simp: emits_def validated_def split: option.split)
qed (rule write_mounted_emits)

end
