(* ===== verification/GoIO.thy ===== *)
theory GoIO
  imports Actions
begin

text \<open>
  What the actions use of the packages \<open>io\<close>, \<open>errors\<close> and \<open>path/filepath\<close> with effects.
  A reader is a \<open>stream\<close>: the bytes it delivers and the error that ends them, \<open>EOF\<close> for a
  stream that is read to its end.  A read after the end gives the same error again.
\<close>

type_synonym stream = "string \<times> goerr"

text \<open>\<open>errors.Is\<close> looks for an error behind the \<open>%w\<close> of the wrapping ones.\<close>

fun errors_Is :: "goerr \<Rightarrow> goerr \<Rightarrow> bool" where
  "errors_Is (Wrapf f as e) target \<longleftrightarrow> Wrapf f as e = target \<or> errors_Is e target"
| "errors_Is e target \<longleftrightarrow> e = target"

text \<open>
  \<open>io.Copy\<close> into an open file.  The writes of its chunks are one call with all the bytes,
  none for an empty stream; an error of the writer comes before that of the reader, and
  only the plain \<open>EOF\<close> of a reader is success.
\<close>

definition copy_to :: "string \<Rightarrow> stream \<Rightarrow> goerr option act" where
  "copy_to file s =
     check (if fst s = [] then ret None else sys (WriteBytes file (fst s))) (\<lambda>err. err)
       (ret (if snd s = EOF then None else Some (snd s)))"

text \<open>\<open>filepath.Abs\<close> asks for the working directory for a relative path only.\<close>

definition filepath_Abs :: "string \<Rightarrow> (goerr + string) act" where
  "filepath_Abs path =
     (if IsAbs path then ret (Inr (Clean path))
      else
        bind sys_getwd (\<lambda>wd.
        case wd of Inl err \<Rightarrow> ret (Inl err) | Inr dir \<Rightarrow> ret (Inr (PathJoin [dir, path]))))"

lemma copy_to_returns [returns_intros]: "returns (copy_to f s)"
  unfolding copy_to_def by (intro returns_intros)

lemma copy_to_emits [emits_intros]: "P (WriteBytes f (fst s)) \<Longrightarrow> emits P (copy_to f s)"
  unfolding copy_to_def by (intro emits_intros)

lemma filepath_Abs_returns [returns_intros]: "returns (filepath_Abs p)"
  unfolding filepath_Abs_def by (intro returns_intros)

lemma filepath_Abs_emits [emits_intros]: "P Getwd \<Longrightarrow> emits P (filepath_Abs p)"
  unfolding filepath_Abs_def by (intro emits_intros)

text \<open>A copy that succeeds has written all the bytes of a stream that ended well.\<close>

lemma copy_to_success:
  "copy_to f s k t = (Ret None, t') \<longleftrightarrow>
     snd s = EOF \<and> (if fst s = [] then t' = t
       else k_err k t (WriteBytes f (fst s)) = None \<and> t' = t @ [WriteBytes f (fst s)])"
  by (auto simp: copy_to_def check_def bind_def sys_def ret_def split: option.splits)

subsection \<open>What the calls do to a file\<close>

text \<open>
  The contents of one file, if it exists, and the position at which the next write to it goes.
  A call that fails does nothing.
\<close>

type_synonym content = "string option \<times> nat"

fun file_step :: "string \<Rightarrow> call \<Rightarrow> content \<Rightarrow> content" where
  "file_step p (OpenFile q fl m) f =
     (if q \<noteq> p then f
      else (case fst f of
              None \<Rightarrow> (if O_CREATE \<in> set fl then Some [] else None, 0)
            | Some x \<Rightarrow> (Some (if O_TRUNC \<in> set fl then [] else x), 0)))"
| "file_step p (WriteBytes q d) f =
     (if q \<noteq> p then f
      else (map_option (\<lambda>x. take (snd f) x @ d @ drop (snd f + length d) x) (fst f), snd f + length d))"
| "file_step p c f = f"

fun file_after :: "kernel \<Rightarrow> string \<Rightarrow> call list \<Rightarrow> call list \<Rightarrow> content \<Rightarrow> content" where
  "file_after k p t [] f = f"
| "file_after k p t (c # cs) f = file_after k p (t @ [c]) cs (if k_err k t c = None then file_step p c f else f)"

lemma file_after_append: "file_after k p t (as @ bs) f = file_after k p (t @ as) bs (file_after k p t as f)"
  by (induction as arbitrary: t f) simp_all

text \<open>When every call succeeds, only those on the file itself count.\<close>

definition touches :: "string \<Rightarrow> call \<Rightarrow> bool" where
  "touches p c = (case c of OpenFile q fl m \<Rightarrow> q = p | WriteBytes q d \<Rightarrow> q = p | Close q \<Rightarrow> q = p | _ \<Rightarrow> False)"

lemma file_after_ok: "all_ok k t cs \<Longrightarrow> file_after k p t cs f = fold (file_step p) cs f"
  by (induction cs arbitrary: t f) simp_all

lemma file_step_other: "\<not> touches p c \<Longrightarrow> file_step p c f = f"
  by (cases c) (simp_all add: touches_def)

lemma fold_touching: "fold (file_step p) cs f = fold (file_step p) (filter (touches p) cs) f"
  by (induction cs arbitrary: f) (simp_all add: file_step_other)

text \<open>Data written from the start of a file cover its beginning; what was behind them stays.\<close>

definition overwritten :: "string \<Rightarrow> string \<Rightarrow> string" where
  "overwritten d old = d @ drop (length d) old"

lemma overwritten_same: "length old \<le> length d \<Longrightarrow> overwritten d old = d"
  by (simp add: overwritten_def)

lemma overwritten_Nil [simp]: "overwritten [] old = old" "overwritten d [] = d"
  by (simp_all add: overwritten_def)

end
