(* ===== verification/Archive.thy ===== *)
theory Archive
  imports Chroot Raid GoIO "HOL-Library.AList"
begin

text \<open>
  The \<open>archive2disk\<close> action (\<open>archive2disk/main.go\<close> and the package \<open>archive2disk/archive\<close>):
  it mounts the target tree, downloads a tar archive, unpacks it there and checks its digest.
\<close>

subsection \<open>Archives\<close>

text \<open>
  What \<open>archive/tar\<close> hands out for an entry: the fields of the header that the program
  reads, the mode word of its \<open>FileInfo\<close>, and the data of the entry as a stream.
\<close>

datatype tar_type = TypeDir | TypeLink | TypeSymlink | TypeReg | TypeOther nat

record tar_entry =
  hdr_Name :: string
  hdr_Typeflag :: tar_type
  hdr_Linkname :: string
  hdr_Mode :: "32 word"
  hdr_Data :: stream

text \<open>
  The formats are decoded outside the repository and are parameters: \<open>untar\<close> gives the
  entries of a stream and the error of the \<open>Next\<close> after the last one, \<open>gunzip\<close> the result of
  \<open>gzip.NewReader\<close>, \<open>digest_parse\<close> and \<open>digest_verifies\<close> are the package \<open>go-digest\<close>.
  \<open>map_order\<close> is the order in which Go ranges over a map with the given entries; the
  language leaves it open.
\<close>

record formats =
  untar :: "stream \<Rightarrow> tar_entry list \<times> goerr"
  gunzip :: "stream \<Rightarrow> goerr + stream"
  digest_parse :: "string \<Rightarrow> goerr option"
  digest_verifies :: "string \<Rightarrow> string \<Rightarrow> bool"
  map_order :: "(string \<times> string) list \<Rightarrow> (string \<times> string) list"

text \<open>The map of the hard links, from the new path to the path linked to.\<close>

definition add_link :: "string \<Rightarrow> tar_entry \<Rightarrow> (string \<times> string) list \<Rightarrow> (string \<times> string) list" where
  "add_link root h hardLinks =
     (if hdr_Typeflag h = TypeLink
      then AList.update (PathJoin [root, hdr_Name h]) (PathJoin [root, hdr_Linkname h]) hardLinks
      else hardLinks)"

definition extract_file :: "string \<Rightarrow> tar_entry \<Rightarrow> goerr option act" where
  "extract_file path h =
     bind (sys_stat (Dir path)) (\<lambda>st.
     andThen (if missing st then ignore (sys (MkdirAll (Dir path) mode_0755)) else ret ())
    (bind (sys (OpenFile path [O_CREATE, O_TRUNC, O_WRONLY] (hdr_Mode h))) (\<lambda>e.
     case e of
       Some err \<Rightarrow> if IsExist err then ret None else ret (Some err)
     | None \<Rightarrow>
         bind (copy_to path (hdr_Data h)) (\<lambda>c.
         andThen (ignore (sys (Close path))) (ret c)))))"

definition extract_entry :: "string \<Rightarrow> tar_entry \<Rightarrow> goerr option act" where
  "extract_entry root h =
     (let path = PathJoin [root, hdr_Name h] in
      case hdr_Typeflag h of
        TypeDir \<Rightarrow> sys (MkdirAll path (hdr_Mode h))
      | TypeLink \<Rightarrow> ret None
      | TypeSymlink \<Rightarrow>
          bind (sys (Symlink (hdr_Linkname h) path)) (\<lambda>e.
          case e of
            Some err \<Rightarrow> if IsExist err then ret None else ret (Some err)
          | None \<Rightarrow> ret None)
      | TypeReg \<Rightarrow> extract_file path h
      | TypeOther n \<Rightarrow> ret None)"

fun extract_loop :: "string \<Rightarrow> tar_entry list \<Rightarrow> goerr \<Rightarrow> (string \<times> string) list
    \<Rightarrow> (goerr + (string \<times> string) list) act" where
  "extract_loop root [] err hardLinks = ret (if err = EOF then Inr hardLinks else Inl err)"
| "extract_loop root (h # hs) err hardLinks =
     bind (extract_entry root h) (\<lambda>e.
     case e of
       Some err' \<Rightarrow> ret (Inl err')
     | None \<Rightarrow> extract_loop root hs err (add_link root h hardLinks))"

definition make_links :: "(string \<times> string) list \<Rightarrow> goerr option act" where
  "make_links hardLinks = for_err hardLinks (\<lambda>(new, old). sys (Link old new))"

definition extractTarDirectory :: "formats \<Rightarrow> string \<Rightarrow> stream \<Rightarrow> goerr option act" where
  "extractTarDirectory L root r =
     bind (extract_loop root (fst (untar L r)) (snd (untar L r)) []) (\<lambda>res.
     case res of
       Inl err \<Rightarrow> ret (Some err)
     | Inr hardLinks \<Rightarrow> make_links (map_order L hardLinks))"

definition extractTarGzip :: "formats \<Rightarrow> string \<Rightarrow> stream \<Rightarrow> goerr option act" where
  "extractTarGzip L root g =
     (case gunzip L g of Inl err \<Rightarrow> ret (Some err) | Inr zr \<Rightarrow> extractTarDirectory L root zr)"

definition extract_typed :: "formats \<Rightarrow> string \<Rightarrow> string \<Rightarrow> stream \<Rightarrow> goerr option act" where
  "extract_typed L archiveType root reader =
     (if ToLower archiveType = ''tar'' then
        check (extractTarDirectory L root reader) (Wrapf ''[ERROR] New gzip reader: %w'' []) (ret None)
      else if ToLower archiveType = ''targz'' then
        check (extractTarGzip L root reader) (Wrapf ''[ERROR] New gzip reader: %w'' []) (ret None)
      else ret (Some (Errorf ''[ERROR] Unknown archiveType supplied: %v'' [archiveType])))"

text \<open>
  The end of \<open>Write\<close>.  The verifier sees what is read through the tee; since the rest is
  drained first, it has seen the whole body when it is asked.
\<close>

definition verify_body :: "formats \<Rightarrow> string \<Rightarrow> http_response \<Rightarrow> goerr option act" where
  "verify_body L checksum resp =
     ret (if checksum = [] then None
          else if BodyEnd resp \<noteq> EOF
          then Some (Wrapf ''failed to drain response body for checksum verification: %w'' [] (BodyEnd resp))
          else if \<not> digest_verifies L checksum (Body resp) then Some (Errorf ''digest mismatch'' [])
          else None)"

definition archive_Write :: "formats \<Rightarrow> string \<Rightarrow> string \<Rightarrow> string \<Rightarrow> string \<Rightarrow> goerr option act" where
  "archive_Write L archiveURL archiveType path checksum =
     check (new_request archiveURL) (\<lambda>err. err)
    (bind (sys_http archiveURL) (\<lambda>r.
     case r of
       Inl err \<Rightarrow> ret (Some err)
     | Inr resp \<Rightarrow>
         if 300 < StatusCode resp then
           if StatusCode resp = 404 then ret (Some (Errorf ''%s not found'' [archiveURL]))
           else ret (Some (Errorf ''%s'' [Status resp]))
         else
           bind (filepath_Abs path) (\<lambda>a.
           case a of
             Inl err \<Rightarrow> ret (Some (Wrapf ''failed to get absolute path: %w'' [] err))
           | Inr absPath \<Rightarrow>
               (case (if checksum = [] then None else digest_parse L checksum) of
                  Some err \<Rightarrow> ret (Some (Wrapf ''failed to parse digest - %w'' [] err))
                | None \<Rightarrow>
                    check (extract_typed L archiveType absPath (Body resp, BodyEnd resp)) (\<lambda>err. err)
                      (verify_body L checksum resp)))))"

subsection \<open>The main program\<close>

text \<open>
  \<open>fetchSiblings\<close>: the sibling filesystems when \<open>MIRROR_HOST\<close> is set.  An error is logged only.
\<close>

definition archive_fetchSiblings :: "decoder \<Rightarrow> Filesystem list act" where
  "archive_fetchSiblings decode =
     bind (getenv ''MIRROR_HOST'') (\<lambda>host.
     if host = [] then ret []
     else
       bind New (\<lambda>c.
       case c of
         Inl err \<Rightarrow> ret []
       | Inr cl \<Rightarrow>
           bind (Fetch decode cl) (\<lambda>m.
           case m of
             Inl err \<Rightarrow> ret []
           | Inr md \<Rightarrow> ret (Filesystems (inst_Storage (md_Instance md))))))"

lemma archive_fetchSiblings_eq [simp]: "archive_fetchSiblings = fetchSiblings"
  by (intro ext) (simp add: archive_fetchSiblings_def fetchSiblings_def)

text \<open>
  The checksum of the environment, empty when its verification is switched off;
  \<^const>\<open>None\<close> when the process ends because a variable is missing or does not parse.  The
  timeout only goes to the HTTP client, whose answers are the kernel's.
\<close>

definition checksum_config :: "kernel \<Rightarrow> string option" where
  "checksum_config k =
     (if (case k_env k ''HTTP_CLIENT_TIMEOUT_MINUTES'' of None \<Rightarrow> False | Some v \<Rightarrow> Atoi v = None) then None
      else
        (case (case k_env k ''INSECURE_NO_TARFILE_CHECKSUM_VERIFICATION'' of
                 None \<Rightarrow> Some False | Some v \<Rightarrow> ParseBool v) of
           None \<Rightarrow> None
         | Some checksumOverride \<Rightarrow>
             if checksumOverride then Some []
             else if env k ''TARFILE_CHECKSUM'' = [] then None
             else Some (env k ''TARFILE_CHECKSUM'')))"

definition archive_forceUnmount :: "string \<Rightarrow> unit act" where
  "archive_forceUnmount dev =
     bind (sys_read ''/proc/mounts'') (\<lambda>r.
     case r of
       Inl err \<Rightarrow> ret ()
     | Inr data \<Rightarrow>
         for_each (mount_points dev (Split data NL)) (\<lambda>mp.
           ignore (sys (Unmount mp (MNT_FORCE OR MNT_DETACH)))))"

definition archive2disk :: "formats \<Rightarrow> decoder \<Rightarrow> unit act" where
  "archive2disk L decode =
     bind (getenv ''DEST_DISK'') (\<lambda>blockDevice.
     bind (getenv ''FS_TYPE'') (\<lambda>filesystemType.
     bind (getenv ''DEST_PATH'') (\<lambda>path.
     bind (getenv ''ARCHIVE_URL'') (\<lambda>archiveURL.
     bind (getenv ''ARCHIVE_TYPE'') (\<lambda>archiveType.
     bind (\<lambda>k t. (Ret (checksum_config k), t)) (\<lambda>config.
     case config of
       None \<Rightarrow> log_fatal
     | Some tarfileChecksum \<Rightarrow>
         if blockDevice = [] then log_fatal
         else
           andThen (archive_forceUnmount blockDevice)
          (bind (archive_fetchSiblings decode) (\<lambda>extras.
           andThen (must_ok (MountTree blockDevice filesystemType extras))
             (must_ok (archive_Write L archiveURL archiveType (PathJoin [mountAction, path]) tarfileChecksum))))))))))"

subsection \<open>Nothing leaves the target\<close>

text \<open>A path is below a root if the elements of the root lead to it.\<close>

definition below :: "string \<Rightarrow> string \<Rightarrow> bool" where
  "below root p \<longleftrightarrow> prefix (path_elems root) (path_elems p)"

text \<open>
  The paths a call creates or changes are below the root; a missing directory that is made
  may also be one on the way to the root.
\<close>

definition inside_call :: "string \<Rightarrow> call \<Rightarrow> bool" where
  "inside_call root c =
     (case c of
        MkdirAll p m \<Rightarrow> below root p \<or> below p root
      | Symlink old p \<Rightarrow> below root p
      | OpenFile p fl m \<Rightarrow> below root p
      | WriteBytes p d \<Rightarrow> below root p
      | Close p \<Rightarrow> below root p
      | Link old p \<Rightarrow> below root old \<and> below root p
      | Stat p \<Rightarrow> True
      | _ \<Rightarrow> False)"

lemma below_PathJoin: "IsAbs root \<Longrightarrow> stays_inside name \<Longrightarrow> below root (PathJoin [root, name])"
  by (simp add: below_def path_elems_inside)

lemma below_Dir:
  assumes "IsAbs root" and "stays_inside name"
  shows "below root (Dir (PathJoin [root, name])) \<or> below (Dir (PathJoin [root, name])) root"
proof -
  have "path_elems (Dir (PathJoin [root, name])) = butlast (path_elems root @ named_elems name)"
    using assms Dir_Clean(1) [of "root @ CHR ''/'' # name"] path_elems_inside [OF assms]
    by (simp add: PathJoin_rooted IsAbs_append path_elems_Clean)
  then show ?thesis by (cases "named_elems name = []") (simp_all add: below_def butlast_append prefixeq_butlast)
qed

lemma extract_entry_inside:
  assumes "IsAbs root" and "stays_inside (hdr_Name h)"
  shows "emits (inside_call root) (extract_entry root h)"
proof -
  have b: "below root (PathJoin [root, hdr_Name h])" by (rule below_PathJoin [OF assms])
  have d: "inside_call root (MkdirAll (Dir (PathJoin [root, hdr_Name h])) mode_0755)"
    using below_Dir [OF assms] by (simp add: inside_call_def)
  show ?thesis
    unfolding extract_entry_def Let_def extract_file_def
    by (cases "hdr_Typeflag h") (use b d in \<open>auto simp: inside_call_def intro!: emits_intros\<close>)
qed

definition links_inside :: "string \<Rightarrow> (string \<times> string) list \<Rightarrow> bool" where
  "links_inside root ls \<longleftrightarrow> (\<forall>(new, old)\<in>set ls. below root new \<and> below root old)"

lemma add_link_inside:
  assumes "IsAbs root" and "stays_inside (hdr_Name h)" and "stays_inside (hdr_Linkname h)" and "links_inside root ls"
  shows "links_inside root (add_link root h ls)"
proof -
  have "set (AList.update n v ls) \<subseteq> insert (n, v) (set ls)" for n v
    by (induction ls) auto
  then have "links_inside root (AList.update n v ls)" if "below root n" "below root v" for n v
    using assms(4) that unfolding links_inside_def by fastforce
  with assms show ?thesis by (simp add: add_link_def below_PathJoin)
qed

lemma extract_loop_inside:
  assumes "IsAbs root" and "\<forall>h\<in>set hs. stays_inside (hdr_Name h) \<and> stays_inside (hdr_Linkname h)"
    and "links_inside root ls"
  shows "emits (inside_call root) (extract_loop root hs err ls)
    \<and> (\<forall>k t ls'. fst (extract_loop root hs err ls k t) = Ret (Inr ls') \<longrightarrow> links_inside root ls')"
  using assms(2,3)
proof (induction hs arbitrary: ls)
  case Nil
  have "emits (inside_call root) (extract_loop root [] err ls)"
    unfolding extract_loop.simps by (rule emits_ret)
  with Nil show ?case by (simp add: ret_def)
next
  case (Cons h hs)
  let ?rest = "extract_loop root hs err (add_link root h ls)"
  from Cons.prems have "links_inside root (add_link root h ls)" by (intro add_link_inside assms(1)) auto
  with Cons have IH: "emits (inside_call root) ?rest"
    "\<And>k t ls'. fst (?rest k t) = Ret (Inr ls') \<Longrightarrow> links_inside root ls'" by auto
  have "emits (inside_call root) (extract_loop root (h # hs) err ls)"
    unfolding extract_loop.simps
    by (intro emits_intros extract_entry_inside assms(1) IH) (use Cons.prems in auto)
  moreover have "links_inside root ls'" if "fst (extract_loop root (h # hs) err ls k t) = Ret (Inr ls')" for k t ls'
  proof (cases "extract_entry root h k t")
    case (Pair r t')
    with that IH(2) [of k t' ls'] show ?thesis
      by (cases r) (auto simp: bind_def ret_def split: option.splits)
  qed
  ultimately show ?case by blast
qed

lemma make_links_inside: "links_inside root ls \<Longrightarrow> emits (inside_call root) (make_links ls)"
  unfolding make_links_def
  by (intro emits_for_err) (auto simp: links_inside_def inside_call_def intro!: emits_sys)


text \<open>An archive with a directory, a file in it and a hard link to the file.\<close>

definition example_entries :: "tar_entry list" where
  "example_entries =
     [\<lparr>hdr_Name = ''a/'', hdr_Typeflag = TypeDir, hdr_Linkname = [], hdr_Mode = mode_0755, hdr_Data = ([], EOF)\<rparr>,
      \<lparr>hdr_Name = ''a/x'', hdr_Typeflag = TypeReg, hdr_Linkname = [], hdr_Mode = mode_0644, hdr_Data = (''hi'', EOF)\<rparr>,
      \<lparr>hdr_Name = ''b'', hdr_Typeflag = TypeLink, hdr_Linkname = ''a/x'', hdr_Mode = mode_0644, hdr_Data = ([], EOF)\<rparr>]"

definition example_formats :: formats where
  "example_formats =
     \<lparr>untar = (\<lambda>s. (example_entries, EOF)), gunzip = Inr, digest_parse = (\<lambda>c. None),
      digest_verifies = (\<lambda>c body. c = body), map_order = rev\<rparr>"

lemma example_untar: "fst (untar example_formats r) = example_entries" "snd (untar example_formats r) = EOF"
    "map_order example_formats = rev"
  by (simp_all add: example_formats_def)



subsection \<open>What is unpacked\<close>

text \<open>
  The abstract view: the contents of the files by their paths.  \<open>effect k t cs\<close> is what the
  calls \<open>cs\<close> after the history \<open>t\<close> do to them; a call that fails does nothing.  Paths are taken
  as names, without following symbolic links.
\<close>

type_synonym files = "string \<Rightarrow> string option"

fun apply_call :: "call \<Rightarrow> files \<Rightarrow> files" where
  "apply_call (OpenFile p fl m) fs = (if O_TRUNC \<in> set fl then fs(p \<mapsto> []) else fs)"
| "apply_call (WriteBytes p d) fs = fs(p \<mapsto> (case fs p of None \<Rightarrow> d | Some x \<Rightarrow> x @ d))"
| "apply_call (Link old new) fs = fs(new := fs old)"
| "apply_call c fs = fs"

fun effect :: "kernel \<Rightarrow> call list \<Rightarrow> call list \<Rightarrow> files \<Rightarrow> files" where
  "effect k t [] fs = fs"
| "effect k t (c # cs) fs = effect k (t @ [c]) cs (if k_err k t c = None then apply_call c fs else fs)"

lemma effect_append: "effect k t (as @ bs) fs = effect k (t @ as) bs (effect k t as fs)"
  by (induction as arbitrary: t fs) simp_all

text \<open>
  What an archive says: each regular entry gives its path its data, later entries winning,
  and each hard link gives its path the contents of the path linked to.
\<close>

definition entry_files :: "string \<Rightarrow> files \<Rightarrow> tar_entry \<Rightarrow> files" where
  "entry_files root fs h =
     (if hdr_Typeflag h = TypeReg then fs(PathJoin [root, hdr_Name h] \<mapsto> fst (hdr_Data h)) else fs)"

definition entry_links :: "string \<Rightarrow> (string \<rightharpoonup> string) \<Rightarrow> tar_entry \<Rightarrow> (string \<rightharpoonup> string)" where
  "entry_links root m h =
     (if hdr_Typeflag h = TypeLink then m(PathJoin [root, hdr_Name h] \<mapsto> PathJoin [root, hdr_Linkname h]) else m)"

definition hard_links :: "string \<Rightarrow> tar_entry list \<Rightarrow> (string \<rightharpoonup> string)" where
  "hard_links root hs = foldl (entry_links root) Map.empty hs"

definition unpacked :: "string \<Rightarrow> tar_entry list \<Rightarrow> files \<Rightarrow> files" where
  "unpacked root hs fs =
     (\<lambda>p. let files = foldl (entry_files root) fs hs in
          case hard_links root hs p of Some old \<Rightarrow> files old | None \<Rightarrow> files p)"

text \<open>The kernels under which no file that is opened for writing is refused because it exists.\<close>

definition overwrites :: "kernel \<Rightarrow> bool" where
  "overwrites k \<longleftrightarrow> (\<forall>h p fl m s. k_err k h (OpenFile p fl m) \<noteq> Some (Exist s))"

lemma extract_file_effect:
  assumes "overwrites k" and "extract_file p h k t = (Ret None, t')"
  shows "\<exists>ext. t' = t @ ext \<and> effect k t ext fs = fs(p \<mapsto> fst (hdr_Data h)) \<and> snd (hdr_Data h) = EOF"
proof -
  let ?pre = "Stat (Dir p) # (if missing (k_stat k t (Dir p)) then [MkdirAll (Dir p) mode_0755] else [])"
  let ?op = "OpenFile p [O_CREATE, O_TRUNC, O_WRONLY] (hdr_Mode h)"
  let ?u = "t @ ?pre"
  have run: "extract_file p h k t = (case k_err k ?u ?op of
       Some err \<Rightarrow> if IsExist err then (Ret None, ?u @ [?op]) else (Ret (Some err), ?u @ [?op])
     | None \<Rightarrow> bind (copy_to p (hdr_Data h)) (\<lambda>c. andThen (ignore (sys (Close p))) (ret c)) k (?u @ [?op]))"
    by (simp add: extract_file_def sys_stat_def andThen_def ignore_def bind_def sys_def ret_def split: option.split)
  have "\<not> IsExist err" if "k_err k ?u ?op = Some err" for err
    using assms(1) that by (cases err) (simp_all add: overwrites_def IsExist_def)
  with assms(2) run have ok: "k_err k ?u ?op = None"
    and rest: "bind (copy_to p (hdr_Data h)) (\<lambda>c. andThen (ignore (sys (Close p))) (ret c)) k (?u @ [?op]) = (Ret None, t')"
    by (auto split: option.splits if_splits)
  have "returns (copy_to p (hdr_Data h))" by (rule copy_to_returns)
  then obtain c u where c: "copy_to p (hdr_Data h) k (?u @ [?op]) = (Ret c, u)" by (blast dest: returnsD)
  with rest have "c = None" and t': "t' = u @ [Close p]"
    by (simp_all add: bind_def andThen_def ignore_sys ret_def)
  with c have copied: "copy_to p (hdr_Data h) k (?u @ [?op]) = (Ret None, u)" by simp
  have eof: "snd (hdr_Data h) = EOF"
    and u: "if fst (hdr_Data h) = [] then u = ?u @ [?op]
      else k_err k (?u @ [?op]) (WriteBytes p (fst (hdr_Data h))) = None \<and> u = (?u @ [?op]) @ [WriteBytes p (fst (hdr_Data h))]"
    using copied [unfolded copy_to_success] by blast+
  have e1: "effect k t ?pre fs = fs" by simp
  let ?ws = "if fst (hdr_Data h) = [] then [] else [WriteBytes p (fst (hdr_Data h))]"
  from u t' have "t' = t @ ?pre @ ?op # ?ws @ [Close p]" by (simp split: if_splits)
  moreover have "effect k t (?pre @ ?op # ?ws @ [Close p]) fs = fs(p \<mapsto> fst (hdr_Data h))"
    by (simp only: effect_append e1) (use ok u in \<open>simp split: if_splits\<close>)
  ultimately show ?thesis using eof by blast
qed

lemma extract_entry_effect:
  assumes "overwrites k" and "extract_entry root h k t = (Ret None, t')"
  shows "\<exists>ext. t' = t @ ext \<and> effect k t ext fs = entry_files root fs h"
proof (cases "hdr_Typeflag h")
  case TypeReg
  with assms extract_file_effect [of k "PathJoin [root, hdr_Name h]" h t t' fs] show ?thesis
    by (auto simp: extract_entry_def entry_files_def Let_def)
next
  case TypeSymlink
  with assms(2) have "t' = t @ [Symlink (hdr_Linkname h) (PathJoin [root, hdr_Name h])]"
    by (auto simp: extract_entry_def Let_def bind_def sys_def ret_def split: option.splits if_splits)
  with TypeSymlink show ?thesis by (simp add: entry_files_def)
qed (use assms(2) in \<open>auto simp: extract_entry_def entry_files_def Let_def ret_def sys_def\<close>)

lemma extract_loop_effect:
  assumes "overwrites k" and "extract_loop root hs err ls k t = (Ret (Inr ls'), t')"
  shows "\<exists>ext. t' = t @ ext \<and> effect k t ext fs = foldl (entry_files root) fs hs \<and> err = EOF
     \<and> map_of ls' = foldl (entry_links root) (map_of ls) hs
     \<and> (distinct (map fst ls) \<longrightarrow> distinct (map fst ls'))"
  using assms(2)
proof (induction hs arbitrary: ls t fs)
  case Nil
  then show ?case by (simp add: ret_def split: if_splits)
next
  case (Cons h hs)
  let ?ls = "add_link root h ls"
  from Cons.prems obtain u where u: "extract_entry root h k t = (Ret None, u)"
    and rest: "extract_loop root hs err ?ls k u = (Ret (Inr ls'), t')"
    by (cases "extract_entry root h k t"; cases "fst (extract_entry root h k t)")
      (auto simp: bind_def ret_def split: option.splits)
  from extract_entry_effect [OF assms(1) u] obtain e1 where
    e1: "u = t @ e1" "effect k t e1 fs = entry_files root fs h" by blast
  from Cons.IH [OF rest, of "entry_files root fs h"] obtain e2 where e2: "t' = u @ e2"
    "effect k u e2 (entry_files root fs h) = foldl (entry_files root) (entry_files root fs h) hs" "err = EOF"
    "map_of ls' = foldl (entry_links root) (map_of ?ls) hs"
    "distinct (map fst ?ls) \<longrightarrow> distinct (map fst ls')" by blast
  have "map_of ?ls = entry_links root (map_of ls) h"
    by (auto simp: add_link_def entry_links_def update_conv')
  moreover have "distinct (map fst ls) \<longrightarrow> distinct (map fst ?ls)"
    by (simp add: add_link_def distinct_update)
  ultimately show ?case using e1 e2
    by (intro exI [of _ "e1 @ e2"]) (simp add: effect_append)
qed

text \<open>Hard links whose targets are not links themselves can be made in any order.\<close>

definition flat :: "(string \<rightharpoonup> string) \<Rightarrow> bool" where
  "flat m \<longleftrightarrow> ran m \<inter> dom m = {}"

lemma make_links_effect:
  assumes "make_links ls k t = (Ret None, t')" and "distinct (map fst ls)" and "flat (map_of ls)"
  shows "\<exists>ext. t' = t @ ext \<and>
    effect k t ext fs = (\<lambda>p. case map_of ls p of Some old \<Rightarrow> fs old | None \<Rightarrow> fs p)"
  using assms
proof (induction ls arbitrary: t fs)
  case Nil
  then show ?case by (simp add: make_links_def ret_def)
next
  case (Cons l ls)
  obtain new old where l: "l = (new, old)" by (cases l)
  with Cons.prems(1) have ok: "k_err k t (Link old new) = None"
    and rest: "make_links ls k (t @ [Link old new]) = (Ret None, t')"
    by (auto simp: make_links_def check_def bind_def sys_def ret_def split: option.splits)
  have new: "map_of ls new = None"
    using Cons.prems(2) l by (simp add: map_of_eq_None_iff image_iff)
  have "dom (map_of (l # ls)) = insert new (dom (map_of ls))" "ran (map_of (l # ls)) = insert old (ran (map_of ls))"
    using l new by (simp_all add: ran_map_upd)
  with Cons.prems(3) have fl: "ran (map_of ls) \<inter> dom (map_of ls) = {}" "new \<notin> ran (map_of ls)"
    unfolding flat_def by blast+
  have "distinct (map fst ls)" "flat (map_of ls)"
    using Cons.prems(2) fl(1) by (simp_all add: flat_def)
  from Cons.IH [OF rest this, of "fs(new := fs old)"] obtain ext where
    ext: "t' = (t @ [Link old new]) @ ext"
    "effect k (t @ [Link old new]) ext (fs(new := fs old)) =
      (\<lambda>p. case map_of ls p of Some o' \<Rightarrow> (fs(new := fs old)) o' | None \<Rightarrow> (fs(new := fs old)) p)" by blast
  have "(case map_of ls p of Some o' \<Rightarrow> (fs(new := fs old)) o' | None \<Rightarrow> (fs(new := fs old)) p)
      = (case map_of (l # ls) p of Some o' \<Rightarrow> fs o' | None \<Rightarrow> fs p)" for p
    using fl(2) new l by (auto simp: ran_def split: option.splits)
  with ext ok show ?case by (intro exI [of _ "Link old new # ext"]) simp
qed


lemma example_paths:
  "PathJoin [''/m'', ''a/''] = ''/m/a''" "PathJoin [''/m'', ''a/x''] = ''/m/a/x''" "PathJoin [''/m'', ''b''] = ''/m/b''"
  by code_simp+

lemma example_links: "hard_links ''/m'' example_entries = [''/m/b'' \<mapsto> ''/m/a/x'']"
  by (simp add: hard_links_def example_entries_def entry_links_def example_paths)

lemma example_run: "\<exists>t'. extractTarDirectory example_formats ''/m'' (''bytes'', EOF) quiet [] = (Ret None, t')"
  by (simp add: extractTarDirectory_def example_untar example_entries_def extract_entry_def extract_file_def
      example_paths add_link_def make_links_def copy_to_def act_defs missing_def Let_def)


subsection \<open>The download and its digest\<close>

lemma extract_typed_returns: "returns (extract_typed L ty root r)"
proof -
  have e: "returns (extract_entry root h)" for h
    unfolding extract_entry_def Let_def extract_file_def
    by (cases "hdr_Typeflag h") (auto intro!: returns_intros)
  have "returns (extract_loop root hs err ls)" for hs err ls
  proof (induction hs arbitrary: ls)
    case Nil
    show ?case unfolding extract_loop.simps by (rule returns_basic)
  next
    case (Cons h hs)
    show ?case unfolding extract_loop.simps by (intro returns_intros e Cons.IH)
  qed
  then show ?thesis
    unfolding extract_typed_def extractTarGzip_def extractTarDirectory_def make_links_def
    by (auto intro!: returns_intros)
qed

text \<open>
  C14: A download succeeds exactly when the request can be made and is answered with a status up
  to 300, the target path can be made absolute, the archive has a known type and unpacks, and,
  if a checksum is given, it parses, the body came to its end and has that digest.
\<close>

theorem archive_Write_success_iff:
  "fst (archive_Write L url ty path checksum k t) = Ret None \<longleftrightarrow>
     k_badurl k url = None \<and>
     (\<exists>resp absPath u. k_http k t url = Inr resp \<and> StatusCode resp \<le> 300
        \<and> filepath_Abs path k (t @ [HttpGet url]) = (Ret (Inr absPath), u)
        \<and> fst (extract_typed L ty absPath (Body resp, BodyEnd resp) k u) = Ret None
        \<and> (if checksum = [] then True
           else digest_parse L checksum = None \<and> BodyEnd resp = EOF \<and> digest_verifies L checksum (Body resp)))"
proof (cases "k_badurl k url")
  case None
  show ?thesis
  proof (cases "k_http k t url")
    case (Inl err)
    with None show ?thesis by (simp add: archive_Write_def check_def bind_def new_request_def sys_http_def ret_def)
  next
    case resp: (Inr resp)
    obtain a u where a: "filepath_Abs path k (t @ [HttpGet url]) = (Ret a, u)"
      using returnsD [OF filepath_Abs_returns] by blast
    show ?thesis
    proof (cases a)
      case (Inl err)
      with None resp a show ?thesis
        by (auto simp: archive_Write_def check_def bind_def new_request_def sys_http_def ret_def)
    next
      case (Inr absPath)
      obtain e v where "extract_typed L ty absPath (Body resp, BodyEnd resp) k u = (Ret e, v)"
        using returnsD [OF extract_typed_returns] by blast
      with None resp a Inr show ?thesis
        by (cases e) (auto simp: archive_Write_def check_def bind_def new_request_def sys_http_def ret_def
            verify_body_def not_less split: option.splits)
    qed
  qed
next
  case (Some err)
  then show ?thesis by (simp add: archive_Write_def check_def bind_def new_request_def ret_def)
qed

text \<open>
  The digest decides about success only: what is written to the target does not depend on
  it.  Under any two verdicts of the verifier the download makes the same calls, so an archive
  with the wrong digest has been unpacked in full when the mismatch is reported.
\<close>

theorem archive_Write_unpacks_unverified:
  "snd (archive_Write (L\<lparr>digest_verifies := v\<rparr>) url ty path checksum k t) = snd (archive_Write L url ty path checksum k t)"
proof -
  have sel: "untar (L\<lparr>digest_verifies := v\<rparr>) = untar L" "gunzip (L\<lparr>digest_verifies := v\<rparr>) = gunzip L"
    "map_order (L\<lparr>digest_verifies := v\<rparr>) = map_order L" "digest_parse (L\<lparr>digest_verifies := v\<rparr>) = digest_parse L"
    by simp_all
  have typed: "extract_typed (L\<lparr>digest_verifies := v\<rparr>) ty' root r = extract_typed L ty' root r" for ty' root r
    unfolding extract_typed_def extractTarGzip_def extractTarDirectory_def sel by (rule refl)
  show ?thesis
    unfolding archive_Write_def typed sel
    by (simp add: check_def bind_def new_request_def sys_http_def ret_def verify_body_def
        split: option.split sum.split prod.split res.split)
qed

subsection \<open>The order of the action\<close>

definition force_call :: "call \<Rightarrow> bool" where
  "force_call c = (case c of ReadFile p \<Rightarrow> p = ''/proc/mounts'' | Unmount p fl \<Rightarrow> fl = MNT_FORCE OR MNT_DETACH | _ \<Rightarrow> False)"

definition unpack_call :: "call \<Rightarrow> bool" where
  "unpack_call c =
     (case c of HttpGet _ \<Rightarrow> True | Getwd \<Rightarrow> True | Stat _ \<Rightarrow> True | MkdirAll _ _ \<Rightarrow> True | Symlink _ _ \<Rightarrow> True
      | Link _ _ \<Rightarrow> True | OpenFile _ _ _ \<Rightarrow> True | WriteBytes _ _ \<Rightarrow> True | Close _ \<Rightarrow> True | _ \<Rightarrow> False)"

lemma extract_typed_emits: "emits unpack_call (extract_typed L ty root r)"
proof -
  have e: "emits unpack_call (extract_entry root h)" for h
    unfolding extract_entry_def Let_def extract_file_def
    by (cases "hdr_Typeflag h") (auto simp: unpack_call_def intro!: emits_intros)
  have l: "emits unpack_call (extract_loop root hs err ls)" for hs err ls
  proof (induction hs arbitrary: ls)
    case Nil
    show ?case unfolding extract_loop.simps by (rule emits_ret)
  next
    case (Cons h hs)
    show ?case unfolding extract_loop.simps by (intro emits_intros e Cons.IH)
  qed
  have m: "emits unpack_call (make_links ls)" for ls
    unfolding make_links_def by (intro emits_for_err) (auto simp: unpack_call_def intro!: emits_sys)
  show ?thesis
    unfolding extract_typed_def extractTarGzip_def extractTarDirectory_def
    by (intro emits_intros l m)
qed

lemma archive_Write_emits: "emits unpack_call (archive_Write L url ty path checksum)"
  unfolding archive_Write_def verify_body_def
  by (intro emits_intros extract_typed_emits) (simp_all add: unpack_call_def)

lemma archive_forceUnmount_emits: "emits force_call (archive_forceUnmount dev)"
  unfolding archive_forceUnmount_def
  by (intro emits_intros) (simp_all add: force_call_def)

text \<open>The parts of the action: what it asks, the tree it mounts, and the unpacking.\<close>

definition archive_ask :: "decoder \<Rightarrow> (string \<times> Filesystem list) act" where
  "archive_ask decode =
     bind (getenv ''DEST_DISK'') (\<lambda>dev.
     bind (\<lambda>k t. (Ret (checksum_config k), t)) (\<lambda>config.
     case config of
       None \<Rightarrow> log_fatal
     | Some checksum \<Rightarrow>
         if dev = [] then log_fatal
         else andThen (archive_forceUnmount dev) (bind (fetchSiblings decode) (\<lambda>extras. ret (checksum, extras)))))"

definition tree_gate :: "kernel \<Rightarrow> Filesystem list \<Rightarrow> call list" where
  "tree_gate k extras = map fst (tree_plan (env k ''DEST_DISK'', env k ''FS_TYPE'', extras))"

definition unpack :: "formats \<Rightarrow> kernel \<Rightarrow> string \<Rightarrow> unit act" where
  "unpack L k checksum = must_ok (archive_Write L (env k ''ARCHIVE_URL'') (env k ''ARCHIVE_TYPE'')
     (PathJoin [mountAction, env k ''DEST_PATH'']) checksum)"

definition prepare_call :: "call \<Rightarrow> bool" where
  "prepare_call c \<longleftrightarrow> force_call c \<or> is_http c"

lemma archive_ask_emits: "emits prepare_call (archive_ask d)"
proof -
  have "emits prepare_call (archive_forceUnmount dev)" for dev
    by (rule emits_weaken [OF archive_forceUnmount_emits]) (simp add: prepare_call_def)
  moreover have "emits prepare_call (fetchSiblings d)"
    by (rule emits_weaken [OF fetchSiblings_emits]) (simp add: prepare_call_def)
  moreover have "emits prepare_call (\<lambda>k t. (Ret (checksum_config k), t))"
    by (simp add: emits_def)
  ultimately show ?thesis unfolding archive_ask_def by (intro emits_intros)
qed

lemma config_bind: "bind (\<lambda>k t. (Ret (checksum_config k), t)) f k u = f (checksum_config k) k u"
  by (simp add: bind_def)

lemma archive2disk_stages:
  "archive2disk L d k t = bind (archive_ask d) (\<lambda>(checksum, extras).
     andThen (must_all (tree_gate k extras)) (unpack L k checksum)) k t"
proof (cases "checksum_config k = None \<or> env k ''DEST_DISK'' = []")
  case True
  then have "archive_ask d k t = (Exit 1, t)" "archive2disk L d k t = (Exit 1, t)"
    by (auto simp: archive_ask_def archive2disk_def getenv_bind config_bind log_fatal_def os_exit_def split: option.split)
  then show ?thesis by (simp add: bind_def)
next
  case False
  then obtain c where c: "checksum_config k = Some c" and dev: "env k ''DEST_DISK'' \<noteq> []" by auto
  have ask: "bind (archive_ask d) f k t = bind (andThen (archive_forceUnmount (env k ''DEST_DISK''))
      (bind (fetchSiblings d) (\<lambda>extras. ret (c, extras)))) f k t" for f :: "string \<times> Filesystem list \<Rightarrow> unit act"
    by (rule bind_first) (simp add: archive_ask_def getenv_bind config_bind c dev)
  have "must_ok (MountTree (env k ''DEST_DISK'') (env k ''FS_TYPE'') x) = must_all (tree_gate k x)" for x
    by (simp add: MountTree_script must_ok_script tree_gate_def)
  then have "archive2disk L d k t = andThen (archive_forceUnmount (env k ''DEST_DISK''))
      (bind (fetchSiblings d) (\<lambda>x. andThen (must_all (tree_gate k x)) (unpack L k c))) k t"
    by (simp add: archive2disk_def getenv_bind config_bind c dev unpack_def)
  then show ?thesis by (simp add: ask andThen_def bind_assoc)
qed

interpretation ad: staged_action "archive2disk L" archive_ask "\<lambda>k (c, extras). Some (tree_gate k extras)"
    "\<lambda>k (c, extras). unpack L k c" prepare_call unpack_call for L
proof
  fix d k t
  show "archive2disk L d k t = bind (archive_ask d)
      (\<lambda>m k t. case (case m of (c, extras) \<Rightarrow> Some (tree_gate k extras)) of None \<Rightarrow> (Ret (), t)
        | Some cs \<Rightarrow> andThen (must_all cs) (case m of (c, extras) \<Rightarrow> unpack L k c) k t) k t"
    unfolding archive2disk_stages by (rule bind_same) (simp split: prod.split)
next
  fix k and m :: "string \<times> Filesystem list"
  show "emits unpack_call (case m of (c, extras) \<Rightarrow> unpack L k c)"
    by (cases m) (auto simp: unpack_def intro!: emits_must_ok archive_Write_emits)
qed (rule archive_ask_emits)

text \<open>
  The action first detaches old mounts of the device, then asks for the metadata, then
  mounts the tree, and only then downloads and unpacks; a failed mount ends it before anything
  is unpacked.
\<close>

theorem archive2disk_phases: "phases [force_call, is_http, enter_call, unpack_call] (archive2disk L d)"
proof -
  have cfg: "phases Ps (bind (\<lambda>k t. (Ret (checksum_config k), t)) f)" if "\<And>x. phases Ps (f x)"
    for Ps and f :: "string option \<Rightarrow> unit act"
    using that by (simp add: phases_def bind_def)
  have go: "phases [force_call, is_http, enter_call, unpack_call]
      (andThen (archive_forceUnmount dev) (bind (fetchSiblings d) (\<lambda>extras.
         andThen (must_ok (MountTree dev fs extras)) (must_ok (archive_Write L url ty path sum)))))" for dev fs url ty path sum
    by (intro phases_emits_andThen phases_emits_bind phases_emits emits_must_ok archive_forceUnmount_emits
        fetchSiblings_emits MountTree_calls archive_Write_emits)
  show ?thesis
    unfolding archive2disk_def archive_fetchSiblings_eq
    by (intro phases_getenv cfg) (auto simp: phases_fatal go split: option.split)
qed

end
