(* ===== verification/Counters.thy ===== *)
theory Counters
  imports GoIO
begin

text \<open>
  Progress reporting: the \<open>Progress\<close> of \<open>image2disk/image/image.go\<close>, which counts the bytes
  that pass a reader and a writer, the \<open>WriteCounter\<close> that three packages declare, and the
  rendering of such counts for the log.
\<close>

subsection \<open>Counters\<close>

text \<open>A Go \<open>int64\<close> or \<open>uint64\<close> counter wraps around; it is a 64-bit word.\<close>

record Progress =
  wBytes :: "64 word"
  rBytes :: "64 word"

definition NewProgress :: Progress where
  "NewProgress = \<lparr>wBytes = 0, rBytes = 0\<rparr>"

text \<open>
  The argument is the answer of the underlying writer or reader: the bytes it took or gave
  and its error.  The counter grows on both branches, and an error is wrapped.
\<close>

definition Progress_Write :: "Progress \<Rightarrow> nat \<times> goerr option \<Rightarrow> Progress \<times> nat \<times> goerr option" where
  "Progress_Write p r =
     (case r of
        (nu, Some err) \<Rightarrow> (p\<lparr>wBytes := wBytes p + of_nat nu\<rparr>, nu, Some (Wrapf ''error with write: %w'' [] err))
      | (nu, None) \<Rightarrow> (p\<lparr>wBytes := wBytes p + of_nat nu\<rparr>, nu, None))"

definition Progress_Read :: "Progress \<Rightarrow> nat \<times> goerr option \<Rightarrow> Progress \<times> nat \<times> goerr option" where
  "Progress_Read p r =
     (case r of
        (nu, Some err) \<Rightarrow> (p\<lparr>rBytes := rBytes p + of_nat nu\<rparr>, nu, Some (Wrapf ''error with read: %w'' [] err))
      | (nu, None) \<Rightarrow> (p\<lparr>rBytes := rBytes p + of_nat nu\<rparr>, nu, None))"

definition readBytes :: "Progress \<Rightarrow> 64 word" where "readBytes p = rBytes p"
definition writeBytes :: "Progress \<Rightarrow> 64 word" where "writeBytes p = wBytes p"

record WriteCounter =
  Total :: "64 word"

definition WriteCounter_Write :: "WriteCounter \<Rightarrow> string \<Rightarrow> WriteCounter \<times> nat \<times> goerr option" where
  "WriteCounter_Write wc p = (wc\<lparr>Total := Total wc + of_nat (length p)\<rparr>, length p, None)"

text \<open>What all counters promise.\<close>

locale byte_counter =
  fixes count :: "'c \<Rightarrow> 'e \<Rightarrow> 'c" and total :: "'c \<Rightarrow> 64 word" and amount :: "'e \<Rightarrow> nat"
  assumes counts: "total (count c e) = total c + of_nat (amount e)"
begin

lemma total_after: "total (foldl count c es) = total c + of_nat (sum_list (map amount es))"
  by (induction es arbitrary: c) (simp_all add: counts)

lemma exact:
  "total c = 0 \<Longrightarrow> unat (total (foldl count c es)) = sum_list (map amount es) mod 2 ^ 64"
  by (simp add: total_after unat_of_nat)

end

interpretation pw: byte_counter "\<lambda>p r. fst (Progress_Write p r)" writeBytes fst
  by unfold_locales (auto simp: Progress_Write_def writeBytes_def split: prod.split option.split)

interpretation pr: byte_counter "\<lambda>p r. fst (Progress_Read p r)" readBytes fst
  by unfold_locales (auto simp: Progress_Read_def readBytes_def split: prod.split option.split)

interpretation wc: byte_counter "\<lambda>c p. fst (WriteCounter_Write c p)" Total length
  by unfold_locales (simp add: WriteCounter_Write_def)

subsection \<open>Sizes for the log\<close>

text \<open>
  \<open>float64(b)\<close> rounds to 53 significant bits, halves to even; dividing by 1024 is exact.
  \<open>%.6f\<close> rounds the exact value to six decimals, halves to even.
\<close>

definition round_even :: "nat \<Rightarrow> nat \<Rightarrow> nat" where
  "round_even a b =
     (let q = a div b; r = a mod b in if b < 2 * r \<or> 2 * r = b \<and> odd q then q + 1 else q)"

fun float_shift :: "nat \<Rightarrow> nat" where
  "float_shift n = (if n < 2 ^ 53 then 0 else Suc (float_shift (n div 2)))"

declare float_shift.simps [simp del]

definition float64 :: "nat \<Rightarrow> nat" where
  "float64 n = (let s = float_shift n in round_even n (2 ^ s) * 2 ^ s)"

definition pad6 :: "nat \<Rightarrow> string" where
  "pad6 m = replicate (6 - length (FormatUint m)) (CHR ''0'') @ FormatUint m"

definition six_decimals :: "nat \<Rightarrow> nat \<Rightarrow> string" where
  "six_decimals a b =
     (let q = round_even (a * 1000000) b in FormatUint (q div 1000000) @ ''.'' @ pad6 (q mod 1000000))"

fun pretty_units :: "string \<Rightarrow> nat \<Rightarrow> nat \<Rightarrow> string list \<Rightarrow> string" where
  "pretty_units sign n d [] = sign @ six_decimals n d @ ''YiB''"
| "pretty_units sign n d (u # us) =
     (if n < 1024 * d then sign @ six_decimals n d @ u @ ''B'' else pretty_units sign n (d * 1024) us)"

definition size_units :: "string list" where
  "size_units = [[], ''Ki'', ''Mi'', ''Gi'', ''Ti'', ''Pi'', ''Ei'', ''Zi'']"

definition prettyByteSize :: "64 word \<Rightarrow> string" where
  "prettyByteSize b =
     pretty_units (if sint b < 0 then ''-'' else []) (float64 (nat \<bar>sint b\<bar>)) 1 size_units"

lemma float_shift_pow: "float_shift n = 0 \<or> 2 ^ float_shift n \<le> n"
proof (induction n rule: float_shift.induct)
  case (1 n)
  show ?case
  proof (cases "n < 2 ^ 53")
    case True
    then show ?thesis by (simp add: float_shift.simps)
  next
    case False
    with 1 have "float_shift (n div 2) = 0 \<or> 2 ^ float_shift (n div 2) \<le> n div 2" by simp
    with False have "2 * 2 ^ float_shift (n div 2) \<le> n" by auto
    with False show ?thesis by (simp add: float_shift.simps [of n])
  qed
qed

lemma round_even_le: "0 < b \<Longrightarrow> round_even a b * b \<le> a + b"
proof -
  assume "0 < b"
  have "round_even a b \<le> a div b + 1" by (simp add: round_even_def Let_def)
  then have "round_even a b * b \<le> (a div b + 1) * b" by (rule mult_le_mono1)
  also have "\<dots> \<le> a + b" by simp
  finally show ?thesis .
qed

lemma float64_le: "float64 n \<le> 2 * n"
proof (cases "float_shift n = 0")
  case True
  then show ?thesis by (simp add: float64_def round_even_def)
next
  case False
  with float_shift_pow [of n] have "2 ^ float_shift n \<le> n" by blast
  with round_even_le [of "2 ^ float_shift n" n] show ?thesis by (simp add: float64_def Let_def)
qed

lemma pretty_units_at:
  assumes "j < length us" and "n < 1024 * (d * 1024 ^ j)" and "\<forall>i<j. 1024 * (d * 1024 ^ i) \<le> n"
  shows "pretty_units sign n d us = sign @ six_decimals n (d * 1024 ^ j) @ us ! j @ ''B''"
  using assms
proof (induction us arbitrary: d j)
  case (Cons u us)
  show ?case
  proof (cases j)
    case 0
    with Cons.prems show ?thesis by simp
  next
    case (Suc i)
    have "\<not> n < 1024 * d" using Cons.prems(3) Suc by force
    moreover have "pretty_units sign n (d * 1024) us = sign @ six_decimals n (d * 1024 * 1024 ^ i) @ us ! i @ ''B''"
    proof (rule Cons.IH)
      show "i < length us" "n < 1024 * (d * 1024 * 1024 ^ i)" using Cons.prems(1,2) Suc by (simp_all add: mult.assoc)
      show "\<forall>l<i. 1024 * (d * 1024 * 1024 ^ l) \<le> n"
      proof (intro allI impI)
        fix l assume "l < i"
        with Cons.prems(3) Suc have "1024 * (d * 1024 ^ Suc l) \<le> n" by blast
        then show "1024 * (d * 1024 * 1024 ^ l) \<le> n" by (simp add: mult.assoc)
      qed
    qed
    ultimately show ?thesis using Suc by (simp add: mult.assoc)
  qed
qed simp

text \<open>
  C36: A size is shown in the largest unit that keeps its value at one or more, with six
  decimals: for every \<open>int64\<close> the unit is one of the first seven, the value (rounded to a
  \<open>float64\<close>) is below 1024 of it, and at least one of it unless the unit is the byte.
\<close>

theorem prettyByteSize_unit:
  "\<exists>j\<le>6. let n = float64 (nat \<bar>sint b\<bar>) in
     n < 1024 ^ Suc j \<and> (if j = 0 then True else 1024 ^ j \<le> n)
     \<and> prettyByteSize b = (if sint b < 0 then ''-'' else []) @ six_decimals n (1024 ^ j) @ size_units ! j @ ''B''"
proof -
  let ?n = "float64 (nat \<bar>sint b\<bar>)"
  have "\<bar>sint b\<bar> \<le> 2 ^ 63" using sint_ge [of b] sint_lt [of b] by simp
  then have "nat \<bar>sint b\<bar> \<le> 2 ^ 63" by simp
  then have big: "?n < 1024 ^ Suc 6" using float64_le [of "nat \<bar>sint b\<bar>"] by simp
  define j where "j = (LEAST j. ?n < 1024 ^ Suc j)"
  have below: "?n < 1024 ^ Suc j" and le: "j \<le> 6"
    unfolding j_def using big by (rule LeastI, intro Least_le)
  have above: "1024 ^ Suc i \<le> ?n" if "i < j" for i
    using that not_less_Least [of i "\<lambda>j. ?n < 1024 ^ Suc j"] by (simp add: j_def not_less)
  have "prettyByteSize b = (if sint b < 0 then ''-'' else []) @ six_decimals ?n (1 * 1024 ^ j) @ size_units ! j @ ''B''"
    unfolding prettyByteSize_def
    by (rule pretty_units_at) (use le below above in \<open>auto simp: size_units_def\<close>)
  moreover have "if j = 0 then True else 1024 ^ j \<le> ?n"
    using above [of "j - 1"] by (cases j) simp_all
  ultimately show ?thesis using le below unfolding Let_def by (intro exI [of _ j]) (simp del: power_Suc)
qed

text \<open>
  The counters are exact modulo \<open>2^64\<close>: after any sequence of reads and writes through a fresh
  \<open>Progress\<close>, failed ones included, each counter is the sum of the bytes moved.
\<close>

theorem progress_counts:
  "unat (writeBytes (foldl (\<lambda>p r. fst (Progress_Write p r)) NewProgress rs)) = sum_list (map fst rs) mod 2 ^ 64
   \<and> unat (readBytes (foldl (\<lambda>p r. fst (Progress_Read p r)) NewProgress rs)) = sum_list (map fst rs) mod 2 ^ 64"
proof (intro conjI)
  show "unat (writeBytes (foldl (\<lambda>p r. fst (Progress_Write p r)) NewProgress rs)) = sum_list (map fst rs) mod 2 ^ 64"
    by (rule pw.exact) (simp add: NewProgress_def writeBytes_def)
  show "unat (readBytes (foldl (\<lambda>p r. fst (Progress_Read p r)) NewProgress rs)) = sum_list (map fst rs) mod 2 ^ 64"
    by (rule pr.exact) (simp add: NewProgress_def readBytes_def)
qed

end
