(* ===== verification/Image2disk.thy ===== *)
theory Image2disk
  imports Counters
begin

text \<open>
  The \<open>image2disk\<close> action (\<open>image2disk/main.go\<close> and \<open>image2disk/image/image.go\<close>): it streams a
  disk image from a URL to a block device, decompressing it on the way, with retries.
\<close>

text \<open>
  The decompressors, the parser of URLs and the retry policy of \<open>backoff\<close> are not part of the
  repository: \<open>bzip2_reader\<close> and the fallible constructors of the others turn the stream they
  read into the stream they deliver; \<open>url_parse\<close> is \<open>url.Parse\<close> followed by \<open>String\<close>;
  \<open>retries\<close> is the number of further attempts that the policy grants in this run.
\<close>

record codecs =
  bzip2_reader :: "stream \<Rightarrow> stream"
  gzip_reader :: "stream \<Rightarrow> goerr + stream"
  xz_reader :: "stream \<Rightarrow> goerr + stream"
  zstd_reader :: "stream \<Rightarrow> goerr + stream"
  url_parse :: "string \<Rightarrow> string option"
  retries :: nat

definition wrap_reader :: "string \<Rightarrow> goerr + stream \<Rightarrow> goerr + stream" where
  "wrap_reader f r = (case r of Inl err \<Rightarrow> Inl (Wrapf f [] err) | Inr s \<Rightarrow> Inr s)"

definition findDecompressor :: "codecs \<Rightarrow> string \<Rightarrow> stream \<Rightarrow> goerr + stream" where
  "findDecompressor C imageURL r =
     (let ext = Ext imageURL in
      if ext = ''.bzip2'' \<or> ext = ''.bz2'' then Inr (bzip2_reader C r)
      else if ext = ''.gz'' then wrap_reader ''[ERROR] New gzip reader: %w'' (gzip_reader C r)
      else if ext = ''.xz'' then wrap_reader ''[ERROR] New xz reader: %w'' (xz_reader C r)
      else if ext = ''.zs'' \<or> ext = ''.zst'' then wrap_reader ''[ERROR] New zs reader: %w'' (zstd_reader C r)
      else Inl (Errorf ''unknown compression suffix [%s]'' [ext]))"

text \<open>
  Every error of a read through \<open>Progress\<close> is wrapped, the \<open>EOF\<close> at the end included, so a
  copy from it never ends with a plain \<open>EOF\<close>.
\<close>

definition progress_reader :: "stream \<Rightarrow> stream" where
  "progress_reader s = (fst s, Wrapf ''error with read: %w'' [] (snd s))"

text \<open>
  \<open>io.Copy(progressRW, out)\<close> with the number of bytes written and its error.  A refused
  write counts no bytes.
\<close>

definition copy_progress :: "string \<Rightarrow> stream \<Rightarrow> (nat \<times> goerr option) act" where
  "copy_progress device out =
     bind (if fst out = [] then ret None else sys (WriteBytes device (fst out))) (\<lambda>e.
     case e of
       Some err \<Rightarrow> ret (0, Some (Wrapf ''error with write: %w'' [] err))
     | None \<Rightarrow> ret (length (fst out), if snd out = EOF then None else Some (snd out)))"

text \<open>The errors of the copy that are not ignored.\<close>

definition filter_eof :: "goerr option \<Rightarrow> goerr option" where
  "filter_eof e =
     (case e of
        None \<Rightarrow> None
      | Some err \<Rightarrow> if \<not> errors_Is err EOF \<and> \<not> errors_Is err UnexpectedEOF then Some err else None)"

text \<open>\<open>time.NewTicker\<close> panics unless its interval is positive.\<close>

definition ticker_panic :: string where
  "ticker_panic = ''non-positive interval for NewTicker''"

text \<open>The part of \<open>Write\<close> after the answer of the server has been accepted.\<close>

definition write_image :: "codecs \<Rightarrow> string \<Rightarrow> string \<Rightarrow> bool \<Rightarrow> 64 word \<Rightarrow> http_response \<Rightarrow> goerr option act" where
  "write_image C sourceImage destinationDevice compressed progressInterval resp =
     check (sys (OpenFile destinationDevice [O_WRONLY] mode_0644)) (\<lambda>err. err)
    (with_defer (ignore (sys (Close destinationDevice)))
      (let progressRW = progress_reader (Body resp, BodyEnd resp) in
       case (if \<not> compressed then Inr progressRW else findDecompressor C sourceImage progressRW) of
         Inl err \<Rightarrow> ret (Some err)
       | Inr out \<Rightarrow>
           if sint progressInterval \<le> 0 then panic ticker_panic
           else
             bind (copy_progress destinationDevice out) (\<lambda>(count, e).
             case filter_eof e of
               Some err \<Rightarrow>
                 ret (Some (Wrapf ''error writing %s bytes to disk [%s] -> %w''
                   [prettyByteSize (of_nat count), destinationDevice] err))
             | None \<Rightarrow>
                 check (sys (Sync destinationDevice)) (\<lambda>_. Errorf ''failed to sync the block device'' [])
                   (andThen (ignore (sys (BlkRRPart destinationDevice))) (ret None)))))"

definition image_Write :: "codecs \<Rightarrow> string \<Rightarrow> string \<Rightarrow> bool \<Rightarrow> 64 word \<Rightarrow> goerr option act" where
  "image_Write C sourceImage destinationDevice compressed progressInterval =
     check (new_request sourceImage) (\<lambda>err. err)
    (bind (sys_http sourceImage) (\<lambda>r.
     case r of
       Inl err \<Rightarrow> ret (Some err)
     | Inr resp \<Rightarrow>
         if 300 < StatusCode resp then
           if StatusCode resp = 404 then ret (Some (Errorf ''%s not found'' [sourceImage]))
           else ret (Some (Errorf ''%s'' [Status resp]))
         else write_image C sourceImage destinationDevice compressed progressInterval resp))"

subsection \<open>The main program\<close>

text \<open>\<open>backoff.RetryNotify\<close>: again after an error as long as the policy grants it.\<close>

fun RetryNotify :: "nat \<Rightarrow> goerr option act \<Rightarrow> goerr option act" where
  "RetryNotify 0 operation = operation"
| "RetryNotify (Suc n) operation =
     bind operation (\<lambda>e. case e of None \<Rightarrow> ret None | Some err \<Rightarrow> RetryNotify n operation)"

definition env_true :: "kernel \<Rightarrow> string \<Rightarrow> bool" where
  "env_true k v \<longleftrightarrow> ParseBool (env k v) = Some True"

text \<open>The interval in nanoseconds; the product of two \<open>Duration\<close> values wraps around.\<close>

definition progress_interval :: "kernel \<Rightarrow> 64 word" where
  "progress_interval k =
     (case Atoi (env k ''PROGRESS_INTERVAL_SECONDS'') of None \<Rightarrow> 3 | Some pi \<Rightarrow> of_int pi) * 1000000000"

definition operation :: "codecs \<Rightarrow> string \<Rightarrow> string \<Rightarrow> bool \<Rightarrow> 64 word \<Rightarrow> goerr option act" where
  "operation C u disk cmp interval =
     check (image_Write C u disk cmp interval) (Wrapf ''error writing image to disk: %w'' []) (ret None)"

definition image2disk :: "codecs \<Rightarrow> unit act" where
  "image2disk C = (\<lambda>k t.
     let disk = env k ''DEST_DISK''; img = env k ''IMG_URL'' in
     if img = [] then os_exit 1 k t
     else if disk = [] then os_exit 1 k t
     else
       (case url_parse C img of
          None \<Rightarrow> os_exit 1 k t
        | Some u \<Rightarrow>
            let op = operation C u disk (env_true k ''COMPRESSED'') (progress_interval k) in
            must_ok (if env_true k ''RETRY_ENABLED'' then RetryNotify (retries C) op else op) k t))"

subsection \<open>Writing the image\<close>

text \<open>The result of the copy in one go, and the calls it makes.\<close>

definition copy_calls :: "string \<Rightarrow> stream \<Rightarrow> call list" where
  "copy_calls device out = (if fst out = [] then [] else [WriteBytes device (fst out)])"

definition copy_error :: "kernel \<Rightarrow> call list \<Rightarrow> string \<Rightarrow> stream \<Rightarrow> goerr option" where
  "copy_error k t device out =
     (case (if fst out = [] then None else k_err k t (WriteBytes device (fst out))) of
        Some err \<Rightarrow> Some (Wrapf ''error with write: %w'' [] err)
      | None \<Rightarrow> if snd out = EOF then None else Some (snd out))"

definition copy_count :: "kernel \<Rightarrow> call list \<Rightarrow> string \<Rightarrow> stream \<Rightarrow> nat" where
  "copy_count k t device out =
     (if fst out = [] \<or> k_err k t (WriteBytes device (fst out)) = None then length (fst out) else 0)"

lemma copy_progress_run:
  "copy_progress device out k t = (Ret (copy_count k t device out, copy_error k t device out), t @ copy_calls device out)"
  by (auto simp: copy_progress_def copy_error_def copy_calls_def copy_count_def bind_def sys_def ret_def
      split: option.split)

lemma copy_progress_cut:
  "bind (copy_progress dev (d, Wrapf f [] UnexpectedEOF)) (\<lambda>(n, e). case filter_eof e of Some err \<Rightarrow> g n err | None \<Rightarrow> h)
   = bind (copy_progress dev (d, Wrapf f [] EOF)) (\<lambda>(n, e). case filter_eof e of Some err \<Rightarrow> g n err | None \<Rightarrow> h)"
  by (simp add: copy_progress_def bind_assoc filter_eof_def fun_eq_iff)
    (simp add: bind_def sys_def ret_def split: option.split)

text \<open>
  A download that is cut off is not an error: whatever the device answers, an uncompressed
  image whose body ends in \<open>UnexpectedEOF\<close> is written, synced and reported exactly as one
  that came to its end.
\<close>

theorem write_image_accepts_truncated:
  "write_image C url dev False iv (resp\<lparr>BodyEnd := UnexpectedEOF\<rparr>)
     = write_image C url dev False iv (resp\<lparr>BodyEnd := EOF\<rparr>)"
  by (simp add: write_image_def progress_reader_def copy_progress_cut)

text \<open>What decides about the outcome, up to the copy.\<close>

definition image_source :: "codecs \<Rightarrow> string \<Rightarrow> bool \<Rightarrow> http_response \<Rightarrow> goerr + stream" where
  "image_source C url compressed resp =
     (if compressed then findDecompressor C url (progress_reader (Body resp, BodyEnd resp))
      else Inr (progress_reader (Body resp, BodyEnd resp)))"

definition accepted :: "kernel \<Rightarrow> call list \<Rightarrow> string \<Rightarrow> http_response \<Rightarrow> bool" where
  "accepted k t url resp \<longleftrightarrow> k_badurl k url = None \<and> k_http k t url = Inr resp \<and> StatusCode resp \<le> 300"

text \<open>The whole run of \<open>write_image\<close>: its result and its calls.\<close>

definition image_run :: "codecs \<Rightarrow> string \<Rightarrow> string \<Rightarrow> bool \<Rightarrow> 64 word \<Rightarrow> http_response \<Rightarrow> kernel \<Rightarrow> call list
    \<Rightarrow> goerr option res \<times> call list" where
  "image_run C url dev compressed iv resp k u =
     (case image_source C url compressed resp of
        Inl err \<Rightarrow> (Ret (Some err), [])
      | Inr out \<Rightarrow>
          if sint iv \<le> 0 then (Panic ticker_panic, [])
          else
            (case filter_eof (copy_error k u dev out) of
               Some err \<Rightarrow> (Ret (Some (Wrapf ''error writing %s bytes to disk [%s] -> %w''
                   [prettyByteSize (of_nat (copy_count k u dev out)), dev] err)), copy_calls dev out)
             | None \<Rightarrow>
                 if k_err k (u @ copy_calls dev out) (Sync dev) = None
                 then (Ret None, copy_calls dev out @ [Sync dev, BlkRRPart dev])
                 else (Ret (Some (Errorf ''failed to sync the block device'' [])), copy_calls dev out @ [Sync dev])))"

text \<open>The part of the function behind the deferred \<open>Close\<close>.\<close>

definition image_body :: "codecs \<Rightarrow> string \<Rightarrow> string \<Rightarrow> bool \<Rightarrow> 64 word \<Rightarrow> http_response \<Rightarrow> goerr option act" where
  "image_body C url dev compressed iv resp =
     (case image_source C url compressed resp of
        Inl err \<Rightarrow> ret (Some err)
      | Inr out \<Rightarrow>
          if sint iv \<le> 0 then panic ticker_panic
          else
            bind (copy_progress dev out) (\<lambda>(count, e).
            case filter_eof e of
              Some err \<Rightarrow>
                ret (Some (Wrapf ''error writing %s bytes to disk [%s] -> %w''
                  [prettyByteSize (of_nat count), dev] err))
            | None \<Rightarrow>
                check (sys (Sync dev)) (\<lambda>_. Errorf ''failed to sync the block device'' [])
                  (andThen (ignore (sys (BlkRRPart dev))) (ret None))))"

lemma write_image_body:
  "write_image C url dev compressed iv resp =
     check (sys (OpenFile dev [O_WRONLY] mode_0644)) (\<lambda>err. err)
       (with_defer (ignore (sys (Close dev))) (image_body C url dev compressed iv resp))"
  by (simp add: write_image_def image_body_def image_source_def Let_def)

lemma image_body_run:
  "image_body C url dev compressed iv resp k u =
     (fst (image_run C url dev compressed iv resp k u), u @ snd (image_run C url dev compressed iv resp k u))"
proof (cases "image_source C url compressed resp")
  case (Inl err)
  then show ?thesis by (simp add: image_body_def image_run_def ret_def)
next
  case (Inr out)
  show ?thesis
  proof (cases "sint iv \<le> 0")
    case True
    with Inr show ?thesis by (simp add: image_body_def image_run_def panic_def)
  next
    case False
    with Inr show ?thesis
      by (simp add: image_body_def image_run_def bind_run [OF copy_progress_run] split: option.split)
        (simp add: check_step ignore_step ret_apply split: option.split)
  qed
qed

lemma image_run_no_exit: "fst (image_run C url dev compressed iv resp k u) \<noteq> Exit n"
  by (simp add: image_run_def split: sum.split option.split)

lemma write_image_run:
  "write_image C url dev compressed iv resp k t =
     (let op = OpenFile dev [O_WRONLY] mode_0644; u = t @ [op] in
      case k_err k t op of
        Some err \<Rightarrow> (Ret (Some err), u)
      | None \<Rightarrow> (fst (image_run C url dev compressed iv resp k u),
                 u @ snd (image_run C url dev compressed iv resp k u) @ [Close dev]))"
proof -
  have "with_defer (ignore (sys (Close dev))) (image_body C url dev compressed iv resp) k u =
      (fst (image_run C url dev compressed iv resp k u), u @ snd (image_run C url dev compressed iv resp k u) @ [Close dev])" for u
    by (cases "fst (image_run C url dev compressed iv resp k u)")
      (simp_all add: with_defer_def ignore_sys image_body_run image_run_no_exit)
  then show ?thesis by (simp add: write_image_body check_step Let_def split: option.split)
qed

lemma image_Write_run:
  "image_Write C url dev compressed iv k t =
     (case k_badurl k url of
        Some err \<Rightarrow> (Ret (Some err), t)
      | None \<Rightarrow>
          (case k_http k t url of
             Inl err \<Rightarrow> (Ret (Some err), t @ [HttpGet url])
           | Inr resp \<Rightarrow>
               if StatusCode resp \<le> 300 then write_image C url dev compressed iv resp k (t @ [HttpGet url])
               else (Ret (Some (if StatusCode resp = 404 then Errorf ''%s not found'' [url] else Errorf ''%s'' [Status resp])),
                     t @ [HttpGet url])))"
  by (auto simp: image_Write_def check_def bind_def new_request_def sys_http_def ret_def split: option.split sum.split)


text \<open>
  The action panics exactly when the progress interval is not positive and the image would
  otherwise be copied: the device is open by then, and is closed.
\<close>

theorem image_Write_panics_iff:
  "(\<exists>p. fst (image_Write C url dev compressed iv k t) = Panic p) \<longleftrightarrow>
     sint iv \<le> 0 \<and> (\<exists>resp out. accepted k t url resp
       \<and> k_err k (t @ [HttpGet url]) (OpenFile dev [O_WRONLY] mode_0644) = None
       \<and> image_source C url compressed resp = Inr out)"
proof (cases "\<exists>resp. accepted k t url resp")
  case True
  then obtain resp where acc: "accepted k t url resp" by blast
  then have "image_Write C url dev compressed iv k t = write_image C url dev compressed iv resp k (t @ [HttpGet url])"
    by (simp add: image_Write_run accepted_def)
  moreover have "accepted k t url r \<longleftrightarrow> r = resp" for r using acc by (auto simp: accepted_def)
  ultimately show ?thesis
    by (auto simp: write_image_run Let_def image_run_def split: option.split sum.split)
next
  case False
  then show ?thesis
    by (auto simp: accepted_def image_Write_run split: option.split sum.split)
qed

subsection \<open>Attempts\<close>

text \<open>\<open>fails op k i t u\<close>: the operation fails \<open>i\<close> times in a row from history \<open>t\<close>, which leads to \<open>u\<close>.\<close>

fun fails :: "goerr option act \<Rightarrow> kernel \<Rightarrow> nat \<Rightarrow> call list \<Rightarrow> call list \<Rightarrow> bool" where
  "fails op k 0 t u \<longleftrightarrow> u = t"
| "fails op k (Suc i) t u \<longleftrightarrow> (case op k t of (Ret (Some err), v) \<Rightarrow> fails op k i v u | _ \<Rightarrow> False)"

lemma RetryNotify_success:
  "fst (RetryNotify n op k t) = Ret None \<longleftrightarrow> (\<exists>i\<le>n. \<exists>u. fails op k i t u \<and> fst (op k u) = Ret None)"
proof (induction n arbitrary: t)
  case (Suc n)
  obtain r v where op: "op k t = (r, v)" by (cases "op k t")
  show ?case
  proof (cases "\<exists>err. r = Ret (Some err)")
    case True
    then obtain err where r: "r = Ret (Some err)" by blast
    have "fst (RetryNotify (Suc n) op k t) = fst (RetryNotify n op k v)" using op r by (simp add: bind_def)
    also have "\<dots> = Ret None \<longleftrightarrow> (\<exists>i\<le>n. \<exists>u. fails op k i v u \<and> fst (op k u) = Ret None)" by (rule Suc.IH)
    also have "\<dots> \<longleftrightarrow> (\<exists>i\<le>Suc n. \<exists>u. fails op k i t u \<and> fst (op k u) = Ret None)"
    proof
      assume "\<exists>i\<le>n. \<exists>u. fails op k i v u \<and> fst (op k u) = Ret None"
      then obtain i u where "i \<le> n" "fails op k i v u" "fst (op k u) = Ret None" by blast
      with op r show "\<exists>i\<le>Suc n. \<exists>u. fails op k i t u \<and> fst (op k u) = Ret None"
        by (intro exI [of _ "Suc i"]) auto
    next
      assume "\<exists>i\<le>Suc n. \<exists>u. fails op k i t u \<and> fst (op k u) = Ret None"
      then obtain i u where i: "i \<le> Suc n" "fails op k i t u" "fst (op k u) = Ret None" by blast
      with op r obtain j where "i = Suc j" by (cases i) auto
      with i op r show "\<exists>i\<le>n. \<exists>u. fails op k i v u \<and> fst (op k u) = Ret None" by auto
    qed
    finally show ?thesis .
  next
    case False
    then have stuck: "fails op k i t u \<longleftrightarrow> i = 0 \<and> u = t" for i u
      using op by (cases i) (auto split: res.split option.split)
    have "fst (RetryNotify (Suc n) op k t) = Ret None \<longleftrightarrow> fst (op k t) = Ret None"
      using op False by (auto simp: bind_def ret_def split: res.split option.split)
    with stuck show ?thesis by auto
  qed
qed simp

text \<open>
  With valid inputs the action succeeds exactly when one of its attempts does after only
  failed ones: the first if retrying is off, otherwise one of the first and those the retry
  policy grants.  With a missing or malformed input it exits with status 1 and does nothing.
\<close>

theorem image2disk_attempts:
  "let disk = env k ''DEST_DISK''; img = env k ''IMG_URL'' in
   case (if img = [] \<or> disk = [] then None else url_parse C img) of
     None \<Rightarrow> image2disk C k t = (Exit 1, t)
   | Some u \<Rightarrow>
       (let op = operation C u disk (env_true k ''COMPRESSED'') (progress_interval k);
            n = (if env_true k ''RETRY_ENABLED'' then retries C else 0)
        in fst (image2disk C k t) = Ret () \<longleftrightarrow> (\<exists>i\<le>n. \<exists>u. fails op k i t u \<and> fst (op k u) = Ret None))"
proof -
  let ?disk = "env k ''DEST_DISK''" and ?img = "env k ''IMG_URL''"
  have must: "fst (must_ok m k t) = Ret () \<longleftrightarrow> fst (m k t) = Ret None" for m
    by (simp add: must_ok_def bind_def log_fatal_def os_exit_def ret_def split: prod.split res.split option.split)
  show ?thesis
  proof (cases "if ?img = [] \<or> ?disk = [] then None else url_parse C ?img")
    case None
    then show ?thesis by (auto simp: image2disk_def Let_def os_exit_def split: if_splits)
  next
    case (Some u)
    then have valid: "?img \<noteq> []" "?disk \<noteq> []" "url_parse C ?img = Some u" by (auto split: if_splits)
    let ?op = "operation C u ?disk (env_true k ''COMPRESSED'') (progress_interval k)"
    let ?n = "if env_true k ''RETRY_ENABLED'' then retries C else 0"
    have "image2disk C k t = must_ok (RetryNotify ?n ?op) k t"
      using valid by (simp add: image2disk_def Let_def)
    with Some show ?thesis
      unfolding Let_def by (simp only: must RetryNotify_success option.case)
  qed
qed

end
