(* ===== verification/Oci2disk.thy ===== *)
theory Oci2disk
  imports Image2disk
begin

text \<open>
  The \<open>oci2disk\<close> action (\<open>oci2disk/main.go\<close> and \<open>oci2disk/image\<close>): it pulls an image from a
  container registry and writes its disk layer to a block device.  Pulling is the library
  \<open>oras\<close>; the repository supplies the store that the library writes the blobs into.
\<close>

subsection \<open>The store\<close>

text \<open>\<open>DiskImageStore\<close>; its writer is the open device, named by its path.\<close>

record DiskImageStore =
  st_sourceImage :: string
  st_writer :: string
  st_compressed :: bool

definition NewDiskImageStore :: "string \<Rightarrow> bool \<Rightarrow> string \<Rightarrow> DiskImageStore" where
  "NewDiskImageStore sourceImage compressed w =
     \<lparr>st_sourceImage = sourceImage, st_writer = w, st_compressed = compressed\<rparr>"

definition oci_findDecompressor :: "codecs \<Rightarrow> string \<Rightarrow> stream \<Rightarrow> goerr + stream" where
  "oci_findDecompressor C imageURL r =
     (let ext = Ext imageURL in
      if ext = ''.bzip2'' then Inr (bzip2_reader C r)
      else if ext = ''.gz'' then wrap_reader ''[ERROR] New gzip reader: %w'' (gzip_reader C r)
      else if ext = ''.xz'' then wrap_reader ''[ERROR] New xz reader: %w'' (xz_reader C r)
      else if ext = ''.zs'' then wrap_reader ''[ERROR] New zs reader: %w'' (zstd_reader C r)
      else Inl (Errorf ''unknown compression suffix [%s]'' [ext]))"

definition oci_WriteCounter_Write :: "WriteCounter \<Rightarrow> string \<Rightarrow> WriteCounter \<times> nat \<times> goerr option" where
  "oci_WriteCounter_Write wc p = (let n = length p in (wc\<lparr>Total := Total wc + of_nat n\<rparr>, n, None))"

interpretation oc: byte_counter "\<lambda>c p. fst (oci_WriteCounter_Write c p)" Total length
  by unfold_locales (simp add: oci_WriteCounter_Write_def Let_def)

text \<open>
  \<open>Writer\<close>: what is done with the bytes of a blob.  Its options carry the title of the blob in
  an annotation, empty if there is none, or fail.
\<close>

datatype blob_writer = Discard | RawCopy | Decompress

definition store_Writer :: "DiskImageStore \<Rightarrow> goerr + string \<Rightarrow> goerr + blob_writer" where
  "store_Writer d opts =
     (case opts of
        Inl err \<Rightarrow> Inl err
      | Inr title \<Rightarrow>
          if title = [] then Inr Discard
          else if \<not> st_compressed d then Inr RawCopy
          else Inr Decompress)"

text \<open>The functions that pass a blob on; a decompressor that does not start ends the process.\<close>

definition pass_blob :: "codecs \<Rightarrow> DiskImageStore \<Rightarrow> blob_writer \<Rightarrow> stream \<Rightarrow> goerr option act" where
  "pass_blob C d w r =
     (case w of
        Discard \<Rightarrow> ret None
      | RawCopy \<Rightarrow> copy_to (st_writer d) r
      | Decompress \<Rightarrow>
          (case oci_findDecompressor C (st_sourceImage d) r of
             Inl err \<Rightarrow> log_fatal
           | Inr dr \<Rightarrow> copy_to (st_writer d) dr))"

text \<open>
  \<open>DiskImage\<close>, the writer below: what has been written, counted and hashed.  \<open>r\<close> is the answer of
  the device.  Its \<open>hash\<close> is never set, so every write is hashed; \<open>Commit\<close>, \<open>Truncate\<close> and
  \<open>Close\<close> do nothing and succeed, whatever size and digest are expected.
\<close>

record DiskImage =
  di_size :: "64 word"
  di_hashed :: string

definition DiskImage_Write :: "DiskImage \<Rightarrow> string \<Rightarrow> nat \<times> goerr option \<Rightarrow> DiskImage \<times> nat \<times> goerr option" where
  "DiskImage_Write w p r =
     (case r of
        (n, Some err) \<Rightarrow> (w, 0, Some err)
      | (n, None) \<Rightarrow> (w\<lparr>di_size := di_size w + of_nat n, di_hashed := di_hashed w @ take n p\<rparr>, n, None))"

definition DiskImage_Commit :: "DiskImage \<Rightarrow> int \<Rightarrow> string \<Rightarrow> goerr option" where
  "DiskImage_Commit w sz expected = None"

definition DiskImage_Close :: "DiskImage \<Rightarrow> goerr option" where "DiskImage_Close w = None"

definition DiskImage_Truncate :: "DiskImage \<Rightarrow> int \<Rightarrow> goerr option" where "DiskImage_Truncate w n = None"

definition DiskImage_Digest :: "(string \<Rightarrow> string) \<Rightarrow> DiskImage \<Rightarrow> string" where
  "DiskImage_Digest digest w = digest (di_hashed w)"

interpretation di: byte_counter "\<lambda>w (p, r). fst (DiskImage_Write w p r)" di_size
    "\<lambda>(p, r). case snd r of Some err \<Rightarrow> 0 | None \<Rightarrow> fst r"
  by unfold_locales (auto simp: DiskImage_Write_def split: prod.split option.split)

subsection \<open>Pulling\<close>

text \<open>
  The parameter \<open>pull\<close> is \<open>oras.Pull\<close>: given the credentials, if any, and the reference, the
  blobs it asks writers for, one after the other, each with its options and its bytes, and the
  error it ends with.  An error of a writer ends it with that error.
\<close>

type_synonym puller = "(string \<times> string) option \<Rightarrow> string \<Rightarrow> ((goerr + string) \<times> stream) list \<times> goerr option"

definition ErrObjectRequired :: goerr where
  "ErrObjectRequired = SysErr ''object required''"

definition ingest :: "codecs \<Rightarrow> DiskImageStore \<Rightarrow> (goerr + string) \<times> stream \<Rightarrow> goerr option act" where
  "ingest C d blob =
     (case store_Writer d (fst blob) of
        Inl err \<Rightarrow> ret (Some err)
      | Inr w \<Rightarrow> pass_blob C d w (snd blob))"

definition Pull :: "codecs \<Rightarrow> DiskImageStore \<Rightarrow> ((goerr + string) \<times> stream) list \<times> goerr option \<Rightarrow> goerr option act" where
  "Pull C d answer = check (for_err (fst answer) (ingest C d)) (\<lambda>err. err) (ret (snd answer))"

definition oci_Write :: "codecs \<Rightarrow> puller \<Rightarrow> string \<Rightarrow> string \<Rightarrow> bool \<Rightarrow> string \<Rightarrow> string \<Rightarrow> goerr option act" where
  "oci_Write C pull sourceImage destinationDevice compressed registryUsername registryPassword =
     (let credentials = (if registryUsername \<noteq> [] \<and> registryPassword \<noteq> []
                         then Some (registryUsername, registryPassword) else None) in
      check (sys (OpenFile destinationDevice [O_CREATE, O_WRONLY] mode_0644)) (\<lambda>err. err)
     (with_defer (ignore (sys (Close destinationDevice)))
       (let f = NewDiskImageStore sourceImage compressed destinationDevice in
        check (Pull C f (pull credentials sourceImage))
          (\<lambda>err. if errors_Is err ErrObjectRequired
                 then Errorf ''image reference format is invalid. Please specify <name:tag|name@digest>'' []
                 else err)
       (andThen (ignore (sys (Sync destinationDevice)))
       (andThen (ignore (sys (BlkRRPart destinationDevice)))
       (ret None))))))"

definition oci2disk :: "codecs \<Rightarrow> puller \<Rightarrow> unit act" where
  "oci2disk C pull =
     bind (getenv ''DEST_DISK'') (\<lambda>disk.
     bind (getenv ''IMG_URL'') (\<lambda>img.
     bind (getenv ''COMPRESSED'') (\<lambda>compressedEnv.
     bind (getenv ''REGISTRY_USERNAME'') (\<lambda>registryUsername.
     bind (getenv ''REGISTRY_PASSWORD'') (\<lambda>registryPassword.
     must_ok (oci_Write C pull img disk (ParseBool compressedEnv = Some True) registryUsername registryPassword))))))"

subsection \<open>What reaches the disk\<close>

text \<open>The bytes that a list of calls writes to a file.\<close>

fun written :: "string \<Rightarrow> call list \<Rightarrow> string" where
  "written f [] = []"
| "written f (WriteBytes p d # cs) = (if p = f then d else []) @ written f cs"
| "written f (c # cs) = written f cs"

lemma written_append [simp]: "written f (as @ bs) = written f as @ written f bs"
proof (induction as)
  case (Cons c as)
  then show ?case by (cases c) simp_all
qed simp

text \<open>The disk image in a sequence of blobs: the bytes of the titled ones, decompressed if asked for.\<close>

definition blob_bytes :: "codecs \<Rightarrow> DiskImageStore \<Rightarrow> (goerr + string) \<times> stream \<Rightarrow> string" where
  "blob_bytes C d blob =
     (case store_Writer d (fst blob) of
        Inr RawCopy \<Rightarrow> fst (snd blob)
      | Inr Decompress \<Rightarrow> (case oci_findDecompressor C (st_sourceImage d) (snd blob) of Inr dr \<Rightarrow> fst dr | Inl err \<Rightarrow> [])
      | _ \<Rightarrow> [])"

lemma ingest_success:
  assumes "ingest C d blob k t = (Ret None, t')"
  shows "\<exists>ext. t' = t @ ext \<and> written (st_writer d) ext = blob_bytes C d blob"
proof -
  have copy: "\<exists>ext. t' = t @ ext \<and> written f ext = fst s" if "copy_to f s k t = (Ret None, t')" for f s
    using that unfolding copy_to_success by (cases "fst s = []") simp_all
  show ?thesis
  proof (cases "store_Writer d (fst blob)")
    case (Inl err)
    with assms show ?thesis by (simp add: ingest_def ret_def)
  next
    case (Inr w)
    with assms copy show ?thesis
      by (cases w)
        (auto simp: ingest_def pass_blob_def blob_bytes_def ret_def log_fatal_def os_exit_def split: sum.splits)
  qed
qed

lemma ingest_all_success:
  assumes "for_err bs (ingest C d) k t = (Ret None, t')"
  shows "\<exists>ext. t' = t @ ext \<and> written (st_writer d) ext = concat (map (blob_bytes C d) bs)"
  using assms
proof (induction bs arbitrary: t)
  case Nil
  then show ?case by (simp add: ret_def)
next
  case (Cons b bs)
  then obtain u where b: "ingest C d b k t = (Ret None, u)" and rest: "for_err bs (ingest C d) k u = (Ret None, t')"
    by (cases "ingest C d b k t"; cases "fst (ingest C d b k t)")
      (auto simp: check_def bind_def ret_def split: option.splits)
  from ingest_success [OF b] Cons.IH [OF rest] show ?case by auto
qed


text \<open>An image with a configuration blob without a title and one disk layer.\<close>

definition example_pull :: puller where
  "example_pull = (\<lambda>creds ref. ([(Inr [], (''{}'', EOF)), (Inr ''disk.img'', (''boot'', EOF))], None))"

definition no_codecs :: codecs where
  "no_codecs = \<lparr>bzip2_reader = (\<lambda>s. s), gzip_reader = (\<lambda>s. Inr s), xz_reader = (\<lambda>s. Inr s), zstd_reader = (\<lambda>s. Inr s),
     url_parse = Some, retries = 0\<rparr>"


end
