(* ===== verification/Serial.thy ===== *)
theory Serial
  imports GoRegexp Chroot
begin

text \<open>
  The \<open>serial-console\<close> action: the package \<open>internal/serial\<close>, which rewrites the GRUB
  defaults to the console of the metadata, and the main program \<open>serial-console/cmd/main.go\<close>.
\<close>

subsection \<open>Rewriting the defaults\<close>

definition DefaultBaud :: int where "DefaultBaud = 115200"

text \<open>
  The two regular expressions \<open>console=ttyS\d+(,\d+)?\<close> and \<open>serial --speed=\d+ --unit=\d+\<close> at
  the front of a text.  All repetitions are greedy, and no repetition has to give anything back.
\<close>

definition con_head :: string where "con_head = ''console=ttyS''"
definition ser_head :: string where "ser_head = ''serial --speed=''"
definition unit_flag :: string where "unit_flag = '' --unit=''"

definition cmdRe :: matcher where
  "cmdRe s =
     (if HasPrefix s con_head then
        let r = drop (length con_head) s; ds = takeWhile is_digit r; r1 = dropWhile is_digit r in
        if ds = [] then None
        else if HasPrefix r1 '','' \<and> takeWhile is_digit (tl r1) \<noteq> []
        then let bs = CHR '','' # takeWhile is_digit (tl r1) in Some [Some (con_head @ ds @ bs), Some bs]
        else Some [Some (con_head @ ds), None]
      else None)"

definition serialRe :: matcher where
  "serialRe s =
     (if HasPrefix s ser_head then
        let r = drop (length ser_head) s; ds = takeWhile is_digit r; r1 = dropWhile is_digit r in
        if ds = [] then None
        else if HasPrefix r1 unit_flag then
          let us = takeWhile is_digit (drop (length unit_flag) r1) in
          if us = [] then None else Some [Some (ser_head @ ds @ unit_flag @ us)]
        else None
      else None)"

text \<open>
  \<open>fmt.Sscanf(n, "%d", &u)\<close>: blanks, a sign and digits; anything else, or a number that is
  too large, leaves \<open>u\<close> at 0.  A line break among the blanks is an error, and is not a digit.
\<close>

definition scan_blank :: "char \<Rightarrow> bool" where
  "scan_blank c \<longleftrightarrow> c \<in> {CHR '' '', CHR 0x09, CHR 0x0B, CHR 0x0C, CHR 0x0D}"

definition scan_int :: "string \<Rightarrow> int" where
  "scan_int s =
     (let r = dropWhile scan_blank s;
          sign = (if HasPrefix r ''-'' \<or> HasPrefix r ''+'' then take 1 r else []);
          ds = takeWhile is_digit (drop (length sign) r)
      in if ds = [] then 0 else (case ParseInt64 (sign @ ds) 10 of Some u \<Rightarrow> u | None \<Rightarrow> 0))"

definition ttyUnit :: "string \<Rightarrow> int" where
  "ttyUnit tty = scan_int (TrimPrefix tty ''ttyS'')"

definition baud_of :: "Console \<Rightarrow> int" where
  "baud_of c = (if con_Baud c = 0 then DefaultBaud else con_Baud c)"

definition RewriteGrubDefaults :: "string \<Rightarrow> Console option \<Rightarrow> string" where
  "RewriteGrubDefaults inp console =
     (case console of
        None \<Rightarrow> inp
      | Some c \<Rightarrow>
          if con_TTY c = [] then inp
          else
            let baud = baud_of c;
                out = ReplaceMatches cmdRe (Sprintf ''console=%s,%d'' [con_TTY c, Itoa baud]) inp
            in ReplaceMatches serialRe (Sprintf ''serial --speed=%d --unit=%d'' [Itoa baud, Itoa (ttyUnit (con_TTY c))]) out)"

subsection \<open>The main program\<close>

definition grubDefaults :: string where
  "grubDefaults = ''/etc/default/grub.d/50-cloudimg-settings.cfg''"

definition grubCfg :: string where
  "grubCfg = ''/boot/grub/grub.cfg''"

definition serial_console :: "decoder \<Rightarrow> unit act" where
  "serial_console decode =
     bind (must_metadata decode) (\<lambda>md.
     case inst_Console (md_Instance md) of
       None \<Rightarrow> ret ()
     | Some c \<Rightarrow>
         if con_TTY c = [] then ret ()
         else
           bind (getenv ''BLOCK_DEVICE'') (\<lambda>dev.
           bind (getenv ''FS_TYPE'') (\<lambda>fsType.
           andThen (must_ok (Enter dev fsType (Filesystems (inst_Storage (md_Instance md)))))
          (bind (sys_read grubDefaults) (\<lambda>r.
           case r of
             Inl err \<Rightarrow> log_fatal
           | Inr inp \<Rightarrow>
               andThen (must_ok (sys (WriteFile grubDefaults (RewriteGrubDefaults inp (Some c)) mode_0644)))
              (andThen (must_ok (sys (Run ''grub-mkconfig'' [''-o'', grubCfg] None)))
              (ignore (sys (Chmod grubCfg mode_0644))))))))) "

subsection \<open>The tokens of the defaults\<close>

text \<open>
  A file of defaults, seen as the console and serial settings in it with the texts between.
  \<open>configure\<close> is what the metadata makes of a setting.
\<close>

datatype token = ConTok string "string option" | SerTok string string

fun tok_text :: "token \<Rightarrow> string" where
  "tok_text (ConTok ds None) = con_head @ ds"
| "tok_text (ConTok ds (Some bs)) = con_head @ ds @ CHR '','' # bs"
| "tok_text (SerTok xs ys) = ser_head @ xs @ unit_flag @ ys"

definition digits :: "string \<Rightarrow> bool" where
  "digits s \<longleftrightarrow> s \<noteq> [] \<and> list_all is_digit s"

fun tok_ok :: "token \<Rightarrow> bool" where
  "tok_ok (ConTok ds b) \<longleftrightarrow> digits ds \<and> (case b of None \<Rightarrow> True | Some bs \<Rightarrow> digits bs)"
| "tok_ok (SerTok xs ys) \<longleftrightarrow> digits xs \<and> digits ys"

fun configure :: "nat \<Rightarrow> nat \<Rightarrow> token \<Rightarrow> token" where
  "configure u b (ConTok _ _) = ConTok (FormatUint u) (Some (FormatUint b))"
| "configure u b (SerTok _ _) = SerTok (FormatUint b) (FormatUint u)"

fun defaults_text :: "string \<Rightarrow> (token \<times> string) list \<Rightarrow> string" where
  "defaults_text g [] = g"
| "defaults_text g ((t, g') # ts) = g @ tok_text t @ defaults_text g' ts"

definition gap_ok :: "string \<Rightarrow> bool" where
  "gap_ok g \<longleftrightarrow> \<not> Contains g con_head \<and> \<not> Contains g ser_head"

definition stops :: "string \<Rightarrow> bool" where
  "stops s \<longleftrightarrow> s = [] \<or> \<not> is_digit (hd s) \<and> hd s \<noteq> CHR '',''"

definition settings_ok :: "(token \<times> string) list \<Rightarrow> bool" where
  "settings_ok ts \<longleftrightarrow> (\<forall>(t, g)\<in>set ts. tok_ok t \<and> gap_ok g \<and> stops g)"

lemma tok_text_head:
  "\<exists>v. tok_text (ConTok ds b) = con_head @ v" "\<exists>v. tok_text (SerTok xs ys) = ser_head @ v"
  by (cases b) auto

lemma stops_text: "stops g \<Longrightarrow> stops (defaults_text g ts)"
proof (cases ts)
  case (Cons t ts')
  assume g: "stops g"
  obtain tk g' where t: "t = (tk, g')" by (cases t)
  have "stops (tok_text tk @ r)" for r
  proof (cases tk)
    case (ConTok ds b)
    with tok_text_head(1) [of ds b] show ?thesis
      by (auto simp: stops_def con_head_def is_digit_def)
  next
    case (SerTok xs ys)
    with tok_text_head(2) [of xs ys] show ?thesis
      by (auto simp: stops_def ser_head_def is_digit_def)
  qed
  with g Cons t show ?thesis by (cases g) (auto simp: stops_def)
qed simp

text \<open>What a pass of replacements has to do with one token lifts to the whole file.\<close>

lemma no_overlaps: "no_overlap w h" if "w \<in> {con_head, ser_head}" "h \<in> {con_head, ser_head}"
proof -
  have "no_overlap con_head con_head" "no_overlap con_head ser_head" "no_overlap ser_head con_head"
    "no_overlap ser_head ser_head" by code_simp+
  with that show ?thesis by blast
qed

lemma defaults_pass:
  assumes w: "w \<in> {con_head, ser_head}" "\<And>s. \<not> HasPrefix s w \<Longrightarrow> m s = None"
    and step: "\<And>t r. tok_ok t \<Longrightarrow> stops r \<Longrightarrow>
      ReplaceMatches m tpl (tok_text t @ r) = tok_text (f t) @ ReplaceMatches m tpl r"
    and ok: "gap_ok g" "settings_ok ts"
  shows "ReplaceMatches m tpl (defaults_text g ts) = defaults_text g (map (\<lambda>(t, g). (f t, g)) ts)"
  using ok
proof (induction ts arbitrary: g)
  case Nil
  have "\<not> Contains g w" using Nil(1) w(1) by (auto simp: gap_ok_def)
  from ReplaceMatches_gap [OF this w(2), where r = "[]" and t = tpl] show ?case by simp
next
  case (Cons tg ts)
  obtain t g' where t: "tg = (t, g')" by (cases tg)
  have ok: "tok_ok t" "gap_ok g'" "stops g'" "settings_ok ts"
    using Cons.prems(2) t by (auto simp: settings_ok_def)
  have nc: "\<not> Contains g w" using Cons.prems(1) w(1) by (auto simp: gap_ok_def)
  obtain h where h: "h \<in> {con_head, ser_head}" "prefix h (tok_text t)"
    using tok_text_head by (cases t) (metis insertCI prefixI)+
  then have "prefix h (tok_text t @ defaults_text g' ts)" by simp
  with no_overlaps [OF w(1) h(1)]
  have "ReplaceMatches m tpl (g @ tok_text t @ defaults_text g' ts) = g @ ReplaceMatches m tpl (tok_text t @ defaults_text g' ts)"
    by (intro ReplaceMatches_gap [OF nc w(2)]) auto
  also have "\<dots> = g @ tok_text (f t) @ ReplaceMatches m tpl (defaults_text g' ts)"
    by (simp add: step [OF ok(1) stops_text [OF ok(3)]])
  finally show ?case using Cons.IH [OF ok(2,4)] t by simp
qed

lemma digits_takeWhile:
  assumes "digits ds" and "r = [] \<or> \<not> is_digit (hd r)"
  shows "takeWhile is_digit (ds @ r) = ds" and "dropWhile is_digit (ds @ r) = r"
proof -
  from assms(1) have "\<forall>c\<in>set ds. is_digit c" by (simp add: digits_def list_all_iff)
  with assms(2) show "takeWhile is_digit (ds @ r) = ds" "dropWhile is_digit (ds @ r) = r"
    by (cases r; simp add: takeWhile_append2 dropWhile_append2)+
qed

lemma cmdRe_token:
  assumes "tok_ok (ConTok ds b)" and "stops r"
  shows "\<exists>gs. cmdRe (tok_text (ConTok ds b) @ r) = Some gs \<and> matched gs = tok_text (ConTok ds b)"
proof (cases b)
  case None
  have d: "digits ds" using assms(1) by simp
  have r: "r = [] \<or> \<not> is_digit (hd r)" "\<not> HasPrefix r '',''"
    using assms(2) by (auto simp: stops_def HasPrefix_iff)
  from d have "ds \<noteq> []" by (simp add: digits_def)
  with None r(2) digits_takeWhile [OF d r(1)] show ?thesis
    by (simp add: cmdRe_def Let_def matched_def HasPrefix_iff)
next
  case (Some bs)
  have d: "digits ds" "digits bs" using assms(1) Some by simp_all
  have r: "r = [] \<or> \<not> is_digit (hd r)" using assms(2) by (auto simp: stops_def)
  have c: "CHR '','' # bs @ r = [] \<or> \<not> is_digit (hd (CHR '','' # bs @ r))" by (simp add: is_digit_def)
  from d have "ds \<noteq> []" "bs \<noteq> []" by (simp_all add: digits_def)
  with Some digits_takeWhile [OF d(1) c] digits_takeWhile [OF d(2) r] show ?thesis
    by (simp add: cmdRe_def Let_def matched_def HasPrefix_iff)
qed

lemma serialRe_token:
  assumes "tok_ok (SerTok xs ys)" and "stops r"
  shows "\<exists>gs. serialRe (tok_text (SerTok xs ys) @ r) = Some gs \<and> matched gs = tok_text (SerTok xs ys)"
proof -
  have d: "digits xs" "digits ys" using assms(1) by simp_all
  have r: "r = [] \<or> \<not> is_digit (hd r)" using assms(2) by (auto simp: stops_def)
  have c: "unit_flag @ ys @ r = [] \<or> \<not> is_digit (hd (unit_flag @ ys @ r))" by (simp add: unit_flag_def is_digit_def)
  from d have "xs \<noteq> []" "ys \<noteq> []" by (simp_all add: digits_def)
  with digits_takeWhile [OF d(1) c] digits_takeWhile [OF d(2) r] show ?thesis
    by (simp add: serialRe_def Let_def matched_def HasPrefix_iff)
qed

lemma serial_parts: "CHR ''c'' \<notin> set (tok_text (SerTok xs ys))" if "tok_ok (SerTok xs ys)"
proof -
  have "CHR ''c'' \<notin> set ds" if "digits ds" for ds
    using that by (auto simp: digits_def list_all_iff is_digit_def)
  with that show ?thesis by (simp add: ser_head_def unit_flag_def)
qed

lemma console_step:
  assumes "tok_ok t" and "stops r" and "CHR ''$'' \<notin> set tpl" and "tpl = tok_text (ConTok ds (Some bs))"
  shows "ReplaceMatches cmdRe tpl (tok_text t @ r) =
    tok_text (case t of ConTok _ _ \<Rightarrow> ConTok ds (Some bs) | SerTok xs ys \<Rightarrow> SerTok xs ys) @ ReplaceMatches cmdRe tpl r"
proof (cases t)
  case (ConTok ds' b')
  then obtain gs where gs: "cmdRe (tok_text t @ r) = Some gs" "matched gs = tok_text t"
    using cmdRe_token assms(1,2) by metis
  note gs
  moreover have "tok_text t \<noteq> []" using ConTok tok_text_head(1) [of ds' b'] by (auto simp: con_head_def)
  ultimately have "ReplaceMatches cmdRe tpl (tok_text t @ r) = Expand gs tpl @ ReplaceMatches cmdRe tpl r"
    by (intro ReplaceMatches_match)
  also have "Expand gs tpl = tpl" by (rule Expand_plain [OF assms(3)])
  finally show ?thesis using ConTok assms(4) by simp
next
  case (SerTok xs ys)
  have "cmdRe (c # y) = None" if "c \<in> set (tok_text t)" for c y
  proof -
    have "c \<noteq> CHR ''c''" using that serial_parts assms(1) SerTok by metis
    then show ?thesis by (simp add: cmdRe_def con_head_def HasPrefix_def)
  qed
  then show ?thesis using SerTok by (simp add: ReplaceMatches_skips)
qed

lemma serialRe_other: "\<not> HasPrefix s ser_head \<Longrightarrow> serialRe s = None"
  by (simp add: serialRe_def)

lemma cmdRe_other: "\<not> HasPrefix s con_head \<Longrightarrow> cmdRe s = None"
  by (simp add: cmdRe_def)

lemma serial_step:
  assumes "tok_ok t" and "stops r" and "CHR ''$'' \<notin> set tpl" and "tpl = tok_text (SerTok xs ys)"
  shows "ReplaceMatches serialRe tpl (tok_text t @ r) =
    tok_text (case t of ConTok ds b \<Rightarrow> ConTok ds b | SerTok _ _ \<Rightarrow> SerTok xs ys) @ ReplaceMatches serialRe tpl r"
proof (cases t)
  case (ConTok ds b)
  define rest where "rest = ds @ (case b of None \<Rightarrow> [] | Some bs \<Rightarrow> CHR '','' # bs)"
  have shape: "tok_text t = con_head @ rest" using ConTok by (simp add: rest_def split: option.split)
  have "CHR ''s'' \<notin> set ds" if "digits ds" for ds
    using that by (auto simp: digits_def list_all_iff is_digit_def)
  then have no_s: "CHR ''s'' \<notin> set rest" using assms(1) ConTok by (auto simp: rest_def split: option.splits)
  have "serialRe (c # y) = None" if "c \<in> set rest" for c y
    using that no_s by (intro serialRe_other) (auto simp: ser_head_def HasPrefix_def)
  then have 1: "ReplaceMatches serialRe tpl (rest @ r) = rest @ ReplaceMatches serialRe tpl r"
    by (rule ReplaceMatches_skips)
  have "ReplaceMatches serialRe tpl (con_head @ x) = con_head @ ReplaceMatches serialRe tpl x" for x
    by (simp add: con_head_def ReplaceMatches_skip serialRe_other ser_head_def HasPrefix_def)
  with 1 shape show ?thesis using ConTok by simp
next
  case (SerTok xs' ys')
  then obtain gs where gs: "serialRe (tok_text t @ r) = Some gs" "matched gs = tok_text t"
    using serialRe_token assms(1,2) by metis
  note gs
  moreover have "tok_text t \<noteq> []" using SerTok by (simp add: ser_head_def)
  ultimately have "ReplaceMatches serialRe tpl (tok_text t @ r) = Expand gs tpl @ ReplaceMatches serialRe tpl r"
    by (intro ReplaceMatches_match)
  also have "Expand gs tpl = tpl" by (rule Expand_plain [OF assms(3)])
  finally show ?thesis using SerTok assms(4) by simp
qed

text \<open>The unit of a serial device.\<close>

lemma ttyUnit_plain: "u < 2 ^ 63 \<Longrightarrow> ttyUnit (''ttyS'' @ FormatUint u) = int u"
proof -
  assume u: "u < 2 ^ 63"
  obtain c cs where fu: "FormatUint u = c # cs" by (cases "FormatUint u") auto
  then have d: "\<forall>x\<in>set (c # cs). is_digit x" using FormatUint_is_digit by metis
  then have "\<not> scan_blank c" "c \<noteq> CHR ''-''" "c \<noteq> CHR ''+''" by (auto simp: scan_blank_def is_digit_def)
  moreover have "takeWhile is_digit (c # cs) = c # cs" using d by (simp add: takeWhile_eq_all_conv)
  moreover have "ParseInt64 (c # cs) 10 = Some (int u)" using Atoi_FormatUint [OF u] fu by (simp add: Atoi_def)
  ultimately have "scan_int (FormatUint u) = int u" by (simp add: scan_int_def fu Let_def)
  then show ?thesis by (simp add: ttyUnit_def TrimPrefix_def)
qed

lemma settings_configure:
  "settings_ok ts \<Longrightarrow> (\<And>t. tok_ok t \<Longrightarrow> tok_ok (f t)) \<Longrightarrow> settings_ok (map (\<lambda>(t, g). (f t, g)) ts)"
  by (fastforce simp: settings_ok_def)

lemma digits_FormatUint: "digits (FormatUint n)"
  by (simp add: digits_def list_all_iff FormatUint_is_digit)

lemma configure_ok: "tok_ok (configure u b t)"
  by (cases t) (simp_all add: digits_FormatUint)

lemma plain_text: "CHR ''$'' \<notin> set (tok_text (ConTok (FormatUint u) (Some (FormatUint b))))"
  "CHR ''$'' \<notin> set (tok_text (SerTok (FormatUint b) (FormatUint u)))"
proof -
  have "CHR ''$'' \<notin> set (FormatUint n)" for n
    using FormatUint_is_digit [of "CHR ''$''" n] by (auto simp: is_digit_def)
  then show "CHR ''$'' \<notin> set (tok_text (ConTok (FormatUint u) (Some (FormatUint b))))"
    "CHR ''$'' \<notin> set (tok_text (SerTok (FormatUint b) (FormatUint u)))"
    by (simp_all add: con_head_def ser_head_def unit_flag_def)
qed

lemma rewrite_settings:
  assumes "con_TTY c = ''ttyS'' @ FormatUint u" and "u < 2 ^ 63" and "baud_of c = int b"
    and "gap_ok g" and "settings_ok ts"
  shows "RewriteGrubDefaults (defaults_text g ts) (Some c) =
    defaults_text g (map (\<lambda>(t, g). (configure u b t, g)) ts)"
proof -
  let ?con = "ConTok (FormatUint u) (Some (FormatUint b))" and ?ser = "SerTok (FormatUint b) (FormatUint u)"
  let ?f1 = "\<lambda>t. case t of ConTok _ _ \<Rightarrow> ?con | SerTok xs ys \<Rightarrow> SerTok xs ys"
  let ?f2 = "\<lambda>t. case t of ConTok ds bs \<Rightarrow> ConTok ds bs | SerTok _ _ \<Rightarrow> ?ser"
  have t1: "Sprintf ''console=%s,%d'' [con_TTY c, Itoa (baud_of c)] = tok_text ?con"
    using assms(1,3) by (simp add: con_head_def Itoa_def)
  have t2: "Sprintf ''serial --speed=%d --unit=%d'' [Itoa (baud_of c), Itoa (ttyUnit (con_TTY c))] = tok_text ?ser"
    using assms(1,3) ttyUnit_plain [OF assms(2)] by (simp add: ser_head_def unit_flag_def Itoa_def)
  have ok1: "tok_ok (?f1 t)" if "tok_ok t" for t
    using that by (cases t) (simp_all add: digits_FormatUint)
  have p1: "ReplaceMatches cmdRe (tok_text ?con) (defaults_text g ts) = defaults_text g (map (\<lambda>(t, g). (?f1 t, g)) ts)"
    by (rule defaults_pass [of con_head]) (use assms(4,5) plain_text(1) in \<open>auto intro: cmdRe_other console_step\<close>)
  have p2: "ReplaceMatches serialRe (tok_text ?ser) (defaults_text g (map (\<lambda>(t, g). (?f1 t, g)) ts))
      = defaults_text g (map (\<lambda>(t, g). (?f2 t, g)) (map (\<lambda>(t, g). (?f1 t, g)) ts))"
    by (rule defaults_pass [of ser_head])
      (use assms(4) settings_configure [OF assms(5) ok1] plain_text(2) in \<open>auto intro: serialRe_other serial_step\<close>)
  have "?f2 (?f1 t) = configure u b t" for t by (cases t) simp_all
  then have "map (\<lambda>(t, g). (?f2 t, g)) (map (\<lambda>(t, g). (?f1 t, g)) ts) = map (\<lambda>(t, g). (configure u b t, g)) ts"
    by (simp add: case_prod_beta comp_def)
  moreover have "con_TTY c \<noteq> []" using assms(1) by simp
  ultimately show ?thesis
    by (simp only: RewriteGrubDefaults_def Let_def option.case if_False t1 t2 p1 p2)
qed



subsection \<open>The order of the action\<close>

definition serial_call :: "call \<Rightarrow> bool" where
  "serial_call c =
     (case c of
        ReadFile p \<Rightarrow> p = grubDefaults
      | WriteFile p d m \<Rightarrow> p = grubDefaults \<and> m = mode_0644
      | Run p args inp \<Rightarrow> p = ''grub-mkconfig'' \<and> args = [''-o'', grubCfg] \<and> inp = None
      | Chmod p m \<Rightarrow> p = grubCfg \<and> m = mode_0644
      | _ \<Rightarrow> False)"

definition console_gate :: "kernel \<Rightarrow> Metadata \<Rightarrow> call list option" where
  "console_gate k md =
     (case inst_Console (md_Instance md) of
        None \<Rightarrow> None
      | Some c \<Rightarrow> if con_TTY c = [] then None
          else Some (root_gate k ''BLOCK_DEVICE'' ''FS_TYPE'' (Filesystems (inst_Storage (md_Instance md)))))"

definition configure_grub :: "Console option \<Rightarrow> unit act" where
  "configure_grub c =
     bind (sys_read grubDefaults) (\<lambda>r.
     case r of
       Inl err \<Rightarrow> log_fatal
     | Inr inp \<Rightarrow>
         andThen (must_ok (sys (WriteFile grubDefaults (RewriteGrubDefaults inp c) mode_0644)))
        (andThen (must_ok (sys (Run ''grub-mkconfig'' [''-o'', grubCfg] None)))
        (ignore (sys (Chmod grubCfg mode_0644)))))"

lemma configure_grub_emits: "emits serial_call (configure_grub c)"
  unfolding configure_grub_def by (intro emits_intros) (simp_all add: serial_call_def)

interpretation sc: rooted_action serial_console must_metadata console_gate
    "\<lambda>k md. configure_grub (inst_Console (md_Instance md))" is_http serial_call "''BLOCK_DEVICE''" "''FS_TYPE''"
proof
  fix d k t
  show "serial_console d k t = bind (must_metadata d) (\<lambda>m k t. case console_gate k m of
      None \<Rightarrow> (Ret (), t) | Some cs \<Rightarrow> andThen (must_all cs) (configure_grub (inst_Console (md_Instance m))) k t) k t"
    unfolding serial_console_def
    by (rule bind_same) (simp add: getenv_bind must_Enter console_gate_def configure_grub_def ret_def split: option.split)
qed (auto intro: must_metadata_emits configure_grub_emits root_gate_enters simp: console_gate_def split: option.splits if_splits)

text \<open>
  The action asks the metadata service, enters the new root, and only there reads and
  rewrites the GRUB defaults and regenerates the configuration; it touches no other file.
\<close>

theorem serial_console_phases: "phases [is_http, enter_call, serial_call] (serial_console decode)"
proof -
  have go: "phases [enter_call, serial_call]
      (andThen (must_ok (Enter dev fs x))
        (bind (sys_read grubDefaults) (\<lambda>r. case r of Inl err \<Rightarrow> log_fatal
         | Inr inp \<Rightarrow> andThen (must_ok (sys (WriteFile grubDefaults (RewriteGrubDefaults inp (Some c)) mode_0644)))
            (andThen (must_ok (sys (Run ''grub-mkconfig'' [''-o'', grubCfg] None))) (ignore (sys (Chmod grubCfg mode_0644)))))))"
    for dev fs x c
    by (intro phases_emits_andThen phases_emits emits_must_ok Enter_calls emits_intros) (simp_all add: serial_call_def)
  show ?thesis
    unfolding serial_console_def
    by (intro phases_emits_bind must_metadata_emits)
      (auto simp: phases_ret intro!: phases_getenv go split: option.split)
qed

end
