(* ===== verification/Bootsector.thy ===== *)
theory Bootsector
  imports GoIO
begin

text \<open>
  Two small actions that work on a raw block device: \<open>syslinux\<close> (\<open>syslinux/main.go\<close>), which
  writes a master boot record and runs the SYSLINUX installer, and the Go part of
  \<open>qemuimg2disk\<close> (\<open>qemuimg2disk/main.go\<close>), which makes the kernel read the partition table again.
\<close>

subsection \<open>SYSLINUX\<close>

definition ReReadPartitionTable :: "string \<Rightarrow> goerr option act" where
  "ReReadPartitionTable d =
     check (sys (BlkRRPart d)) (Wrapf ''unable to re-read partition table: %w'' []) (ret None)"

definition mbr_file :: string where "mbr_file = ''/mbr.bin.386''"

definition installer :: string where "installer = ''/syslinux.386''"

text \<open>Reading the open file of the boot record is one \<open>ReadFile\<close>.\<close>

definition syslinux386 :: "string \<Rightarrow> string \<Rightarrow> unit act" where
  "syslinux386 disk part =
     andThen (must_ok (sys (OpenFile disk [O_CREATE, O_WRONLY] mode_0644)))
    (andThen (ignore (ReReadPartitionTable disk))
    (with_defer (ignore (sys (Close disk)))
      (andThen (must_ok (sys (OpenFile mbr_file [O_RDONLY] mode_0644)))
      (with_defer (ignore (sys (Close mbr_file)))
        (bind (sys_read mbr_file) (\<lambda>r.
         case r of
           Inl err \<Rightarrow> log_fatal
         | Inr data \<Rightarrow>
             andThen (must_ok (copy_to disk (data, EOF)))
            (bind (sys_stat part) (\<lambda>st.
             case st of
               Inl err \<Rightarrow> log_fatal
             | Inr info \<Rightarrow>
                 andThen (must_ok (sys (Start installer [part])))
                   (must_ok (sys (Wait installer [part]))))))))))) "

definition syslinux :: "unit act" where
  "syslinux =
     bind (getenv ''DEST_DISK'') (\<lambda>disk.
     bind (getenv ''DEST_PARTITION'') (\<lambda>part.
     bind (getenv ''SYSLINUX_VERSION'') (\<lambda>ver.
     if ver = ''386'' \<or> ver = ''3.86'' then syslinux386 disk part else log_fatal)))"

definition record_call :: "string \<Rightarrow> call \<Rightarrow> bool" where
  "record_call disk c =
     (case c of
        OpenFile p fl m \<Rightarrow> p = disk \<and> fl = [O_CREATE, O_WRONLY] \<or> p = mbr_file \<and> fl = [O_RDONLY]
      | BlkRRPart p \<Rightarrow> p = disk
      | ReadFile p \<Rightarrow> p = mbr_file
      | WriteBytes p d \<Rightarrow> p = disk
      | _ \<Rightarrow> False)"

definition install_call :: "string \<Rightarrow> call \<Rightarrow> bool" where
  "install_call part c =
     (case c of
        Stat p \<Rightarrow> p = part
      | Start p args \<Rightarrow> p = installer \<and> args = [part]
      | Wait p args \<Rightarrow> p = installer \<and> args = [part]
      | _ \<Rightarrow> False)"

abbreviation (input) run_installer :: "string \<Rightarrow> unit act" where
  "run_installer part \<equiv> bind (sys_stat part) (\<lambda>st.
     case st of Inl err \<Rightarrow> log_fatal
     | Inr info \<Rightarrow> andThen (must_ok (sys (Start installer [part]))) (must_ok (sys (Wait installer [part]))))"

abbreviation (input) write_record :: "string \<Rightarrow> string \<Rightarrow> unit act" where
  "write_record disk part \<equiv> bind (sys_read mbr_file) (\<lambda>r.
     case r of Inl err \<Rightarrow> log_fatal
     | Inr data \<Rightarrow> andThen (must_ok (copy_to disk (data, EOF))) (run_installer part))"

lemma write_record_phases: "phases [record_call disk, install_call part] (write_record disk part)"
proof (rule phases_merge_bind)
  show "emits (record_call disk) (sys_read mbr_file)"
    by (intro emits_intros) (simp add: record_call_def)
next
  fix r :: "goerr + string"
  have "emits (record_call disk) (must_ok (copy_to disk (d, EOF)))" for d
    by (intro emits_must_ok copy_to_emits) (simp add: record_call_def)
  moreover have "emits (install_call part) (run_installer part)"
    by (intro emits_intros) (simp_all add: install_call_def)
  ultimately show "phases [record_call disk, install_call part]
      (case r of Inl err \<Rightarrow> log_fatal
       | Inr data \<Rightarrow> andThen (must_ok (copy_to disk (data, EOF))) (run_installer part))"
    by (cases r) (simp_all add: phases_fatal phases_emits_andThen phases_emits)
qed

text \<open>
  The boot loader installer is started only after the boot record has been written to the disk
  in full: in every run, whatever the kernel answers, the calls come in the order of the source,
  the record's bytes before the check of the partition, and that before the installer.
\<close>

theorem syslinux386_phases:
  "phases [record_call disk, install_call part, \<lambda>c. c = Close mbr_file, \<lambda>c. c = Close disk] (syslinux386 disk part)"
proof -
  have close: "emits (\<lambda>c. c = Close p) (ignore (sys (Close p)))" for p
    by (intro emits_ignore emits_sys) simp
  have op: "emits (record_call disk) (must_ok (sys (OpenFile disk [O_CREATE, O_WRONLY] mode_0644)))"
    "emits (record_call disk) (must_ok (sys (OpenFile mbr_file [O_RDONLY] mode_0644)))"
    "emits (record_call disk) (ignore (ReReadPartitionTable disk))"
    unfolding ReReadPartitionTable_def
    by (intro emits_intros; simp add: record_call_def)+
  from phases_with_defer [OF write_record_phases close] have two:
    "phases [record_call disk, install_call part, \<lambda>c. c = Close mbr_file]
      (with_defer (ignore (sys (Close mbr_file))) (write_record disk part))"
    by simp
  from phases_with_defer [OF phases_merge [OF op(2) two] close [of disk]] show ?thesis
    unfolding syslinux386_def by (intro phases_merge op) simp
qed

subsection \<open>Reading the partition table again\<close>

text \<open>
  \<open>main\<close> prints its errors and returns, so they are not visible in the exit status.  The deferred
  \<open>Close\<close> is registered before the error of the \<open>OpenFile\<close> is tested; on a nil file it does nothing.
\<close>

definition qemuimg2disk :: "unit act" where
  "qemuimg2disk =
     bind (getenv ''DEST_DISK'') (\<lambda>disk.
     bind (sys (OpenFile disk [O_CREATE, O_WRONLY] mode_0644)) (\<lambda>e.
     case e of
       Some err \<Rightarrow> ret ()
     | None \<Rightarrow>
         with_defer (ignore (sys (Close disk)))
           (bind (sys (Sync disk)) (\<lambda>e.
            case e of
              Some err \<Rightarrow> ret ()
            | None \<Rightarrow> ignore (sys (BlkRRPart disk))))))"

text \<open>
  The program ends with status 0 whatever happens: when the device cannot be opened or synced
  the partition table is not read again, and the process reports success all the same.
\<close>

theorem qemuimg2disk_always_succeeds:
  "let disk = env k ''DEST_DISK''; op = OpenFile disk [O_CREATE, O_WRONLY] mode_0644 in
   qemuimg2disk k t = (Ret (), t @
     (if k_err k t op \<noteq> None then [op]
      else if k_err k (t @ [op]) (Sync disk) \<noteq> None then [op, Sync disk, Close disk]
      else [op, Sync disk, BlkRRPart disk, Close disk]))"
  unfolding qemuimg2disk_def getenv_bind Let_def
  by (simp add: sys_bind with_defer_def ignore_sys ret_apply split: option.split)

end
