(* ===== verification/Slurp.thy ===== *)
theory Slurp
  imports Counters
begin

text \<open>
  The \<open>slurp\<close> action, which uploads a block device (\<open>slurp/main.go\<close>, \<open>slurp/image/image.go\<close>).  The upload runs two goroutines that meet at a pipe and at
  an unbuffered channel; it is a step relation on their program points.
\<close>

subsection \<open>The upload\<close>

text \<open>
  What an upload is about: the bytes the multipart writer puts before and behind the data, the
  device (the error of opening it, or the stream it reads as), what a gzip writer makes of the
  data, if compression is on, before and at its \<open>Close\<close>, and whether the server answers before
  it has read the whole request.
\<close>

record upload =
  up_part :: string
  up_end :: string
  up_path :: string
  up_disk :: "goerr + stream"
  up_gzip :: "(string \<times> string) option"
  up_early :: bool

text \<open>The counter that the package declares for copies.\<close>

definition slurp_WriteCounter_Write :: "WriteCounter \<Rightarrow> string \<Rightarrow> WriteCounter \<times> nat \<times> goerr option" where
  "slurp_WriteCounter_Write wc p = (let n = length p in (wc\<lparr>Total := Total wc + of_nat n\<rparr>, n, None))"

interpretation uc: byte_counter "\<lambda>c p. fst (slurp_WriteCounter_Write c p)" Total length
  by unfold_locales (simp add: slurp_WriteCounter_Write_def Let_def)

text \<open>
  How the upload is set up.  \<open>b\<close> is the random boundary of the form, \<open>gz\<close> the output of a gzip
  writer, before and at its \<open>Close\<close>; a URL that cannot be parsed ends the upload at once.
\<close>

definition image_name :: "string \<Rightarrow> bool \<Rightarrow> string" where
  "image_name name compressed =
     (if \<not> compressed then Sprintf ''%s.img'' [name] else Sprintf ''%s.img.gz'' [name])"

definition CRLF :: string where "CRLF = [CHR 0x0D, CHR 0x0A]"

definition quoted :: "string \<Rightarrow> string" where
  "quoted s = CHR 0x22 # concat (map (\<lambda>c. if c = CHR 0x22 \<or> c = CHR 0x5C then [CHR 0x5C, c] else [c]) s) @ [CHR 0x22]"

definition part_header :: "string \<Rightarrow> string \<Rightarrow> string" where
  "part_header b key =
     ''--'' @ b @ CRLF @ ''Content-Disposition: form-data; name='' @ quoted ''BootyImage'' @ ''; filename='' @ quoted key @ CRLF
     @ ''Content-Type: application/octet-stream'' @ CRLF @ CRLF"

definition form_end :: "string \<Rightarrow> string" where
  "form_end b = CRLF @ ''--'' @ b @ ''--'' @ CRLF"

definition new_upload :: "kernel \<Rightarrow> string \<Rightarrow> (string \<Rightarrow> goerr + stream) \<Rightarrow> (string \<Rightarrow> string \<times> string) \<Rightarrow> bool
    \<Rightarrow> string \<Rightarrow> string \<Rightarrow> string \<Rightarrow> bool \<Rightarrow> goerr + upload" where
  "new_upload k b open_disk gz early uri key path compressed =
     (case k_badurl k uri of
        Some err \<Rightarrow> Inl err
      | None \<Rightarrow> Inr \<lparr>up_part = part_header b key, up_end = form_end b, up_path = path, up_disk = open_disk path,
          up_gzip = (if compressed then (case open_disk path of Inl e \<Rightarrow> Some ([], []) | Inr s \<Rightarrow> Some (gz (fst s))) else None),
          up_early = early\<rparr>)"

text \<open>
  The program points of the copying goroutine: the writes of the part header, the data, the gzip
  trailer and the end of the form, opening the device, sending an error on \<open>errchan\<close>, and the
  deferred calls.
\<close>

datatype gpc =
    GHeader | GOpen | GCopy | GFlush | GClose
  | GSend goerr
  | GCloseAgain | GCloseWriter | GCloseChan | GDone

text \<open>
  The HTTP transport: connecting, reading the body from the pipe, waiting for the answer after
  the end of the body, and over, when it has closed the body.  The main goroutine: inside
  \<open>client.Do\<close>, waiting on \<open>errchan\<close> with the outcome of \<open>Do\<close> (an error or a status), and
  returned with an error or none.
\<close>

datatype tpc = TDial | TSend | TWait | TOver
datatype mpc = MDo | MRecv "goerr + nat" | MEnd "goerr option"

text \<open>
  The transport only moves forward; \<open>t_rank\<close> is how far it still has to go, and the program points
  are ordered by it, from \<^const>\<open>TDial\<close> to \<^const>\<open>TOver\<close>.
\<close>

fun t_rank :: "tpc \<Rightarrow> nat" where
  "t_rank TDial = 3" | "t_rank TSend = 2" | "t_rank TWait = 1" | "t_rank TOver = 0"

lemma t_rank_inj: "t_rank a = t_rank b \<longleftrightarrow> a = b"
  by (cases a; cases b) simp_all

instantiation tpc :: "{linorder, order_top}"
begin

definition less_eq_tpc :: "tpc \<Rightarrow> tpc \<Rightarrow> bool" where
  "less_eq_tpc a b \<longleftrightarrow> t_rank b \<le> t_rank a"

definition less_tpc :: "tpc \<Rightarrow> tpc \<Rightarrow> bool" where
  "less_tpc a b \<longleftrightarrow> t_rank b < t_rank a"

definition top_tpc :: tpc where
  "top_tpc = TOver"

instance
  by standard (auto simp: less_eq_tpc_def less_tpc_def top_tpc_def t_rank_inj)

end

record ustate =
  gp :: gpc
  tp :: tpc
  mp :: mpc
  sent :: string

definition start_upload :: ustate where
  "start_upload = \<lparr>gp = GHeader, tp = TDial, mp = MDo, sent = []\<rparr>"

definition nil_error :: "goerr option \<Rightarrow> string" where
  "nil_error e = (case e of None \<Rightarrow> ''%!w(<nil>)'' | Some err \<Rightarrow> ErrorText err)"

definition upload_result :: "goerr + nat \<Rightarrow> goerr option \<Rightarrow> goerr option" where
  "upload_result r merr =
     (let err = (case r of Inl e \<Rightarrow> Some e | Inr status \<Rightarrow> None) in
      if err \<noteq> None \<or> merr \<noteq> None
      then Some (Errorf ''http error: %w, multipart error: %w'' [nil_error err, nil_error merr])
      else None)"

text \<open>The bytes of a write, and where the goroutine goes when it succeeds and when it fails.\<close>

definition copy_data :: "upload \<Rightarrow> string" where
  "copy_data u =
     (case up_disk u of
        Inl e \<Rightarrow> []
      | Inr s \<Rightarrow> (case up_gzip u of None \<Rightarrow> fst s | Some (z, trailer) \<Rightarrow> z))"

definition copy_error :: "upload \<Rightarrow> nat \<Rightarrow> goerr \<Rightarrow> goerr" where
  "copy_error u written = Wrapf ''error copying %s (%d bytes written): %w'' [up_path u, FormatUint written]"

definition after_copy :: "upload \<Rightarrow> gpc" where
  "after_copy u =
     (case up_disk u of
        Inl e \<Rightarrow> GSend e
      | Inr s \<Rightarrow>
          if snd s \<noteq> EOF then GSend (copy_error u (length (fst s)) (snd s))
          else if up_gzip u = None then GClose else GFlush)"

fun writes :: "upload \<Rightarrow> gpc \<Rightarrow> (string \<times> gpc \<times> gpc) option" where
  "writes u GHeader = Some (up_part u, GOpen, GSend (SysErr ''io: read/write on closed pipe''))"
| "writes u GCopy = Some (copy_data u, after_copy u,
     GSend (copy_error u 0 (SysErr ''io: read/write on closed pipe'')))"
| "writes u GFlush = Some (case up_gzip u of None \<Rightarrow> [] | Some (z, trailer) \<Rightarrow> trailer, GClose, GClose)"
| "writes u GClose = Some (up_end u, GCloseAgain, GSend (SysErr ''io: read/write on closed pipe''))"
| "writes u GCloseAgain = Some (up_end u, GCloseWriter, GCloseWriter)"
| "writes u _ = None"

text \<open>
  The steps.  A write to the pipe waits until the transport reads, and fails once it has closed
  the body.  \<open>errchan <- err\<close> waits until the main goroutine receives, and the receive from the
  closed channel gives nil.
\<close>

inductive ustep :: "upload \<Rightarrow> ustate \<Rightarrow> ustate \<Rightarrow> bool" for u where
  connect: "tp s = TDial \<Longrightarrow> ustep u s (s\<lparr>tp := TSend\<rparr>)"
| write_ok: "writes u (gp s) = Some (bytes, next, bad) \<Longrightarrow> tp s = TSend \<Longrightarrow>
    ustep u s (s\<lparr>gp := next, sent := sent s @ bytes\<rparr>)"
| write_closed: "writes u (gp s) = Some (bytes, next, bad) \<Longrightarrow> tp s = TOver \<Longrightarrow> ustep u s (s\<lparr>gp := bad\<rparr>)"
| open_ok: "gp s = GOpen \<Longrightarrow> up_disk u = Inr d \<Longrightarrow> ustep u s (s\<lparr>gp := GCopy\<rparr>)"
| open_fail: "gp s = GOpen \<Longrightarrow> up_disk u = Inl err \<Longrightarrow> ustep u s (s\<lparr>gp := GSend err\<rparr>)"
| send_error: "gp s = GSend err \<Longrightarrow> mp s = MRecv r \<Longrightarrow>
    ustep u s (s\<lparr>gp := GCloseAgain, mp := MEnd (upload_result r (Some err))\<rparr>)"
| close_writer: "gp s = GCloseWriter \<Longrightarrow>
    ustep u s (s\<lparr>gp := GCloseChan, tp := (if tp s = TSend then TWait else tp s)\<rparr>)"
| close_chan: "gp s = GCloseChan \<Longrightarrow> ustep u s (s\<lparr>gp := GDone\<rparr>)"
| recv_closed: "gp s = GDone \<Longrightarrow> mp s = MRecv r \<Longrightarrow> ustep u s (s\<lparr>mp := MEnd (upload_result r None)\<rparr>)"
| answer: "tp s = TWait \<Longrightarrow> mp s = MDo \<Longrightarrow> ustep u s (s\<lparr>tp := TOver, mp := MRecv (Inr status)\<rparr>)"
| early_answer: "up_early u \<Longrightarrow> tp s = TSend \<Longrightarrow> mp s = MDo \<Longrightarrow> ustep u s (s\<lparr>mp := MRecv (Inr status)\<rparr>)"

text \<open>What the network can do on top: fail before the answer, or stop reading after an early one.\<close>

inductive nstep :: "upload \<Rightarrow> ustate \<Rightarrow> ustate \<Rightarrow> bool" for u where
  program: "ustep u s s' \<Longrightarrow> nstep u s s'"
| fail: "tp s \<noteq> TOver \<Longrightarrow> mp s = MDo \<Longrightarrow> nstep u s (s\<lparr>tp := TOver, mp := MRecv (Inl err)\<rparr>)"
| hang_up: "tp s \<noteq> TOver \<Longrightarrow> mp s \<noteq> MDo \<Longrightarrow> nstep u s (s\<lparr>tp := TOver\<rparr>)"

inductive_cases ustepE: "ustep u s s'"
inductive_cases nstepE: "nstep u s s'"

abbreviation reaches :: "upload \<Rightarrow> ustate \<Rightarrow> bool" where
  "reaches u s \<equiv> (ustep u)\<^sup>*\<^sup>* start_upload s"

abbreviation nreaches :: "upload \<Rightarrow> ustate \<Rightarrow> bool" where
  "nreaches u s \<equiv> (nstep u)\<^sup>*\<^sup>* start_upload s"

text \<open>The transport never goes back; in particular a closed body stays closed.\<close>

lemma transport_forward: "nstep u s s' \<Longrightarrow> tp s \<le> tp s'"
  by (auto simp: less_eq_tpc_def elim!: nstepE ustepE)

lemma transport_order: "(nstep u)\<^sup>*\<^sup>* s s' \<Longrightarrow> tp s \<le> tp s'"
  by (induction rule: rtranclp_induct) (auto dest: transport_forward)

lemma transport_over: "(nstep u)\<^sup>*\<^sup>* s s' \<Longrightarrow> tp s = TOver \<Longrightarrow> tp s' = TOver"
  using transport_order top_unique [of "tp s'"] by (force simp: top_tpc_def)

text \<open>The complete request: the part header, all data, and the end of the form.\<close>

definition payload :: "upload \<Rightarrow> string" where
  "payload u =
     (case up_disk u of
        Inl e \<Rightarrow> []
      | Inr s \<Rightarrow> (case up_gzip u of None \<Rightarrow> fst s | Some (z, trailer) \<Rightarrow> z @ trailer))"

subsection \<open>Success\<close>

text \<open>
  The invariant: how much has been sent at each program point as long as no error has come up;
  \<open>sound u\<close> says that the device opened and was read to its end.
\<close>

definition sound :: "upload \<Rightarrow> bool" where
  "sound u \<longleftrightarrow> (case up_disk u of Inl e \<Rightarrow> False | Inr s \<Rightarrow> snd s = EOF)"

definition whole :: "upload \<Rightarrow> string" where
  "whole u = up_part u @ payload u @ up_end u"

definition tail_sent :: "upload \<Rightarrow> ustate \<Rightarrow> bool" where
  "tail_sent u s \<longleftrightarrow> sound u \<and> (sent s = whole u \<or> sent s = whole u @ up_end u)"

definition upload_inv :: "upload \<Rightarrow> ustate \<Rightarrow> bool" where
  "upload_inv u s \<longleftrightarrow>
     (case mp s of MEnd (Some e) \<Rightarrow> True
      | MEnd None \<Rightarrow> gp s = GDone \<and> tail_sent u s
      | _ \<Rightarrow>
     (case gp s of
        GHeader \<Rightarrow> sent s = []
      | GOpen \<Rightarrow> sent s = up_part u
      | GCopy \<Rightarrow> sent s = up_part u \<and> (\<exists>d. up_disk u = Inr d)
      | GFlush \<Rightarrow> sent s = up_part u @ copy_data u \<and> sound u \<and> up_gzip u \<noteq> None
      | GClose \<Rightarrow> sound u \<and> (tp s = TOver \<or> sent s = up_part u @ payload u)
      | GSend e \<Rightarrow> True
      | GCloseAgain \<Rightarrow> sound u \<and> sent s = whole u
      | _ \<Rightarrow> tail_sent u s))"

lemma inv_start: "upload_inv u start_upload"
  by (simp add: upload_inv_def start_upload_def)

lemma upload_result_None: "upload_result r (Some e) \<noteq> None" "upload_result r None = None \<longleftrightarrow> (\<exists>st. r = Inr st)"
  by (auto simp: upload_result_def Let_def split: sum.split)

lemma after_copy_cases:
  assumes "up_disk u = Inr d"
  obtains e where "after_copy u = GSend e"
  | "after_copy u = GClose" "sound u" "up_gzip u = None" "copy_data u = payload u"
  | "after_copy u = GFlush" "sound u" "up_gzip u \<noteq> None"
  using assms by (cases "snd d = EOF"; cases "up_gzip u") (auto simp: after_copy_def sound_def copy_data_def payload_def)

lemma payload_gzip: "up_gzip u = Some (z, tr) \<Longrightarrow> sound u \<Longrightarrow> copy_data u @ tr = payload u"
  by (auto simp: sound_def copy_data_def payload_def split: sum.splits)

text \<open>What a write does, program point by program point.\<close>

lemma writes_cases:
  assumes "writes u g = Some (bytes, next, bad)"
  obtains "g = GHeader" "bytes = up_part u" "next = GOpen" "\<exists>e. bad = GSend e"
  | "g = GCopy" "bytes = copy_data u" "next = after_copy u" "\<exists>e. bad = GSend e"
  | "g = GFlush" "next = GClose" "bad = GClose" "\<And>z tr. up_gzip u = Some (z, tr) \<Longrightarrow> bytes = tr"
  | "g = GClose" "bytes = up_end u" "next = GCloseAgain" "\<exists>e. bad = GSend e"
  | "g = GCloseAgain" "bytes = up_end u" "next = GCloseWriter" "bad = GCloseWriter"
  using assms by (cases g) auto

lemma inv_write_ok:
  assumes "writes u (gp s) = Some (bytes, next, bad)" and "tp s = TSend" and "upload_inv u s"
  shows "upload_inv u (s\<lparr>gp := next, sent := sent s @ bytes\<rparr>)"
proof -
  have main: "upload_inv u (s\<lparr>gp := next, sent := sent s @ bytes\<rparr>)" if m: "\<And>e. mp s \<noteq> MEnd e"
    using assms(1)
  proof (cases rule: writes_cases)
    case 1
    then show ?thesis using assms(3) m by (auto simp: upload_inv_def split: mpc.splits)
  next
    case 2
    with assms(3) m have "sent s = up_part u" "\<exists>d. up_disk u = Inr d" by (auto simp: upload_inv_def split: mpc.splits)
    then obtain d where d: "up_disk u = Inr d" by blast
    from d show ?thesis
      by (rule after_copy_cases)
        (use 2 m \<open>sent s = up_part u\<close> in \<open>auto simp: upload_inv_def split: mpc.splits\<close>)
  next
    case 3
    with assms(3) m have sd: "sound u" "sent s = up_part u @ copy_data u" and "up_gzip u \<noteq> None"
      by (auto simp: upload_inv_def split: mpc.splits)
    then obtain z tr where z: "up_gzip u = Some (z, tr)" by auto
    with 3 sd payload_gzip [OF z sd(1)] m show ?thesis
      by (auto simp: upload_inv_def split: mpc.splits)
  next
    case 4
    then show ?thesis using assms(2,3) m by (auto simp: upload_inv_def whole_def split: mpc.splits)
  next
    case 5
    then show ?thesis using assms(3) m by (auto simp: upload_inv_def tail_sent_def split: mpc.splits)
  qed
  have ended: "gp s = GDone" if "mp s = MEnd None"
    using assms(3) that by (simp add: upload_inv_def)
  show ?thesis
  proof (cases "mp s")
    case (MEnd e)
    with ended assms(1) show ?thesis by (cases e) (auto simp: upload_inv_def)
  qed (simp_all add: main)
qed

lemma inv_write_closed:
  assumes "writes u (gp s) = Some (bytes, next, bad)" and "tp s = TOver" and "upload_inv u s"
  shows "upload_inv u (s\<lparr>gp := bad\<rparr>)"
proof -
  have main: "upload_inv u (s\<lparr>gp := bad\<rparr>)" if m: "\<And>e. mp s \<noteq> MEnd e"
    using assms(1)
    by (cases rule: writes_cases) (use assms(2,3) m in \<open>auto simp: upload_inv_def tail_sent_def split: mpc.splits\<close>)
  have ended: "gp s = GDone" if "mp s = MEnd None"
    using assms(3) that by (simp add: upload_inv_def)
  show ?thesis
  proof (cases "mp s")
    case (MEnd e)
    with ended assms(1) show ?thesis by (cases e) (auto simp: upload_inv_def)
  qed (simp_all add: main)
qed

lemma inv_other:
  assumes "upload_inv u s"
  shows "gp s = GOpen \<Longrightarrow> up_disk u = Inr d \<Longrightarrow> upload_inv u (s\<lparr>gp := GCopy\<rparr>)"
    and "gp s = GOpen \<Longrightarrow> upload_inv u (s\<lparr>gp := GSend err\<rparr>)"
    and "gp s = GCloseWriter \<Longrightarrow> upload_inv u (s\<lparr>gp := GCloseChan, tp := x\<rparr>)"
    and "gp s = GCloseChan \<Longrightarrow> upload_inv u (s\<lparr>gp := GDone\<rparr>)"
    and "gp s = GDone \<Longrightarrow> mp s = MRecv r \<Longrightarrow> upload_inv u (s\<lparr>mp := MEnd (upload_result r None)\<rparr>)"
    and "mp s = MDo \<Longrightarrow> upload_inv u (s\<lparr>tp := TOver, mp := MRecv r\<rparr>)"
    and "mp s = MDo \<Longrightarrow> upload_inv u (s\<lparr>mp := MRecv r\<rparr>)"
    and "tp s \<noteq> TOver \<Longrightarrow> upload_inv u (s\<lparr>tp := TOver\<rparr>)"
    and "tp s = TDial \<Longrightarrow> upload_inv u (s\<lparr>tp := TSend\<rparr>)"
  using assms
  by (cases "mp s"; cases "gp s"; auto simp: upload_inv_def tail_sent_def split: option.splits)+

lemma inv_step: "nstep u s s' \<Longrightarrow> upload_inv u s \<Longrightarrow> upload_inv u s'"
proof (erule nstepE)
  assume inv: "upload_inv u s" and "ustep u s s'"
  from this(2) show "upload_inv u s'"
  proof cases
    case (send_error err r)
    then show ?thesis using upload_result_None(1) [of r err] by (auto simp: upload_inv_def)
  next
    case close_writer
    show ?thesis unfolding close_writer(1) by (rule inv_other(3) [OF inv close_writer(2)])
  qed (auto intro: inv inv_other [OF inv] inv_write_ok [OF _ _ inv] inv_write_closed [OF _ _ inv])
qed (simp_all add: inv_other)

lemma upload_sound_complete: "nreaches u s \<Longrightarrow> mp s = MEnd None \<Longrightarrow> tail_sent u s"
proof -
  assume run: "nreaches u s" and ended: "mp s = MEnd None"
  from run have "upload_inv u s"
    by (induction rule: rtranclp_induct) (auto intro: inv_start inv_step)
  with ended show "tail_sent u s" by (simp add: upload_inv_def)
qed

text \<open>
  C5: When the upload returns without an error, the device opened and was read to its end, and the
  server has been sent the complete form: the part header, every byte of the device (or of its
  compressed form) in order, and the end of the form, once or twice.  This holds in every
  interleaving of the goroutines and whatever the network does.
\<close>

theorem upload_success_complete:
  assumes "nreaches u s" and "mp s = MEnd None"
  shows "sound u \<and> (sent s = whole u \<or> sent s = whole u @ up_end u)"
  using upload_sound_complete [OF assms] by (simp add: tail_sent_def)

text \<open>An upload of two bytes, and its run.\<close>

definition example_upload :: upload where
  "example_upload = \<lparr>up_part = ''head'', up_end = ''tail'', up_path = ''/dev/sda'', up_disk = Inr (''xy'', EOF),
     up_gzip = None, up_early = False\<rparr>"

lemma nreaches_write:
  "nreaches u s \<Longrightarrow> writes u (gp s) = Some (bytes, next, bad) \<Longrightarrow> tp s = TSend \<Longrightarrow>
   nreaches u (s\<lparr>gp := next, sent := sent s @ bytes\<rparr>)"
  by (erule rtranclp.rtrancl_into_rtrancl) (rule nstep.program, rule ustep.write_ok)

lemma nreaches_step: "nreaches u s \<Longrightarrow> ustep u s s' \<Longrightarrow> nreaches u s'"
  by (erule rtranclp.rtrancl_into_rtrancl) (rule nstep.program)

lemma plain_upload_run:
  assumes d: "up_disk u = Inr (d, EOF)" and z: "up_gzip u = None"
  shows "nreaches u \<lparr>gp = GDone, tp = TOver, mp = MEnd None, sent = whole u @ up_end u\<rparr>"
proof -
  have whole: "whole u = up_part u @ d @ up_end u" by (simp add: whole_def payload_def d z)
  have 1: "nreaches u (start_upload\<lparr>tp := TSend\<rparr>)"
    by (rule nreaches_step [OF rtranclp.rtrancl_refl], rule ustep.connect) (simp add: start_upload_def)
  have 2: "nreaches u \<lparr>gp = GOpen, tp = TSend, mp = MDo, sent = up_part u\<rparr>"
    using nreaches_write [OF 1] by (simp add: start_upload_def)
  have 3: "nreaches u \<lparr>gp = GCopy, tp = TSend, mp = MDo, sent = up_part u\<rparr>"
    using nreaches_step [OF 2 ustep.open_ok [where d = "(d, EOF)"]] by (simp add: d)
  have 4: "nreaches u \<lparr>gp = GClose, tp = TSend, mp = MDo, sent = up_part u @ d\<rparr>"
    using nreaches_write [OF 3] by (simp add: copy_data_def after_copy_def d z)
  have 5: "nreaches u \<lparr>gp = GCloseAgain, tp = TSend, mp = MDo, sent = whole u\<rparr>"
    using nreaches_write [OF 4] by (simp add: whole)
  have 6: "nreaches u \<lparr>gp = GCloseWriter, tp = TSend, mp = MDo, sent = whole u @ up_end u\<rparr>"
    using nreaches_write [OF 5] by simp
  have 7: "nreaches u \<lparr>gp = GCloseChan, tp = TWait, mp = MDo, sent = whole u @ up_end u\<rparr>"
    using nreaches_step [OF 6 ustep.close_writer] by simp
  have 8: "nreaches u \<lparr>gp = GDone, tp = TWait, mp = MDo, sent = whole u @ up_end u\<rparr>"
    using nreaches_step [OF 7 ustep.close_chan] by simp
  have 9: "nreaches u \<lparr>gp = GDone, tp = TOver, mp = MRecv (Inr 500), sent = whole u @ up_end u\<rparr>"
    using nreaches_step [OF 8 ustep.answer [where status = 500]] by simp
  show ?thesis
    using nreaches_step [OF 9 ustep.recv_closed [where r = "Inr 500"]] by (simp add: upload_result_def)
qed

lemma example_upload_run:
  "nreaches example_upload \<lparr>gp = GDone, tp = TOver, mp = MEnd None, sent = ''headxytailtail''\<rparr>"
  using plain_upload_run [of example_upload "''xy''"] by (simp add: example_upload_def whole_def payload_def)

theorem upload_success_complete_witness:
  "sound example_upload \<and> ''headxytailtail'' = whole example_upload @ ''tail''"
  using upload_success_complete [OF example_upload_run]
  by (auto simp: whole_def payload_def example_upload_def)

subsection \<open>Failure\<close>

text \<open>
  Without a readable device: \<open>Do\<close> has not returned, and the goroutine is on its way to send an
  error that nobody receives.
\<close>

definition stuck :: "upload \<Rightarrow> ustate \<Rightarrow> bool" where
  "stuck u s \<longleftrightarrow> mp s = MDo \<and> tp s \<in> {TDial, TSend}
    \<and> (case gp s of GHeader \<Rightarrow> True | GOpen \<Rightarrow> True | GCopy \<Rightarrow> \<exists>d. up_disk u = Inr d | GSend e \<Rightarrow> True | _ \<Rightarrow> False)"

lemma after_copy_unsound: "\<not> sound u \<Longrightarrow> \<exists>e. after_copy u = GSend e"
  by (auto simp: after_copy_def sound_def split: sum.split)

lemma stuck_step:
  assumes "\<not> sound u" and "\<not> up_early u" and "ustep u s s'" and "stuck u s"
  shows "stuck u s'"
  using assms(3)
proof cases
  case (write_ok bytes "next" bad)
  from write_ok(2) show ?thesis
    by (cases rule: writes_cases) (use write_ok assms(4) after_copy_unsound [OF assms(1)] in \<open>auto simp: stuck_def\<close>)
qed (use assms(2,4) in \<open>auto simp: stuck_def split: gpc.splits\<close>)

lemma stuck_reached: "\<not> sound u \<Longrightarrow> \<not> up_early u \<Longrightarrow> reaches u s \<Longrightarrow> stuck u s"
  by (rotate_tac 2, induction rule: rtranclp_induct) (simp add: stuck_def start_upload_def, rule stuck_step)

lemma no_receiver: "\<not> up_early u \<Longrightarrow> gp s = GSend e \<Longrightarrow> tp s = TSend \<Longrightarrow> mp s = MDo \<Longrightarrow> \<nexists>s'. ustep u s s'"
  by (auto elim!: ustepE)

lemma reaches_step: "reaches u s \<Longrightarrow> ustep u s s' \<Longrightarrow> reaches u s'"
  by (rule rtranclp.rtrancl_into_rtrancl)

lemma unsound_blocks:
  assumes "\<not> sound u"
  shows "\<exists>s e. reaches u s \<and> gp s = GSend e \<and> tp s = TSend \<and> mp s = MDo"
proof -
  have 1: "reaches u \<lparr>gp = GHeader, tp = TSend, mp = MDo, sent = []\<rparr>"
    using ustep.connect [of start_upload u] by (simp add: start_upload_def r_into_rtranclp)
  have 2: "reaches u \<lparr>gp = GOpen, tp = TSend, mp = MDo, sent = up_part u\<rparr>"
    using reaches_step [OF 1 ustep.write_ok] by simp
  show ?thesis
  proof (cases "up_disk u")
    case (Inl err)
    have "reaches u \<lparr>gp = GSend err, tp = TSend, mp = MDo, sent = up_part u\<rparr>"
      using reaches_step [OF 2 ustep.open_fail [OF _ Inl]] by simp
    then show ?thesis by fastforce
  next
    case (Inr d)
    have 3: "reaches u \<lparr>gp = GCopy, tp = TSend, mp = MDo, sent = up_part u\<rparr>"
      using reaches_step [OF 2 ustep.open_ok [OF _ Inr]] by simp
    from after_copy_unsound [OF assms] obtain e where e: "after_copy u = GSend e" by blast
    have "reaches u \<lparr>gp = GSend e, tp = TSend, mp = MDo, sent = up_part u @ copy_data u\<rparr>"
      using reaches_step [OF 3 ustep.write_ok] e by simp
    then show ?thesis by fastforce
  qed
qed

text \<open>
  C18: When the device cannot be opened or read, and the server answers only after the whole request,
  the upload never returns while the connection lasts: the copying goroutine waits on \<open>errchan\<close>
  for the main one, which waits in \<open>client.Do\<close> for the end of the body.  This state without a
  next step is reached.
\<close>

theorem upload_deadlocks:
  assumes "\<not> sound u" and "\<not> up_early u"
  shows "(\<forall>s. reaches u s \<longrightarrow> mp s = MDo) \<and> (\<exists>s. reaches u s \<and> (\<nexists>s'. ustep u s s'))"
proof -
  from unsound_blocks [OF assms(1)] obtain s e where
    "reaches u s" "gp s = GSend e" "tp s = TSend" "mp s = MDo" by blast
  with no_receiver [OF assms(2)] have "\<exists>s. reaches u s \<and> (\<nexists>s'. ustep u s s')" by blast
  with stuck_reached [OF assms] show ?thesis by (simp add: stuck_def)
qed

theorem upload_deadlocks_witness:
  "let u = example_upload\<lparr>up_disk := Inl (NotExist ''open /dev/sda: no such file or directory'')\<rparr>
   in \<exists>s. reaches u s \<and> (\<nexists>s'. ustep u s s') \<and> mp s = MDo"
  using upload_deadlocks [of "example_upload\<lparr>up_disk := Inl (NotExist ''open /dev/sda: no such file or directory'')\<rparr>"]
  unfolding Let_def by (auto simp: sound_def example_upload_def)

subsection \<open>Termination\<close>

text \<open>Which program points go together, when the device can be read.\<close>

definition together :: "ustate \<Rightarrow> bool" where
  "together s \<longleftrightarrow> (tp s = TOver \<longrightarrow> mp s \<noteq> MDo) \<and>
     (case gp s of
        GHeader \<Rightarrow> tp s \<noteq> TWait
      | GSend e \<Rightarrow> tp s = TOver
      | GCloseChan \<Rightarrow> tp s = TWait \<or> tp s = TOver
      | GDone \<Rightarrow> tp s = TWait \<or> tp s = TOver
      | _ \<Rightarrow> tp s = TSend \<or> tp s = TOver)"

lemma after_copy_sound: "sound u \<Longrightarrow> after_copy u \<in> {GClose, GFlush}"
  by (auto simp: sound_def after_copy_def split: sum.splits)

lemma together_other:
  assumes "together s"
  shows "tp s = TDial \<Longrightarrow> together (s\<lparr>tp := TSend\<rparr>)"
    and "gp s = GOpen \<Longrightarrow> together (s\<lparr>gp := GCopy\<rparr>)"
    and "gp s = GSend e \<Longrightarrow> together (s\<lparr>gp := GCloseAgain, mp := MEnd x\<rparr>)"
    and "gp s = GCloseWriter \<Longrightarrow> together (s\<lparr>gp := GCloseChan, tp := (if tp s = TSend then TWait else tp s)\<rparr>)"
    and "gp s = GCloseChan \<Longrightarrow> together (s\<lparr>gp := GDone\<rparr>)"
    and "gp s = GDone \<Longrightarrow> together (s\<lparr>mp := MEnd x\<rparr>)"
    and "tp s = TWait \<Longrightarrow> together (s\<lparr>tp := TOver, mp := MRecv r\<rparr>)"
    and "tp s = TSend \<Longrightarrow> together (s\<lparr>mp := MRecv r\<rparr>)"
    and "mp s \<noteq> MDo \<Longrightarrow> together (s\<lparr>tp := TOver\<rparr>)"
    and "together (s\<lparr>tp := TOver, mp := MRecv r\<rparr>)"
  using assms by (auto simp: together_def split: gpc.splits)

lemma together_step:
  assumes "sound u" and "together s" and "nstep u s s'"
  shows "together s'"
  using assms(3)
proof cases
  case program
  from program(1) show ?thesis
  proof cases
    case (write_ok bytes "next" bad)
    from write_ok(2) show ?thesis
      by (cases rule: writes_cases)
        (use write_ok(1,3) assms(2) after_copy_sound [OF assms(1)] in \<open>auto simp: together_def\<close>)
  next
    case (write_closed bytes "next" bad)
    from write_closed(2) show ?thesis
      by (cases rule: writes_cases) (use write_closed(1,3) assms(2) in \<open>auto simp: together_def\<close>)
  next
    case (open_fail err)
    with assms(1) show ?thesis by (simp add: sound_def)
  qed (simp_all only: together_other [OF assms(2)])
next
  case (fail err)
  show ?thesis unfolding fail(1) by (rule together_other(10) [OF assms(2)])
next
  case hang_up
  show ?thesis unfolding hang_up(1) by (rule together_other(9) [OF assms(2) hang_up(3)])
qed

lemma write_progress:
  assumes "together s" and "writes u (gp s) = Some (bytes, next, bad)"
  shows "\<exists>s'. ustep u s s'"
proof (cases "tp s")
  case TDial
  then show ?thesis by (blast intro: ustep.connect)
next
  case TSend
  with assms(2) show ?thesis by (blast intro: ustep.write_ok)
next
  case TWait
  with assms show ?thesis by (cases "gp s") (simp_all add: together_def)
next
  case TOver
  with assms(2) show ?thesis by (blast intro: ustep.write_closed)
qed

lemma other_progress:
  assumes "sound u" and "together s" and "\<And>r. mp s \<noteq> MEnd r" and "writes u (gp s) = None"
  shows "\<exists>s'. ustep u s s'"
proof -
  have recv: "\<exists>r. mp s = MRecv r" if "mp s \<noteq> MDo" using that assms(3) by (cases "mp s") auto
  show ?thesis
  proof (cases "gp s")
    case GOpen
    with assms(1) show ?thesis by (auto simp: sound_def split: sum.splits intro: ustep.open_ok)
  next
    case (GSend e)
    with assms(2) have "mp s \<noteq> MDo" by (auto simp: together_def)
    with recv GSend show ?thesis by (blast intro: ustep.send_error)
  next
    case GCloseWriter
    then show ?thesis by (blast intro: ustep.close_writer)
  next
    case GCloseChan
    then show ?thesis by (blast intro: ustep.close_chan)
  next
    case GDone
    show ?thesis
    proof (cases "mp s = MDo")
      case True
      with assms(2) GDone have "tp s = TWait" by (auto simp: together_def)
      with True show ?thesis by (blast intro: ustep.answer)
    next
      case False
      with recv GDone show ?thesis by (blast intro: ustep.recv_closed)
    qed
  qed (use assms(4) in simp_all)
qed

lemma together_progress:
  assumes "sound u" and "together s" and "\<And>r. mp s \<noteq> MEnd r"
  shows "\<exists>s'. ustep u s s'"
  using other_progress [OF assms] write_progress [OF assms(2)] by (cases "writes u (gp s)") auto

text \<open>Every step brings a program point forward.\<close>

fun g_rank :: "gpc \<Rightarrow> nat" where
  "g_rank GHeader = 10" | "g_rank GOpen = 9" | "g_rank GCopy = 8" | "g_rank GFlush = 7" | "g_rank GClose = 6"
| "g_rank (GSend e) = 5" | "g_rank GCloseAgain = 4" | "g_rank GCloseWriter = 3" | "g_rank GCloseChan = 2" | "g_rank GDone = 1"

fun m_rank :: "mpc \<Rightarrow> nat" where
  "m_rank MDo = 2" | "m_rank (MRecv r) = 1" | "m_rank (MEnd e) = 0"

definition rank :: "ustate \<Rightarrow> nat" where
  "rank s = g_rank (gp s) + t_rank (tp s) + m_rank (mp s)"

lemma rank_step: "nstep u s s' \<Longrightarrow> rank s' < rank s"
proof (erule nstepE)
  assume "ustep u s s'"
  then show "rank s' < rank s"
  proof cases
    case (write_ok bytes "next" bad)
    have "g_rank (after_copy u) < 8" by (simp add: after_copy_def split: sum.split)
    with write_ok(2) show ?thesis
      by (cases rule: writes_cases) (use write_ok in \<open>auto simp: rank_def\<close>)
  next
    case (write_closed bytes "next" bad)
    from write_closed(2) show ?thesis
      by (cases rule: writes_cases) (use write_closed in \<open>auto simp: rank_def\<close>)
  qed (auto simp: rank_def)
next
  fix err
  assume "s' = s\<lparr>tp := TOver, mp := MRecv (Inl err)\<rparr>" "tp s \<noteq> TOver" "mp s = MDo"
  then show ?thesis by (cases "tp s") (simp_all add: rank_def)
next
  assume "s' = s\<lparr>tp := TOver\<rparr>" "tp s \<noteq> TOver"
  then show ?thesis by (cases "tp s") (simp_all add: rank_def)
qed

text \<open>
  C19: When the device can be read to its end, the upload returns: its steps cannot go on forever,
  and where the program cannot go on, the main goroutine has returned, in every interleaving and
  whatever the network has done before.
\<close>

theorem upload_returns:
  assumes "sound u"
  shows "wfp (\<lambda>s' s. nstep u s s') \<and> (\<forall>s. nreaches u s \<longrightarrow> (\<nexists>s'. ustep u s s') \<longrightarrow> (\<exists>r. mp s = MEnd r))"
proof (intro conjI allI impI)
  show "wfp (\<lambda>s' s. nstep u s s')"
    by (rule wfp_if_convertible_to_nat [of _ rank]) (rule rank_step)
next
  fix s
  assume run: "nreaches u s" and stop: "\<nexists>s'. ustep u s s'"
  from run have "together s"
  proof (induction rule: rtranclp_induct)
    case base
    show ?case by (simp add: together_def start_upload_def)
  qed (rule together_step [OF assms])
  with stop together_progress [OF assms] show "\<exists>r. mp s = MEnd r" by blast
qed

theorem upload_returns_witness:
  "wfp (\<lambda>s' s. nstep example_upload s s')"
proof -
  have "sound example_upload" by (simp add: sound_def example_upload_def)
  from upload_returns [OF this] show ?thesis by blast
qed

subsection \<open>The program\<close>

text \<open>
  What \<open>UploadMultipartFile\<close> may return: the error of a URL that cannot be parsed, or what the main
  goroutine ends with in some interleaving and on some network.  \<open>Read\<close> names the image and passes
  the error on; \<open>main\<close> reads the four variables, and any error ends it with \<open>log.Fatal\<close>.
\<close>

inductive UploadMultipartFile :: "goerr + upload \<Rightarrow> goerr option \<Rightarrow> bool" where
  bad_url: "UploadMultipartFile (Inl err) (Some err)"
| ended: "nreaches u s \<Longrightarrow> mp s = MEnd r \<Longrightarrow> UploadMultipartFile (Inr u) r"

inductive_simps UploadMultipartFile_Inl: "UploadMultipartFile (Inl err) r"
inductive_simps UploadMultipartFile_Inr: "UploadMultipartFile (Inr u) r"

definition slurp_Read :: "kernel \<Rightarrow> string \<Rightarrow> (string \<Rightarrow> goerr + stream) \<Rightarrow> (string \<Rightarrow> string \<times> string) \<Rightarrow> bool
    \<Rightarrow> string \<Rightarrow> string \<Rightarrow> string \<Rightarrow> bool \<Rightarrow> goerr option \<Rightarrow> bool" where
  "slurp_Read k b open_disk gz early sourceDevice destinationAddress name compressed =
     UploadMultipartFile
       (new_upload k b open_disk gz early destinationAddress (image_name name compressed) sourceDevice compressed)"

inductive slurp :: "kernel \<Rightarrow> string \<Rightarrow> (string \<Rightarrow> goerr + stream) \<Rightarrow> (string \<Rightarrow> string \<times> string) \<Rightarrow> bool
    \<Rightarrow> unit res \<Rightarrow> bool" for k b open_disk gz early where
  "slurp_Read k b open_disk gz early (env k ''SOURCE_DISK'') (env k ''DEST_URL'') (env k ''IMG_NAME'')
     (ParseBool (env k ''COMPRESSED'') = Some True) err \<Longrightarrow>
   slurp k b open_disk gz early (case err of None \<Rightarrow> Ret () | Some e \<Rightarrow> Exit 1)"

inductive_cases slurp_RetE: "slurp k b open_disk gz early (Ret x)"

text \<open>
  A \<open>slurp\<close> that ends without an error had a URL that parses and a device that could be opened and
  read to its end.
\<close>

lemma slurp_success:
  assumes "slurp k b open_disk gz early (Ret ())"
  shows "k_badurl k (env k ''DEST_URL'') = None \<and> (\<exists>data. open_disk (env k ''SOURCE_DISK'') = Inr (data, EOF))"
proof -
  let ?cmp = "ParseBool (env k ''COMPRESSED'') = Some True"
  let ?new = "new_upload k b open_disk gz early (env k ''DEST_URL'') (image_name (env k ''IMG_NAME'') ?cmp) (env k ''SOURCE_DISK'') ?cmp"
  from assms have "UploadMultipartFile ?new None"
    by (auto elim!: slurp_RetE simp: slurp_Read_def split: option.splits)
  then obtain u s where u: "?new = Inr u" and "nreaches u s" "mp s = MEnd None"
    by (cases rule: UploadMultipartFile.cases) simp_all
  then have "sound u" using upload_sound_complete by (simp add: tail_sent_def)
  with u show ?thesis
    by (cases "k_badurl k (env k ''DEST_URL'')"; cases "open_disk (env k ''SOURCE_DISK'')")
      (auto simp: new_upload_def sound_def)
qed

end
