(* ===== verification/GoCopy.thy ===== *)
theory GoCopy
  imports GoIO
begin

text \<open>
  The loop of \<open>io.Copy\<close>: data go from a reader to an open file in the pieces that the reads
  deliver.  The rest of the library takes a copy as one write of all bytes; the theorems here say
  what that stands for.
\<close>

subsection \<open>The loop\<close>

text \<open>
  The reads of a source, one after the other, each with its bytes and its error; behind the last
  one the source is at its end.  As a whole they are a stream.
\<close>

fun delivered :: "(string \<times> goerr option) list \<Rightarrow> stream" where
  "delivered [] = ([], EOF)"
| "delivered ((b, e) # rs) =
     (case e of Some err \<Rightarrow> (b, err) | None \<Rightarrow> (b @ fst (delivered rs), snd (delivered rs)))"

definition end_error :: "goerr \<Rightarrow> goerr option" where
  "end_error err = (if err = EOF then None else Some err)"

text \<open>
  Reader and writer may be wrapped in code that keeps a state of type \<open>'c\<close>: \<open>rd\<close> and \<open>wr\<close> are the
  wrappers, which see the bytes of a read and the number of bytes written, and pass the error on,
  changed or not.  A write that fails takes no bytes.  The result has the final state, the number of
  bytes written, and the error of the copy.
\<close>

fun copy_loop :: "('c \<Rightarrow> string \<times> goerr option \<Rightarrow> 'c \<times> goerr option) \<Rightarrow> ('c \<Rightarrow> nat \<times> goerr option \<Rightarrow> 'c \<times> goerr option)
    \<Rightarrow> string \<Rightarrow> (string \<times> goerr option) list \<Rightarrow> 'c \<Rightarrow> nat \<Rightarrow> ('c \<times> nat \<times> goerr option) act" where
  "copy_loop rd wr dst [] c written =
     (let (c', er) = rd c ([], Some EOF) in
      ret (c', written, case er of None \<Rightarrow> None | Some err \<Rightarrow> end_error err))"
| "copy_loop rd wr dst ((b, e) # rs) c written =
     (let (c', er) = rd c (b, e) in
      if b = [] then
        (case er of
           Some err \<Rightarrow> ret (c', written, end_error err)
         | None \<Rightarrow> copy_loop rd wr dst rs c' written)
      else
        bind (sys (WriteBytes dst b)) (\<lambda>w.
        let (c'', ew) = wr c' (case w of None \<Rightarrow> (length b, None) | Some err \<Rightarrow> (0, Some err)) in
        case ew of
          Some err \<Rightarrow> ret (c'', written + (if w = None then length b else 0), Some err)
        | None \<Rightarrow>
            (case er of
               Some err \<Rightarrow> ret (c'', written + length b, end_error err)
             | None \<Rightarrow> copy_loop rd wr dst rs c'' (written + length b))))"

subsection \<open>What a copy does\<close>

text \<open>\<open>patched old pos d\<close>: a file after \<open>d\<close> has been written at a position of it.\<close>

definition patched :: "string \<Rightarrow> nat \<Rightarrow> string \<Rightarrow> string" where
  "patched old pos d = take pos old @ d @ drop (pos + length d) old"

lemma patched_Nil [simp]: "patched old pos [] = old"
  by (simp add: patched_def)

lemma patched_start: "patched old 0 d = overwritten d old"
  by (simp add: patched_def overwritten_def)

lemma patched_twice:
  "pos \<le> length old \<Longrightarrow> patched (patched old pos a) (pos + length a) b = patched old pos (a @ b)"
  by (simp add: patched_def ac_simps)

lemma patched_length: "pos \<le> length old \<Longrightarrow> pos + length d \<le> length (patched old pos d)"
  by (simp add: patched_def)

text \<open>
  How a copy of the stream \<open>(d, err)\<close> can end, after \<open>n\<close> bytes have been written: at the end of the
  stream, or with a write that fails.  \<open>i\<close> is the count of the bytes read, which was \<open>i0\<close>; they are
  the bytes written and those of the write that failed.
\<close>

definition refusals :: "kernel \<Rightarrow> string \<Rightarrow> goerr set" where
  "refusals k dst = {err. \<exists>h d. k_err k h (WriteBytes dst d) = Some err}"

definition copy_outcome :: "goerr set \<Rightarrow> (goerr \<Rightarrow> goerr) \<Rightarrow> (goerr \<Rightarrow> goerr) \<Rightarrow> stream \<Rightarrow> 64 word \<Rightarrow> nat \<Rightarrow> goerr option \<Rightarrow> 64 word \<Rightarrow> bool" where
  "copy_outcome E wrap_r wrap_w s i0 n e i \<longleftrightarrow>
     n = length (fst s) \<and> e = end_error (wrap_r (snd s)) \<and> i = i0 + of_nat n
     \<or> (\<exists>err\<in>E. \<exists>m. 0 < m \<and> n + m \<le> length (fst s) \<and> e = Some (wrap_w err) \<and> i = i0 + of_nat (n + m))"

lemma refusedI: "k_err k h (WriteBytes dst d) = Some err \<Longrightarrow> err \<in> refusals k dst"
  by (auto simp: refusals_def)

lemma copy_outcome_end: "copy_outcome E wr ww (b, err) i0 (length b) (end_error (wr err)) (i0 + of_nat (length b))"
  by (simp add: copy_outcome_def)

lemma copy_outcome_refused:
  "b \<noteq> [] \<Longrightarrow> length b \<le> length (fst s) \<Longrightarrow> err \<in> E \<Longrightarrow> copy_outcome E wr ww s i0 0 (Some (ww err)) (i0 + of_nat (length b))"
  unfolding copy_outcome_def by (intro disjI2 bexI [of _ err] exI [of _ "length b"]) simp_all

lemma copy_outcome_more:
  "copy_outcome E wr ww s (i0 + of_nat (length b)) n e i \<Longrightarrow> copy_outcome E wr ww (b @ fst s, snd s) i0 (length b + n) e i"
  by (auto simp: copy_outcome_def add.assoc)

text \<open>
  The wrappers count the bytes that pass them, and wrap the errors: \<open>inn\<close> is what has been read,
  and, in the extended contract, \<open>out\<close> what has been written.
\<close>

locale counted_copy =
  fixes rd :: "'c \<Rightarrow> string \<times> goerr option \<Rightarrow> 'c \<times> goerr option"
    and wr :: "'c \<Rightarrow> nat \<times> goerr option \<Rightarrow> 'c \<times> goerr option"
    and wrap_r wrap_w :: "goerr \<Rightarrow> goerr" and inn :: "'c \<Rightarrow> 64 word"
  assumes rd_error: "snd (rd c (b, e)) = map_option wrap_r e"
    and wr_error: "snd (wr c (n, e)) = map_option wrap_w e"
    and rd_inn: "inn (fst (rd c (b, e))) = inn c + of_nat (length b)"
    and wr_inn: "inn (fst (wr c (n, e))) = inn c"
begin

text \<open>The part of the loop behind a read that brought bytes.\<close>

lemma refused_write:
  assumes "b \<noteq> []" and "rd c (b, e) = (c1, er)" and "k_err k t (WriteBytes dst b) = Some err"
  shows "\<exists>c2. copy_loop rd wr dst ((b, e) # rs) c written k t = (Ret (c2, written, Some (wrap_w err)), t @ [WriteBytes dst b])
    \<and> inn c2 = inn c1"
proof -
  obtain c2 ew where wr: "wr c1 (0, Some err) = (c2, ew)" by (cases "wr c1 (0, Some err)")
  with wr_error [of c1 0 "Some err"] wr_inn [of c1 0 "Some err"] assms show ?thesis
    by (simp add: sys_bind ret_def)
qed

lemma accepted_write:
  assumes "b \<noteq> []" and "rd c (b, e) = (c1, er)" and "k_err k t (WriteBytes dst b) = None"
  shows "\<exists>c2. copy_loop rd wr dst ((b, e) # rs) c written k t =
      (case er of
         Some err \<Rightarrow> (Ret (c2, written + length b, end_error err), t @ [WriteBytes dst b])
       | None \<Rightarrow> copy_loop rd wr dst rs c2 (written + length b) k (t @ [WriteBytes dst b]))
    \<and> inn c2 = inn c1"
proof -
  obtain c2 ew where wr: "wr c1 (length b, None) = (c2, ew)" by (cases "wr c1 (length b, None)")
  with wr_error [of c1 "length b" None] wr_inn [of c1 "length b" None] assms show ?thesis
    by (intro exI [of _ c2]) (simp add: sys_bind ret_def split: option.split)
qed

lemma goes_on:
  assumes pos: "pos \<le> length old" and b: "b \<noteq> []" and rd: "rd c (b, e) = (c1, er)" and er: "er = map_option wrap_r e"
    and c1: "inn c1 = inn c + of_nat (length b)" and ok: "k_err k t (WriteBytes dst b) = None"
    and rest: "\<And>c written t old pos. pos \<le> length old \<Longrightarrow>
      \<exists>c' n e ext. copy_loop rd wr dst rs c written k t = (Ret (c', written + n, e), t @ ext)
        \<and> file_after k dst t ext (Some old, pos) = (Some (patched old pos (take n (fst (delivered rs)))), pos + n)
        \<and> copy_outcome (refusals k dst) wrap_r wrap_w (delivered rs) (inn c) n e (inn c')"
  shows "\<exists>c' n e' ext. copy_loop rd wr dst ((b, e) # rs) c written k t = (Ret (c', written + n, e'), t @ ext)
    \<and> file_after k dst t ext (Some old, pos) = (Some (patched old pos (take n (fst (delivered ((b, e) # rs))))), pos + n)
    \<and> copy_outcome (refusals k dst) wrap_r wrap_w (delivered ((b, e) # rs)) (inn c) n e' (inn c')"
proof -
  let ?w = "WriteBytes dst b"
  from accepted_write [OF b rd ok, of rs written] obtain c2 where
    run: "copy_loop rd wr dst ((b, e) # rs) c written k t =
      (case er of Some err \<Rightarrow> (Ret (c2, written + length b, end_error err), t @ [?w])
       | None \<Rightarrow> copy_loop rd wr dst rs c2 (written + length b) k (t @ [?w]))" and c2: "inn c2 = inn c1" by blast
  show ?thesis
  proof (cases e)
    case (Some err)
    with run er c1 c2 ok copy_outcome_end [of "refusals k dst" wrap_r wrap_w b err "inn c"] show ?thesis
      by (intro exI [of _ c2] exI [of _ "length b"] exI [of _ "end_error (wrap_r err)"] exI [of _ "[?w]"])
        (simp add: patched_def)
  next
    case None
    let ?old = "patched old pos b" and ?d = "fst (delivered rs)"
    from rest [OF patched_length [OF pos], of c2 "written + length b" "t @ [?w]" b] obtain c' n e' ext where
      step: "copy_loop rd wr dst rs c2 (written + length b) k (t @ [?w]) = (Ret (c', written + length b + n, e'), (t @ [?w]) @ ext)"
      "file_after k dst (t @ [?w]) ext (Some ?old, pos + length b) = (Some (patched ?old (pos + length b) (take n ?d)), pos + length b + n)"
      and out: "copy_outcome (refusals k dst) wrap_r wrap_w (delivered rs) (inn c2) n e' (inn c')" by blast
    have d: "delivered ((b, e) # rs) = (b @ ?d, snd (delivered rs))" using None by simp
    have "file_after k dst t (?w # ext) (Some old, pos) = (Some (patched old pos (take (length b + n) (b @ ?d))), pos + (length b + n))"
      using step(2) ok pos by (simp add: patched_twice) (simp add: patched_def add.assoc)
    moreover from copy_outcome_more out c1 c2
    have "copy_outcome (refusals k dst) wrap_r wrap_w (b @ ?d, snd (delivered rs)) (inn c) (length b + n) e' (inn c')" by simp
    ultimately show ?thesis
      using run er None step(1) unfolding d
      by (intro exI [of _ c'] exI [of _ "length b + n"] exI [of _ e'] exI [of _ "?w # ext"]) (simp add: add.assoc)
  qed
qed

text \<open>
  Whatever the pieces are, the copy writes a beginning of the stream: all of it, and then the error
  is that of its end, or less, and then the error is that of a write.  The file has these bytes and
  no others, as if they had been written at once.
\<close>

lemma copied:
  assumes "pos \<le> length old"
  shows "\<exists>c' n e ext. copy_loop rd wr dst rs c written k t = (Ret (c', written + n, e), t @ ext)
    \<and> file_after k dst t ext (Some old, pos) = (Some (patched old pos (take n (fst (delivered rs)))), pos + n)
    \<and> copy_outcome (refusals k dst) wrap_r wrap_w (delivered rs) (inn c) n e (inn c')"
  using assms
proof (induction rs arbitrary: c written t old pos)
  case Nil
  obtain c' er where "rd c ([], Some EOF) = (c', er)" by (cases "rd c ([], Some EOF)")
  with rd_error [of c "[]" "Some EOF"] rd_inn [of c "[]" "Some EOF"] show ?case
    by (intro exI [of _ c'] exI [of _ "0::nat"] exI [of _ "end_error (wrap_r EOF)"] exI [of _ "[]"])
      (simp add: ret_def copy_outcome_def)
next
  case (Cons r rs)
  obtain b e where r: "r = (b, e)" by (cases r)
  obtain c1 er where rd: "rd c (b, e) = (c1, er)" by (cases "rd c (b, e)")
  with rd_error [of c b e] rd_inn [of c b e] have er: "er = map_option wrap_r e" and c1: "inn c1 = inn c + of_nat (length b)"
    by simp_all
  show ?case
  proof (cases "b = []")
    case True
    show ?thesis
    proof (cases e)
      case None
      with True er c1 rd have "copy_loop rd wr dst (r # rs) c written k t = copy_loop rd wr dst rs c1 written k t"
        and d: "delivered (r # rs) = delivered rs" and c: "inn c1 = inn c"
        by (simp_all add: r)
      with Cons.IH [OF Cons.prems, of c1 written t] show ?thesis by (simp only: d c)
    next
      case (Some err)
      with True er c1 rd show ?thesis
        by (intro exI [of _ c1] exI [of _ "0::nat"] exI [of _ "end_error (wrap_r err)"] exI [of _ "[]"])
          (simp add: r ret_def copy_outcome_def)
    qed
  next
    case False
    have more: "length b \<le> length (fst (delivered (r # rs)))" by (simp add: r split: option.split)
    show ?thesis
    proof (cases "k_err k t (WriteBytes dst b)")
      case (Some err)
      from refused_write [OF False rd Some, of rs written] obtain c2 where
        "copy_loop rd wr dst (r # rs) c written k t = (Ret (c2, written, Some (wrap_w err)), t @ [WriteBytes dst b])"
        "inn c2 = inn c1" by (auto simp: r)
      with Some c1 copy_outcome_refused [OF False more refusedI [OF Some], of wrap_r wrap_w "inn c"] show ?thesis
        by (intro exI [of _ c2] exI [of _ "0::nat"] exI [of _ "Some (wrap_w err)"] exI [of _ "[WriteBytes dst b]"]) simp
    next
      case None
      then show ?thesis using goes_on [OF Cons.prems False rd er c1 None Cons.IH] by (simp add: r)
    qed
  qed
qed

end

text \<open>A writer that counts what it takes shows the number of bytes that the copy returns.\<close>

locale counted_both = counted_copy +
  fixes out :: "'a \<Rightarrow> 64 word"
  assumes rd_out: "out (fst (rd c (b, e))) = out c"
    and wr_out: "out (fst (wr c (n, e))) = out c + of_nat n"
begin

lemma out_count:
  "copy_loop rd wr dst rs c written k t = (Ret (c', m, e), u) \<Longrightarrow> out c' + of_nat written = out c + of_nat m"
proof (induction rs arbitrary: c written t)
  case Nil
  then show ?case using rd_out [of c "[]" "Some EOF"] by (auto simp: ret_def split: prod.splits)
next
  case (Cons r rs)
  obtain b e where r: "r = (b, e)" by (cases r)
  obtain c1 er where rd: "rd c (b, e) = (c1, er)" by (cases "rd c (b, e)")
  with rd_out [of c b e] have c1: "out c1 = out c" by simp
  show ?case
  proof (cases "b = []")
    case True
    with Cons.prems Cons.IH [of c1 written t] rd c1 show ?thesis by (auto simp: r ret_def split: option.splits)
  next
    case False
    obtain w where w: "k_err k t (WriteBytes dst b) = w" by simp
    let ?n = "if w = None then length b else 0"
    obtain c2 ew where wr: "wr c1 (?n, w) = (c2, ew)" by (cases "wr c1 (?n, w)")
    with wr_out [of c1 ?n w] wr_error [of c1 ?n w] c1 have c2: "out c2 = out c + of_nat ?n" and ew: "ew = map_option wrap_w w"
      by simp_all
    show ?thesis
    proof (cases w)
      case None
      with Cons.prems Cons.IH [of c2 "written + length b" "t @ [WriteBytes dst b]"] False rd wr w c2 ew show ?thesis
        by (auto simp: r sys_bind ret_def algebra_simps split: option.splits)
    next
      case (Some err)
      with Cons.prems False rd wr w c2 ew show ?thesis by (simp add: r sys_bind ret_def)
    qed
  qed
qed

end

end
