(* ===== verification/SlurpServer.thy ===== *)
theory SlurpServer
  imports Slurp GoCopy
begin

text \<open>
  The server of \<open>slurp\<close> (\<open>slurp/server/main.go\<close>), which stores the images that are uploaded to it.
\<close>

subsection \<open>Reading the form\<close>

text \<open>
  \<open>r.FormFile("BootyImage")\<close> on a body with the boundary \<open>b\<close>: the first part of the form, if it is
  the file of that name as the client writes it.  The header ends with an empty line, the data
  with the next delimiter.
\<close>

definition delimiter :: "string \<Rightarrow> string" where
  "delimiter b = CRLF @ ''--'' @ b"

function read_header :: "string \<Rightarrow> (string list \<times> string) option" where
  "read_header s =
     (case Cut s CRLF of
        None \<Rightarrow> None
      | Some (l, r) \<Rightarrow>
          if l = [] then Some ([], r)
          else (case read_header r of None \<Rightarrow> None | Some (ls, rest) \<Rightarrow> Some (l # ls, rest)))"
  by pat_completeness auto
termination
  by (relation "measure length") (auto dest: Cut_shorter simp: CRLF_def)

declare read_header.simps [simp del]

definition file_header :: "string \<Rightarrow> bool" where
  "file_header l \<longleftrightarrow> HasPrefix l (''Content-Disposition: form-data; name='' @ quoted ''BootyImage'' @ ''; filename='')"

definition FormFile :: "string \<Rightarrow> string \<Rightarrow> goerr + stream" where
  "FormFile b body =
     (if \<not> HasPrefix body (''--'' @ b @ CRLF) then Inl (SysErr ''http: no such file'')
      else
        (case read_header (drop (length (''--'' @ b @ CRLF)) body) of
           None \<Rightarrow> Inl (SysErr ''http: no such file'')
         | Some (lines, r) \<Rightarrow>
             if \<not> list_ex file_header lines then Inl (SysErr ''http: no such file'')
             else (case Cut r (delimiter b) of
                     None \<Rightarrow> Inl (SysErr ''http: no such file'')
                   | Some (content, rest) \<Rightarrow> Inr (content, EOF))))"

lemma read_header_end: "read_header (CRLF @ r) = Some ([], r)"
proof -
  have "Cut (CRLF @ r) CRLF = Some ([], r)" by (simp add: CRLF_def)
  then show ?thesis by (subst read_header.simps) simp
qed

lemma read_header_line:
  assumes "l \<noteq> []" and "CHR 0x0D \<notin> set l"
  shows "read_header (l @ CRLF @ r) = (case read_header r of None \<Rightarrow> None | Some (ls, rest) \<Rightarrow> Some (l # ls, rest))"
proof -
  have "Cut (l @ CRLF @ r) CRLF = Some (l, r)"
    using Cut_absent_head [of "CHR 0x0D" l "[CHR 0x0A]" r] assms(2) by (simp add: CRLF_def)
  with assms(1) show ?thesis by (subst read_header.simps) simp
qed

lemma read_header_two:
  assumes "l \<noteq> []" "CHR 0x0D \<notin> set l" "l' \<noteq> []" "CHR 0x0D \<notin> set l'"
  shows "read_header (l @ CRLF @ l' @ CRLF @ CRLF @ r) = Some ([l, l'], r)"
  unfolding read_header_line [OF assms(1,2)] read_header_line [OF assms(3,4)] read_header_end by simp

lemma set_quoted: "set (quoted s) \<subseteq> set s \<union> {CHR 0x22, CHR 0x5C}"
  by (auto simp: quoted_def split: if_splits)

text \<open>What the client writes is what the server reads, whatever follows the first end of the form.\<close>

lemma FormFile_roundtrip:
  assumes b: "CHR 0x0D \<notin> set b" and key: "CHR 0x0D \<notin> set key" and data: "\<not> Contains content (delimiter b)"
  shows "FormFile b (part_header b key @ content @ form_end b @ rest) = Inr (content, EOF)"
proof -
  define l1 where "l1 = ''Content-Disposition: form-data; name='' @ quoted ''BootyImage'' @ ''; filename='' @ quoted key"
  define l2 where "l2 = ''Content-Type: application/octet-stream''"
  define start where "start = ''--'' @ b @ CRLF"
  have body: "part_header b key @ content @ form_end b @ rest =
      start @ l1 @ CRLF @ l2 @ CRLF @ CRLF @ content @ delimiter b @ ''--'' @ CRLF @ rest"
    by (simp add: part_header_def form_end_def delimiter_def l1_def l2_def start_def)
  have "CHR 0x0D \<notin> set l1" "l1 \<noteq> []"
    using key set_quoted [of key] set_quoted [of "''BootyImage''"] by (auto simp: l1_def)
  moreover have "CHR 0x0D \<notin> set l2" "l2 \<noteq> []" by (simp_all add: l2_def)
  ultimately have hdr: "read_header (l1 @ CRLF @ l2 @ CRLF @ CRLF @ r) = Some ([l1, l2], r)" for r
    by (intro read_header_two)
  have "Cut (content @ delimiter b @ r) (delimiter b) = Some (content, r)" for r
    using Cut_first [of content "CHR 0x0D" "CHR 0x0A # ''--'' @ b" r] b data
    by (simp add: delimiter_def CRLF_def)
  moreover have "file_header l1"
  proof -
    have "l1 = (''Content-Disposition: form-data; name='' @ quoted ''BootyImage'' @ ''; filename='') @ quoted key"
      by (simp add: l1_def)
    then show ?thesis unfolding file_header_def by (metis HasPrefix_append)
  qed
  moreover have "HasPrefix (start @ s) start" "drop (length start) (start @ s) = s" for s by simp_all
  ultimately show ?thesis
    unfolding FormFile_def body start_def [symmetric]
    by (simp only: hdr option.case prod.case simp_thms if_False if_True) (simp add: delimiter_def)
qed

subsection \<open>The handler\<close>

text \<open>
  \<open>imageHandler\<close> for a client at address \<open>remote\<close>; \<open>form\<close> is the file \<open>r.FormFile\<close> finds, or its
  error.  The result is the status of the answer, which is 200 also when the handler writes none.
\<close>

definition imageHandler :: "string \<Rightarrow> goerr + stream \<Rightarrow> nat act" where
  "imageHandler remote form =
     (let imageName = Sprintf ''%s.img'' [remote] in
      case form of
        Inl err \<Rightarrow> ret 200
      | Inr file \<Rightarrow>
          andThen (must_ok (sys (OpenFile imageName [O_CREATE, O_WRONLY] mode_0644)))
            (with_defer (ignore (sys (Close imageName)))
              (andThen (ignore (copy_to imageName file)) (ret 200))))"

text \<open>
  The server answers 200 whether the image has been stored or not: a form without the file, and
  a copy that fails, are answered like a success; only a file that cannot be created is different,
  and ends the server.
\<close>

theorem imageHandler_always_200:
  "fst (imageHandler remote form k t) =
     (case form of
        Inl err \<Rightarrow> Ret 200
      | Inr file \<Rightarrow> if k_err k t (OpenFile (Sprintf ''%s.img'' [remote]) [O_CREATE, O_WRONLY] mode_0644) = None
                   then Ret 200 else Exit 1)"
proof (cases form)
  case (Inl err)
  then show ?thesis by (simp add: imageHandler_def ret_def)
next
  case (Inr img)
  let ?f = "Sprintf ''%s.img'' [remote]"
  let ?op = "OpenFile ?f [O_CREATE, O_WRONLY] mode_0644"
  obtain e u where "copy_to ?f img k (t @ [?op]) = (Ret e, u)" using returnsD [OF copy_to_returns] by blast
  then have "andThen (ignore (copy_to ?f img)) (ret (200::nat)) k (t @ [?op]) = (Ret 200, u)"
    by (simp add: andThen_def bind_def ignore_run ret_def)
  then have "fst (with_defer (ignore (sys (Close ?f))) (andThen (ignore (copy_to ?f img)) (ret (200::nat))) k (t @ [?op])) = Ret 200"
    by (simp add: with_defer_def ignore_sys)
  then show ?thesis
    unfolding imageHandler_def Let_def Inr sum.case must_step by (cases "k_err k t ?op") simp_all
qed


subsection \<open>What is stored\<close>

text \<open>The calls of a request whose file can be created, and the file after them.\<close>

definition image_file :: "string \<Rightarrow> string" where
  "image_file remote = remote @ ''.img''"

lemma image_file_format: "Sprintf ''%s.img'' [remote] = image_file remote"
  by (simp add: image_file_def)

definition stores :: "kernel \<Rightarrow> call list \<Rightarrow> string \<Rightarrow> string \<Rightarrow> bool" where
  "stores k t f d \<longleftrightarrow> (let op = OpenFile f [O_CREATE, O_WRONLY] mode_0644 in
     k_err k t op = None \<and> (d = [] \<or> k_err k (t @ [op]) (WriteBytes f d) = None))"

lemma imageHandler_run:
  assumes "stores k t (image_file remote) d"
  shows "imageHandler remote (Inr (d, EOF)) k t = (Ret 200, t @ OpenFile (image_file remote) [O_CREATE, O_WRONLY] mode_0644
     # (if d = [] then [] else [WriteBytes (image_file remote) d]) @ [Close (image_file remote)])"
proof -
  let ?f = "image_file remote" and ?op = "OpenFile (image_file remote) [O_CREATE, O_WRONLY] mode_0644"
  have "copy_to ?f (d, EOF) k (t @ [?op]) = (Ret None, (t @ [?op]) @ (if d = [] then [] else [WriteBytes ?f d]))"
    using assms by (auto simp: copy_to_success stores_def Let_def)
  then have "andThen (ignore (copy_to ?f (d, EOF))) (ret (200::nat)) k (t @ [?op])
      = (Ret 200, (t @ [?op]) @ (if d = [] then [] else [WriteBytes ?f d]))"
    by (simp add: andThen_def bind_def ignore_run ret_def)
  then have "with_defer (ignore (sys (Close ?f))) (andThen (ignore (copy_to ?f (d, EOF))) (ret (200::nat))) k (t @ [?op])
      = (Ret 200, ((t @ [?op]) @ (if d = [] then [] else [WriteBytes ?f d])) @ [Close ?f])"
    by (simp add: with_defer_def ignore_sys)
  with assms show ?thesis
    unfolding imageHandler_def Let_def image_file_format sum.case must_step by (simp add: stores_def Let_def)
qed

text \<open>
  The file is opened without \<open>O_TRUNC\<close>: an image stored over a longer file of the same name keeps
  the tail of the old one behind it.
\<close>

lemma imageHandler_file:
  assumes "stores k t (image_file remote) d"
  shows "\<exists>ext. imageHandler remote (Inr (d, EOF)) k t = (Ret 200, t @ ext)
    \<and> fst (file_after k (image_file remote) t ext (old, n))
        = Some (overwritten d (case old of None \<Rightarrow> [] | Some x \<Rightarrow> x))"
proof -
  have close: "(if k_err k u (Close f) = None then file_step f (Close f) c else c) = c" for u f c by simp
  show ?thesis
    using assms unfolding imageHandler_run [OF assms]
    by (intro exI [of _ "OpenFile (image_file remote) [O_CREATE, O_WRONLY] mode_0644
       # (if d = [] then [] else [WriteBytes (image_file remote) d]) @ [Close (image_file remote)]"])
      (auto simp: stores_def Let_def overwritten_def close split: option.split)
qed

subsection \<open>Requests at the same time\<close>

text \<open>
  The server handles every request in a goroutine of its own.  \<open>request_calls\<close> are the calls of a
  request that nothing disturbs.
\<close>

definition request_calls :: "string \<times> string \<Rightarrow> call list" where
  "request_calls = (\<lambda>(remote, d). snd (imageHandler remote (Inr (d, EOF)) quiet []))"

lemma request_calls_eq:
  "request_calls (remote, d) = OpenFile (image_file remote) [O_CREATE, O_WRONLY] mode_0644
     # (if d = [] then [] else [WriteBytes (image_file remote) d]) @ [Close (image_file remote)]"
proof -
  have "stores quiet [] (image_file remote) d" by (simp add: stores_def Let_def)
  from imageHandler_run [OF this] show ?thesis by (simp add: request_calls_def)
qed

lemma image_file_inj: "image_file a = image_file b \<longleftrightarrow> a = b"
  by (simp add: image_file_def)

text \<open>
  C20: Clients with different addresses do not disturb each other: in whatever order the calls of their
  requests come, as long as all of them succeed, each image ends up in its file as if its request
  had been alone.
\<close>

theorem concurrent_uploads:
  assumes "cs \<in> interleavings (map request_calls rs)" and "distinct (map fst rs)" and "all_ok k t cs"
    and "(remote, d) \<in> set rs"
  shows "fst (file_after k (image_file remote) t cs (old, n)) = Some (overwritten d (case old of None \<Rightarrow> [] | Some x \<Rightarrow> x))"
proof -
  let ?f = "image_file remote"
  have own: "filter (touches ?f) (request_calls (remote, d)) = request_calls (remote, d)"
    by (simp add: request_calls_eq touches_def)
  have others: "filter (touches ?f) (request_calls s) = []" if "s \<in> set rs" "s \<noteq> (remote, d)" for s
  proof -
    obtain r e where s: "s = (r, e)" by (cases s)
    with that assms(4) eq_key_imp_eq_value [OF assms(2)] have "r \<noteq> remote" by auto
    then show ?thesis by (simp add: s request_calls_eq touches_def image_file_inj)
  qed
  have "filter (touches ?f) cs = request_calls (remote, d)"
    using interleavings_project [OF assms(1,4) _ own others] assms(2) by (simp add: distinct_map)
  then have "file_after k ?f t cs (old, n) = fold (file_step ?f) (request_calls (remote, d)) (old, n)"
    by (simp add: file_after_ok [OF assms(3)] fold_touching [of ?f cs])
  then show ?thesis by (simp add: request_calls_eq overwritten_def split: option.split)
qed

theorem concurrent_uploads_witness:
  "fst (file_after quiet (image_file ''a:1'') []
     (let one = request_calls (''a:1'', ''xy''); two = request_calls (''b:2'', ''z'') in [hd one, hd two] @ tl one @ tl two) (None, 0))
   = Some (overwritten ''xy'' [])"
proof -
  let ?one = "request_calls (''a:1'', ''xy'')" and ?two = "request_calls (''b:2'', ''z'')"
  have "[hd ?one, hd ?two] @ tl ?one @ tl ?two \<in> interleavings (map request_calls [(''a:1'', ''xy''), (''b:2'', ''z'')])"
    by (simp add: request_calls_eq Cons_in_shuffles_iff image_file_inj)
  from concurrent_uploads [OF this, of quiet "[]" "''a:1''" "''xy''" None 0] show ?thesis by (simp add: Let_def)
qed

subsection \<open>The program\<close>

text \<open>
  The counter the copy runs through prints the progress; \<open>humanize\<close> renders the number of bytes.
\<close>

definition PrintProgress :: "(64 word \<Rightarrow> string) \<Rightarrow> WriteCounter \<Rightarrow> string" where
  "PrintProgress humanize wc =
     CHR 0x0D # replicate 35 (CHR '' '') @ CHR 0x0D # ''Downloading... '' @ humanize (Total wc) @ '' complete'' @ NL"

definition server_WriteCounter_Write :: "(64 word \<Rightarrow> string) \<Rightarrow> WriteCounter \<Rightarrow> string \<Rightarrow> WriteCounter \<times> string \<times> nat \<times> goerr option" where
  "server_WriteCounter_Write humanize wc p =
     (let wc' = wc\<lparr>Total := Total wc + of_nat (length p)\<rparr> in (wc', PrintProgress humanize wc', length p, None))"

interpretation sw: byte_counter "\<lambda>c p. fst (server_WriteCounter_Write h c p)" Total length for h
  by unfold_locales (simp add: server_WriteCounter_Write_def Let_def)

text \<open>\<open>io.Copy(out, io.TeeReader(file, counter))\<close>: every read that brings bytes is counted and printed.\<close>

definition tee_read :: "(64 word \<Rightarrow> string) \<Rightarrow> WriteCounter \<Rightarrow> string \<times> goerr option \<Rightarrow> WriteCounter \<times> goerr option" where
  "tee_read humanize wc r =
     (if fst r = [] then wc else fst (server_WriteCounter_Write humanize wc (fst r)), snd r)"

interpretation ct: counted_copy "tee_read h" "\<lambda>wc r. (wc, snd r)" "\<lambda>err. err" "\<lambda>err. err" Total for h
  by unfold_locales
    (simp_all add: tee_read_def server_WriteCounter_Write_def Let_def option.map_ident)

definition server_copy :: "(64 word \<Rightarrow> string) \<Rightarrow> string \<Rightarrow> (string \<times> goerr option) list \<Rightarrow> (WriteCounter \<times> nat \<times> goerr option) act" where
  "server_copy humanize dst rs = copy_loop (tee_read humanize) (\<lambda>wc r. (wc, snd r)) dst rs \<lparr>Total = 0\<rparr> 0"

text \<open>
  However the upload arrives, the file gets a beginning of it, and all of it unless a write fails;
  the last progress line shows what has been received, which is more than what is stored then.
\<close>

lemma server_copy_in_pieces:
  "\<exists>wc n e ext. server_copy humanize dst rs k t = (Ret (wc, n, e), t @ ext)
     \<and> fst (file_after k dst t ext (Some old, 0)) = Some (overwritten (take n (fst (delivered rs))) old)
     \<and> (n = length (fst (delivered rs)) \<and> Total wc = of_nat n \<and> e = end_error (snd (delivered rs))
        \<or> (\<exists>err m. err \<in> refusals k dst \<and> 0 < m \<and> n + m \<le> length (fst (delivered rs))
             \<and> Total wc = of_nat (n + m) \<and> e = Some err))"
proof -
  from ct.copied [of 0 old humanize dst rs "\<lparr>Total = 0\<rparr>" 0 k t] obtain wc n e ext where
    "server_copy humanize dst rs k t = (Ret (wc, n, e), t @ ext)"
    "file_after k dst t ext (Some old, 0) = (Some (patched old 0 (take n (fst (delivered rs)))), n)"
    "copy_outcome (refusals k dst) (\<lambda>err. err) (\<lambda>err. err) (delivered rs) 0 n e (Total wc)"
    by (auto simp: server_copy_def)
  then show ?thesis by (auto simp: patched_start copy_outcome_def)
qed

text \<open>
  \<open>flags\<close> is what the package \<open>flag\<close> makes of the command line, an error or the port if one is given;
  \<open>serve\<close> names the requests that reach the handler at an address, here one after the other, until
  \<open>ListenAndServe\<close> fails, as it always does in the end.
\<close>

definition slurp_server :: "(string \<Rightarrow> (string \<times> (goerr + stream)) list) \<Rightarrow> goerr + int option \<Rightarrow> unit act" where
  "slurp_server serve flags =
     (case flags of
        Inl err \<Rightarrow> os_exit 2
      | Inr p \<Rightarrow>
          let port = (case p of None \<Rightarrow> 3000 | Some n \<Rightarrow> n) in
          andThen (for_each (serve (Sprintf '':%d'' [Itoa port])) (\<lambda>(remote, form). bind (imageHandler remote form) (\<lambda>status. ret ())))
            log_fatal)"

text \<open>The server never ends well, and a file that cannot be created ends it for all later requests.\<close>

lemma slurp_server_exits: "\<exists>n. fst (slurp_server serve flags k t) = Exit n"
proof (cases flags)
  case (Inr p)
  have run: "\<exists>n. fst (andThen (for_each rs (\<lambda>(remote, form). bind (imageHandler remote form) (\<lambda>status. ret ()))) log_fatal k t) = Exit n"
    for rs
  proof (induction rs arbitrary: t)
    case Nil
    show ?case by (simp add: log_fatal_def os_exit_def)
  next
    case (Cons r rs)
    obtain remote form where r: "r = (remote, form)" by (cases r)
    obtain x t' where h: "imageHandler remote form k t = (x, t')" by (cases "imageHandler remote form k t")
    show ?case
    proof (cases x)
      case (Ret st)
      with h Cons.IH [of t'] show ?thesis by (simp add: r andThen_def bind_def ret_def)
    next
      case (Exit n)
      with h show ?thesis by (simp add: r andThen_def bind_def)
    next
      case (Panic p)
      with h imageHandler_always_200 [of remote form k t] show ?thesis by (simp split: sum.splits if_splits)
    qed
  qed
  then show ?thesis by (simp add: slurp_server_def Inr)
qed (simp add: slurp_server_def os_exit_def)

end
