(* ===== verification/ImageContent.thy ===== *)
theory ImageContent
  imports Image2disk GoCopy
begin

text \<open>
  What \<open>image2disk\<close> leaves on the device: the contents after a write, after failed attempts before
  it, and after a copy that goes in pieces.
\<close>

subsection \<open>After a write\<close>

text \<open>The errors of calls are not the end-of-stream errors of readers, as the package \<open>os\<close> has it.\<close>

definition plain_errors :: "kernel \<Rightarrow> bool" where
  "plain_errors k \<longleftrightarrow> (\<forall>h c err. k_err k h c = Some err \<longrightarrow> \<not> errors_Is err EOF \<and> \<not> errors_Is err UnexpectedEOF)"

lemma plain_copy:
  assumes "plain_errors k" and "filter_eof (copy_error k u dev out) = None"
  shows "fst out = [] \<or> k_err k u (WriteBytes dev (fst out)) = None"
  using assms by (cases "k_err k u (WriteBytes dev (fst out))")
    (auto simp: plain_errors_def filter_eof_def copy_error_def split: if_splits)

text \<open>A write that succeeds has put the whole decompressed image at the beginning of the device.\<close>

lemma image_Write_content:
  assumes ok: "fst (image_Write C url dev compressed iv k t) = Ret None" and plain: "plain_errors k"
  shows "\<exists>ext resp out. snd (image_Write C url dev compressed iv k t) = t @ ext
     \<and> k_http k t url = Inr resp \<and> image_source C url compressed resp = Inr out
     \<and> fst (file_after k dev t ext (Some old, n)) = Some (overwritten (fst out) old)"
proof -
  let ?op = "OpenFile dev [O_WRONLY] mode_0644"
  let ?v = "t @ [HttpGet url, ?op]"
  from ok obtain resp where resp: "k_http k t url = Inr resp"
    and run: "image_Write C url dev compressed iv k t = write_image C url dev compressed iv resp k (t @ [HttpGet url])"
    by (auto simp: image_Write_run split: option.splits sum.splits if_splits)
  with ok have op: "k_err k (t @ [HttpGet url]) ?op = None"
    and calls: "snd (image_Write C url dev compressed iv k t) = ?v @ snd (image_run C url dev compressed iv resp k ?v) @ [Close dev]"
    and body: "fst (image_run C url dev compressed iv resp k ?v) = Ret None"
    by (simp_all add: write_image_run Let_def split: option.splits)
  from body obtain out where src: "image_source C url compressed resp = Inr out"
    and copied: "filter_eof (copy_error k ?v dev out) = None"
    and tail: "snd (image_run C url dev compressed iv resp k ?v) = copy_calls dev out @ [Sync dev, BlkRRPart dev]"
    by (auto simp: image_run_def split: sum.splits option.splits if_splits)
  from plain_copy [OF plain copied] have w: "fst out = [] \<or> k_err k ?v (WriteBytes dev (fst out)) = None" .
  have "fst (file_after k dev t ([HttpGet url, ?op] @ copy_calls dev out @ [Sync dev, BlkRRPart dev, Close dev]) (Some old, n))
      = Some (overwritten (fst out) old)"
    using op w by (auto simp: copy_calls_def overwritten_def)
  with calls tail resp src show ?thesis
    by (intro exI [of _ "[HttpGet url, ?op] @ copy_calls dev out @ [Sync dev, BlkRRPart dev, Close dev]"] exI [of _ resp] exI [of _ out]) simp
qed

subsection \<open>After several attempts\<close>

lemma RetryNotify_last:
  "fst (RetryNotify n op k t) = Ret None \<Longrightarrow> \<exists>i u. fails op k i t u \<and> op k u = (Ret None, snd (RetryNotify n op k t))"
proof (induction n arbitrary: t)
  case 0
  then show ?case by (intro exI [of _ 0] exI [of _ t]) (simp add: prod_eq_iff)
next
  case (Suc n)
  obtain r v where op: "op k t = (r, v)" by (cases "op k t")
  show ?case
  proof (cases "\<exists>err. r = Ret (Some err)")
    case True
    then obtain err where r: "r = Ret (Some err)" by blast
    then have "RetryNotify (Suc n) op k t = RetryNotify n op k v" using op by (simp add: bind_def)
    with Suc.IH [of v] Suc.prems obtain i u where "fails op k i v u" "op k u = (Ret None, snd (RetryNotify (Suc n) op k t))"
      by auto
    with op r show ?thesis by (intro exI [of _ "Suc i"] exI [of _ u]) simp
  next
    case False
    with Suc.prems op have "op k t = (Ret None, snd (RetryNotify (Suc n) op k t))"
      by (auto simp: bind_def ret_def split: res.splits option.splits)
    then show ?thesis by (intro exI [of _ 0] exI [of _ t]) simp
  qed
qed

lemma fails_grows: "emits P op \<Longrightarrow> fails op k i t u \<Longrightarrow> \<exists>h. u = t @ h"
proof (induction i arbitrary: t)
  case (Suc i)
  from Suc.prems(2) obtain err v where op: "op k t = (Ret (Some err), v)" and rest: "fails op k i v u"
    by (auto split: prod.splits res.splits option.splits)
  from Suc.prems(1) op obtain h where "v = t @ h" by (metis emitsE snd_conv)
  with Suc.IH [OF Suc.prems(1) rest] show ?case by auto
qed simp

lemma file_after_kept: "\<exists>x m. file_after k p t cs (Some old, n) = (Some x, m)"
proof (induction cs arbitrary: t old n)
  case (Cons c cs)
  have "\<exists>x m. file_step p c (Some old, n) = (Some x, m)" by (cases c) simp_all
  with Cons.IH show ?case by (auto split: if_split)
qed simp

lemma operation_emits: "emits (\<lambda>c. True) (operation C u disk cmp iv)"
  unfolding operation_def image_Write_def write_image_def copy_progress_def Let_def
  by (intro emits_intros) (auto intro!: emits_intros split: prod.split)

lemma operation_done: "operation C u disk cmp iv k t = (Ret None, t') \<Longrightarrow> image_Write C u disk cmp iv k t = (Ret None, t')"
  by (auto simp: operation_def check_def bind_def ret_def split: prod.splits res.splits option.splits)


text \<open>A disk of three bytes, written at the second attempt.\<close>

definition plain_codecs :: codecs where
  "plain_codecs = \<lparr>bzip2_reader = (\<lambda>s. s), gzip_reader = Inr, xz_reader = Inr, zstd_reader = Inr, url_parse = Some, retries = 0\<rparr>"

definition image_answer :: http_response where
  "image_answer = \<lparr>StatusCode = 200, Status = ''200 OK'', Body = ''xy'', BodyEnd = EOF\<rparr>"

definition flaky_kernel :: kernel where
  "flaky_kernel = quiet\<lparr>k_env := [''IMG_URL'' \<mapsto> ''http://s/a.img'', ''DEST_DISK'' \<mapsto> ''/dev/sdb'', ''RETRY_ENABLED'' \<mapsto> ''1''],
     k_http := \<lambda>h u. if h = [] then Inl (SysErr ''connection refused'') else Inr image_answer\<rparr>"

lemma flaky_env:
  "env flaky_kernel ''IMG_URL'' = ''http://s/a.img''" "env flaky_kernel ''DEST_DISK'' = ''/dev/sdb''"
  "env flaky_kernel ''RETRY_ENABLED'' = ''1''" "env flaky_kernel ''COMPRESSED'' = []"
  "env flaky_kernel ''PROGRESS_INTERVAL_SECONDS'' = []"
  by (simp_all add: env_def flaky_kernel_def)


subsection \<open>A copy in pieces\<close>

text \<open>
  \<open>Progress\<close> around both ends of the copy: the counters of \<open>Progress_Read\<close> and \<open>Progress_Write\<close>
  and their errors.
\<close>

definition progress_read :: "Progress \<Rightarrow> string \<times> goerr option \<Rightarrow> Progress \<times> goerr option" where
  "progress_read p r = (case Progress_Read p (length (fst r), snd r) of (p', nu, e) \<Rightarrow> (p', e))"

definition progress_written :: "Progress \<Rightarrow> nat \<times> goerr option \<Rightarrow> Progress \<times> goerr option" where
  "progress_written p r = (case Progress_Write p r of (p', nu, e) \<Rightarrow> (p', e))"

interpretation cp: counted_both progress_read progress_written
    "Wrapf ''error with read: %w'' []" "Wrapf ''error with write: %w'' []" readBytes writeBytes
  by unfold_locales
    (auto simp: progress_read_def progress_written_def Progress_Read_def Progress_Write_def readBytes_def writeBytes_def
      split: option.split)

text \<open>\<open>io.Copy(progressRW, progressRW)\<close> for the reads \<open>rs\<close> of the body.\<close>

definition image_copy :: "string \<Rightarrow> (string \<times> goerr option) list \<Rightarrow> (Progress \<times> nat \<times> goerr option) act" where
  "image_copy device rs = copy_loop progress_read progress_written device rs NewProgress 0"

text \<open>
  C21: However the body arrives, the copy puts a beginning of it on the device and nothing else, and the
  counters that the progress lines show are exact: what is written is on the device, and what is
  read is that and at most the piece whose write has failed.  Without such a failure the device
  gets the whole body, both counters agree, and number and error are those of a copy in one write.
\<close>

theorem image_copy_in_pieces:
  "\<exists>p n e ext. image_copy device rs k t = (Ret (p, n, e), t @ ext)
     \<and> fst (file_after k device t ext (Some old, 0)) = Some (overwritten (take n (fst (delivered rs))) old)
     \<and> writeBytes p = of_nat n
     \<and> (n = length (fst (delivered rs)) \<and> readBytes p = of_nat n \<and> e = Some (snd (progress_reader (delivered rs)))
        \<or> (\<exists>err m. err \<in> refusals k device \<and> 0 < m \<and> n + m \<le> length (fst (delivered rs))
             \<and> readBytes p = of_nat (n + m) \<and> e = Some (Wrapf ''error with write: %w'' [] err)))"
proof -
  from cp.copied [of 0 old device rs NewProgress 0 k t] obtain p n e ext where
    run: "image_copy device rs k t = (Ret (p, n, e), t @ ext)"
    and content: "file_after k device t ext (Some old, 0) = (Some (patched old 0 (take n (fst (delivered rs)))), n)"
    and outcome: "copy_outcome (refusals k device) (Wrapf ''error with read: %w'' []) (Wrapf ''error with write: %w'' [])
      (delivered rs) (readBytes NewProgress) n e (readBytes p)" by (auto simp: image_copy_def)
  have "writeBytes p = of_nat n"
    using cp.out_count [OF run [unfolded image_copy_def]] by (simp add: NewProgress_def writeBytes_def)
  with run content outcome show ?thesis
    by (auto simp: patched_start copy_outcome_def end_error_def progress_reader_def NewProgress_def readBytes_def)
qed

text \<open>A copy whose error \<open>image2disk\<close> ignores has put the whole body on the device.\<close>

lemma image_copy_accepted:
  assumes "plain_errors k" and "image_copy device rs k t = (Ret (p, n, e), u)" and "filter_eof e = None"
  shows "n = length (fst (delivered rs))"
proof -
  from cp.copied [of 0 "[]" device rs NewProgress 0 k t] assms(2)
  have "copy_outcome (refusals k device) (Wrapf ''error with read: %w'' []) (Wrapf ''error with write: %w'' [])
      (delivered rs) (readBytes NewProgress) n e (readBytes p)" by (auto simp: image_copy_def)
  with assms(1,3) show ?thesis
    by (auto simp: copy_outcome_def plain_errors_def refusals_def filter_eof_def split: if_splits)
qed

end
