(* ===== verification/Capture.thy ===== *)
theory Capture
  imports SlurpServer ImageContent
begin

text \<open>
  Capturing a disk and writing it back: \<open>slurp\<close> uploads a device, its server stores the image, and
  \<open>image2disk\<close> writes the stored image to another device.
\<close>

subsection \<open>The whole way\<close>

text \<open>What the server has been sent when an upload has succeeded.\<close>

lemma upload_form:
  assumes new: "new_upload k b open_disk gz early uri key path compressed = Inr u"
    and run: "nreaches u s" "mp s = MEnd None"
    and b: "CHR 0x0D \<notin> set b" and key: "CHR 0x0D \<notin> set key" and data: "\<not> Contains (payload u) (delimiter b)"
  shows "FormFile b (sent s) = Inr (payload u, EOF)"
proof -
  from upload_sound_complete [OF run] have "sent s = whole u \<or> sent s = whole u @ up_end u"
    by (simp add: tail_sent_def)
  then obtain rest where "sent s = whole u @ rest" by (metis append_Nil2)
  moreover have "up_part u = part_header b key" "up_end u = form_end b"
    using new by (auto simp: new_upload_def split: option.splits)
  ultimately show ?thesis
    using FormFile_roundtrip [OF b key data] by (simp add: whole_def)
qed


text \<open>A disk of two bytes on its way to a disk of three.\<close>

definition two_bytes :: upload where
  "two_bytes = \<lparr>up_part = part_header ''bound'' ''d.img'', up_end = form_end ''bound'', up_path = ''/dev/sda'',
     up_disk = Inr (''xy'', EOF), up_gzip = None, up_early = False\<rparr>"

definition image_kernel :: kernel where
  "image_kernel = quiet\<lparr>k_http := \<lambda>_ _. Inr image_answer\<rparr>"


text \<open>
  A compressed image is stored under a name that ends in \<open>.img\<close> as well, which names no
  decompressor: \<open>image2disk\<close> cannot decompress it from there.
\<close>

lemma Ext_img: "Ext (u @ ''.img'') = ''.img''"
proof -
  have f: "file_part (u @ ''.img'') = file_part u @ ''.img''"
    by (simp add: file_part_def Split_last_append)
  have "last (Split (x @ ''.img'') ''.'') = ''img''" for x
    using Split_char_append [of x "CHR ''.''" "''img''"] by (simp add: Split_char_free)
  then show ?thesis by (simp add: Ext_def f Let_def)
qed

lemma stored_image_not_decompressed: "fst (image_Write C (u @ ''.img'') dev True iv k t) \<noteq> Ret None"
proof -
  have "image_source C (u @ ''.img'') True resp = Inl (Errorf ''unknown compression suffix [%s]'' [''.img''])" for resp
    by (simp add: image_source_def findDecompressor_def Ext_img Let_def)
  then show ?thesis
    by (simp add: image_Write_run write_image_run image_run_def Let_def split: option.split sum.split)
qed

end
