(* ===== verification/Spec2Isabelle.thy ===== *)
theory Spec2Isabelle
  imports Rootio Users Kexec Cexec Grub2disk Writefile Archive Oci2disk Serial Bootsector Capture
begin

text \<open>
  This library models the actions of Tinkerbell: small Go programs that are run one after the
  other, each in a container of its own, to install a machine.  They take their parameters from
  environment variables and from the metadata service, and they work on the machine by calling
  the kernel and programs such as \<open>lvm\<close>, \<open>mdadm\<close> or \<open>grub-install\<close>.

  \<^bold>\<open>How an action is modelled.\<close>  Theory \<open>GoOS\<close> fixes the effects.  An action has the type
  \<open>kernel => call list => 'a res * call list\<close>: it is given the answers of the outside world and
  the calls issued so far, and yields its result and the longer list of calls.  The result says
  whether it returned a value, ended the process with a status (\<open>os.Exit\<close>, \<open>log.Fatal\<close>), or
  panicked.  The record \<open>kernel\<close> is a parameter: its answers may depend on the whole history,
  and nothing is assumed about them unless a theorem says so.  So a theorem about the calls of an
  action holds for every kernel, disk, network and program behind them.  A Go error is a value of
  \<open>goerr\<close>; a function with a result and an error has the result \<open>goerr + 'a\<close>, one with an error
  only \<open>goerr option\<close>.  \<open>with_defer\<close> runs its first argument when the second one returns or
  panics, and not when the process exits, as Go does.  Log output and \<open>fmt.Print\<close> leave no trace.
  Go's \<open>string\<close> is Isabelle's list of 256 characters, one for each byte.  Sector numbers, counters
  and modes are words of their Go width; sizes and lengths that cannot overflow are numbers.

  \<^bold>\<open>The shared packages.\<close>
  \<^item> \<open>Prelude\<close>: lemma collections and generic facts.
  \<^item> \<open>GoStrings\<close>, \<open>GoPath\<close>, \<open>GoRegexp\<close>, \<open>GoIO\<close>: what the actions use of \<open>strings\<close>, \<open>strconv\<close>,
    \<open>path/filepath\<close>, \<open>regexp\<close>, \<open>io\<close> and \<open>errors\<close>.  These model Go's library as documented; they
    hold the round trips (\<open>Split\<close> and \<open>Join\<close>, \<open>FormatUint\<close> and \<open>Atoi\<close>) and the facts about clean
    paths that the properties rest on.
  \<^item> \<open>GoCopy\<close>: the loop of \<open>io.Copy\<close>, piece by piece, with code around its reader and its writer; a
    copy in pieces leaves a file as one write of the same bytes does.
  \<^item> \<open>Actions\<close>: the reasoning library.  \<open>emits P m\<close> bounds the calls of an action, \<open>phases Ps m\<close>
    puts them in consecutive blocks, \<open>returns m\<close> says that it neither exits nor panics.
  \<^item> \<open>Stages\<close>: the contract of the main programs, \<open>staged A G W m\<close>: what is asked first, the calls
    that must all succeed before the work, and the work.
  \<^item> \<open>Metadata\<close> (\<open>pkg/metadata\<close>, \<open>rootio/storage/types.go\<close>): the records of the metadata and the
    client, \<open>New\<close>, \<open>Fetch\<close> and \<open>RetrieveData\<close>.
  \<^item> \<open>Chroot\<close> (\<open>pkg/chroot\<close>): \<open>filterExtras\<close>, \<open>MountExtras\<close>, \<open>MountTree\<close> and \<open>Enter\<close>.  Mount
    points are mounted from the outside in, and \<open>chroot\<close> follows only after every mount.

  \<^bold>\<open>The actions.\<close>
  \<^item> \<open>rootio\<close>: \<open>Lvm\<close> (\<open>rootio/lvm/lvm.go\<close>), \<open>StorageLvm\<close>, \<open>Raid\<close>, \<open>Partitioning\<close> and \<open>StorageFs\<close>
    (\<open>rootio/storage\<close>), \<open>Fstab\<close> (\<open>rootio/fstab\<close>), and \<open>Rootio\<close> (\<open>rootio/cmd/rootio.go\<close>), which
    composes them to the commands \<open>partition\<close>, \<open>wipe\<close>, \<open>format\<close>, \<open>mount\<close>, \<open>fstab\<close> and \<open>version\<close> and
    these to the program \<open>rootio\<close> with its \<open>init\<close> (\<open>rootio/main.go\<close>).  Shown: the order of the teardown and of the creation, that an error does not stop the rest, the exact
    command lines and when they succeed, that no word of the metadata is taken for an option, that
    the partitions of a layout are disjoint, and that a rendered table splits back into its fields.
  \<^item> \<open>cexec\<close>: \<open>Cexec\<close> (\<open>cexec/main.go\<close>).  A session is set up, used and undone in reverse order.
  \<^item> \<open>grub2disk\<close>: \<open>Grub2disk\<close> (\<open>grub2disk/main.go\<close>, \<open>grub2disk/grub\<close>).
  \<^item> \<open>kexec\<close>: \<open>Grub\<close> (\<open>kexec/cmd/grub\<close>), the parser of \<open>grub.cfg\<close> with its panics, its invariant,
    a reference reading and a round trip; \<open>Kexec\<close> (\<open>kexec/cmd/kexec.go\<close>, \<open>kexec/main.go\<close>), the
    command that uses it.
  \<^item> \<open>writefile\<close>: \<open>Writefile\<close> (\<open>writefile/main.go\<close>).  \<open>recursiveEnsureDir\<close> refines an operation on
    the set of directories.
  \<^item> \<open>archive2disk\<close>: \<open>Archive\<close> (\<open>archive2disk/main.go\<close>, \<open>archive2disk/archive\<close>).  The extraction
    refines an operation on a map from paths to contents; where its names may lead.
  \<^item> \<open>image2disk\<close>: \<open>Counters\<close> and \<open>Image2disk\<close> (\<open>image2disk/main.go\<close>, \<open>image2disk/image\<close>): the
    progress counters and their rendering, decompression, the copy and the retries.  \<open>ImageContent\<close>:
    what is on the device after a write, after retries, and after a copy that goes in pieces.
  \<^item> \<open>oci2disk\<close>: \<open>Oci2disk\<close> (\<open>oci2disk/main.go\<close>, \<open>oci2disk/image\<close>): the store that a pull fills.
  \<^item> \<open>serial-console\<close>: \<open>Serial\<close> (\<open>serial-console/internal/serial\<close>, \<open>serial-console/cmd\<close>).
  \<^item> \<open>user-manage\<close>: \<open>Users\<close> (\<open>user-manage/internal/users\<close>, \<open>user-manage/cmd\<close>).
  \<^item> \<open>syslinux\<close> and \<open>qemuimg2disk\<close>: \<open>Bootsector\<close> (\<open>syslinux/main.go\<close>, \<open>qemuimg2disk/main.go\<close>).
  \<^item> \<open>slurp\<close>: \<open>Slurp\<close> (\<open>slurp/main.go\<close>, \<open>slurp/image\<close>).  Its upload has two goroutines and the HTTP transport, which meet at a pipe and a channel: the step
    relation \<open>ustep\<close> on their program points, and \<open>nstep\<close> with the failures of the network.  Shown
    are an invariant for success, a deadlock, and termination where it is free of it.
    \<open>SlurpServer\<close> (\<open>slurp/server/main.go\<close>): reading the form back, what a request leaves in the
    image file, that requests at the same time do not disturb each other, and the program around
    the handler.
  \<^item> \<open>Capture\<close> composes three programs: a disk that \<open>slurp\<close> has uploaded and its server stored is
    what \<open>image2disk\<close> writes to another disk.  The properties of several actions are at the end of
    this theory.
\<close>

text \<open>
  \<^bold>\<open>Interfaces.\<close>  Contracts that several operations share are locales, each interpreted on the
  model's own definitions in the theory that provides them.
  \<^item> \<open>fail_fast\<close> (\<open>Actions\<close>): an operation that is a fixed list of calls and stops at the first
    error.  Interpreted for \<open>MountExtras\<close>, \<open>MountTree\<close>, \<open>Enter\<close> and the commands of \<open>cexec\<close>.
  \<^item> \<open>best_effort\<close> (\<open>Actions\<close>): a list of calls that is always issued in full.  Interpreted for
    \<open>TeardownVolumeGroups\<close>.
  \<^item> \<open>staged_action\<close> (\<open>Stages\<close>): a program in the three stages above.  Interpreted for
    \<open>archive2disk\<close>, \<open>kexecCmd\<close> and \<open>writefile\<close>.
  \<^item> \<open>rooted_action\<close> (\<open>Chroot\<close>) extends it: the calls before the work are those of \<open>Enter\<close>.
    Interpreted for \<open>user_manage\<close>, \<open>serial_console\<close>, \<open>grub2disk\<close> and \<open>rootioFstab\<close>.
  \<^item> \<open>mount_order\<close> (\<open>Chroot\<close>): what the mounting loop needs of the order of the mount points.
    Interpreted for \<open>filterExtras\<close> and \<open>pathDepth\<close>.
  \<^item> \<open>word_validator\<close> (\<open>Lvm\<close>): a check after which a word is neither empty nor an option.
    Interpreted for volume group names, volume names, tags and RAID names.
  \<^item> \<open>seq_layout\<close> (\<open>Partitioning\<close>): partitions laid out one behind the other.  Interpreted for the
    GPT and the MBR.
  \<^item> \<open>counted_copy\<close> (\<open>GoCopy\<close>): code around the reader and the writer of a copy that counts what is
    read; \<open>counted_both\<close> extends it by a count of what is written.  Interpreted for the counter of
    the server of \<open>slurp\<close> and for the \<open>Progress\<close> of \<open>image2disk\<close>.
  \<^item> \<open>byte_counter\<close> (\<open>Counters\<close>): a counter that wraps around at 64 bits.  Interpreted for both
    directions of \<open>Progress\<close>, for the \<open>WriteCounter\<close> of each package that declares one and for the
    \<open>DiskImage\<close> of \<open>oci2disk\<close>.

  The program points of the transport of \<open>slurp\<close> are an instance of \<open>linorder\<close> and \<open>order_top\<close>: every
  step moves it forward in that order.

  \<^bold>\<open>Parameters.\<close>  Beside the kernel, code that is not part of the repository is an argument of the
  definitions that use it: the decoder of JSON texts (\<open>decoder\<close>); tar, gzip and digests, and the
  order in which Go ranges over a map (\<open>formats\<close>); the decompressors and the parser of URLs
  (\<open>codecs\<close>); the pull of \<open>oras\<close> (\<open>puller\<close>), which names the blobs it delivers; the reading of the
  flags of \<open>cexec\<close> and of the server of \<open>slurp\<close>; what \<open>cobra\<close> makes of the command line of \<open>rootio\<close> and
  \<open>kexec\<close> (\<open>dispatcher\<close>); the boundary of a form and the output of a gzip writer in \<open>slurp\<close>; the
  requests that reach its server (\<open>serve\<close>) and the rendering of its progress (\<open>humanize\<close>).

  \<^bold>\<open>Bounds.\<close>  Every loop of the program but one runs over a finite list and is a structural
  recursion.  \<open>RetryNotify\<close> recurses on the number of attempts that the retry policy of \<open>backoff\<close>
  still grants, the field \<open>retries\<close>; the theorems hold for every such number, so nothing depends
  on a bound.  The upload of \<open>slurp\<close> is a relation without a bound, and its termination is a
  theorem.  A partition size in the metadata that is too large wraps around as in Go, and the
  theorems about layouts have the sizes that fit as a hypothesis.

  \<^bold>\<open>Not modelled.\<close>
  \<^item> The parsing of command lines and flags, which the packages \<open>cobra\<close>, \<open>flag\<close> and \<open>ff\<close> do.
  \<^item> Failing requests that the server of \<open>slurp\<close> handles at the same time: \<open>slurp_server\<close> takes the
    requests one after the other, and the theorem on their interleavings is about those whose calls
    succeed.
  \<^item> Log handlers, tickers and the goroutine of \<open>image2disk\<close> that logs the progress: they read
    counters and change nothing.  Only the panic of a ticker with an interval that is not positive
    is modelled.
  \<^item> Signals, timeouts of HTTP clients and TLS options: they only change what the parameters answer.
  \<^item> The tags that name the fields of the metadata in JSON, which only the decoder reads.
  \<^item> In the programs a copy is one write of all bytes, so their calls do not show how far a copy came
    that failed in between.  The copies of \<open>image2disk\<close> and of the server of \<open>slurp\<close> are modelled in
    pieces beside it, with the theorems that relate the two; a write that fails takes no bytes.
  \<^item> The shell scripts, the Dockerfiles and the documentation.
\<close>

subsection \<open>Properties of several actions\<close>

text \<open>
  C3: Four actions work inside the root that they have built on the device: whatever the kernel
  answers, they first ask the metadata service at most, then issue the calls that enter the root,
  and call anything else only after every one of these has succeeded.  So no account, file or boot
  loader of the running system is ever touched.
\<close>

theorem actions_work_inside_root:
  "staged is_http (enters_root ''BLOCK_DEVICE'' ''FS_TYPE'') user_call (user_manage decode)
   \<and> staged is_http (enters_root ''BLOCK_DEVICE'' ''FS_TYPE'') serial_call (serial_console decode)
   \<and> staged is_http (enters_root ''GRUB_INSTALL_PATH'' ''FS_TYPE'') Grub2disk.install_call (grub2disk decode)
   \<and> staged (\<lambda>_. False) (enters_root ''BLOCK_DEVICE'' ''FS_TYPE'') fstab_call (rootioFstab md)"
  by (intro conjI um.rooted sc.rooted gd.rooted rf.rooted)

text \<open>
  C13: Three actions mount the device first: \<open>archive2disk\<close> unpacks only after the device and all kept
  sibling filesystems have been mounted, \<open>kexec\<close> reads and boots, and \<open>writefile\<close> writes, only
  after the device has been mounted; before that they do nothing but detach old mounts and ask
  for the metadata.
\<close>

theorem actions_mount_first:
  "staged prepare_call (\<lambda>k cs. \<exists>extras. cs = tree_gate k extras) unpack_call (archive2disk L decode)
   \<and> staged (\<lambda>_. False) (\<lambda>k cs. cs = single_mount (env k ''BLOCK_DEVICE'') (env k ''FS_TYPE'')) boot_call kexecCmd
   \<and> staged (\<lambda>_. False) (\<lambda>k cs. cs = single_mount (env k ''DEST_DISK'') (env k ''FS_TYPE'')) Writefile.file_call writefile"
proof (intro conjI)
  show "staged prepare_call (\<lambda>k cs. \<exists>extras. cs = tree_gate k extras) unpack_call (archive2disk L decode)"
    by (rule ad.staged) (auto split: prod.splits)
  show "staged (\<lambda>_. False) (\<lambda>k cs. cs = single_mount (env k ''BLOCK_DEVICE'') (env k ''FS_TYPE'')) boot_call kexecCmd"
    by (rule kx.staged) simp
  have "in_blockDevice i = env k ''DEST_DISK'' \<and> in_filesystemType i = env k ''FS_TYPE''"
    if "fst (validated u k t) = Ret i" for u k t i
    using that by (auto simp: validated_def validate_def Let_def split: option.splits if_splits)
  then show "staged (\<lambda>_. False) (\<lambda>k cs. cs = single_mount (env k ''DEST_DISK'') (env k ''FS_TYPE'')) Writefile.file_call writefile"
    by (intro wf.staged) auto
qed

end
